(* ===== verification/Go_Prelude.thy ===== *)
theory Go_Prelude
  imports Main "HOL-Library.List_Lexorder" "HOL-Library.Char_ord" "HOL-Library.Sublist"
begin

text \<open>
  What every theory of the development shares: the parts of the Go language and of its
  standard library that the operator uses (error values with \<open>errors.As\<close>, string helpers,
  nil maps and \<open>maps.Copy\<close>, \<open>slices.Contains\<close> and \<open>slices.SortFunc\<close>, panics), the
  sequencing of fallible steps, and the contract of a reconcile step with its composition
  rules.

  A function of the program that talks to the cluster is a \<open>step\<close>: it takes the state of
  the outside world and returns the error value of the Go function (\<open>None\<close> is a nil
  error) with the next state.
\<close>

named_theorems go_defs \<open>definitions unfolded when a model function is evaluated\<close>

section \<open>Error values\<close>

text \<open>
  The error types the operator declares itself, the errors it builds with \<open>fmt.Errorf\<close>
  (plain, or wrapping a cause with the verb w), and errors made by third-party code, of which
  only a class and the text are known here.
\<close>

datatype go_error =
    NamespaceConflictError string
  | TemplateNotFoundError string
  | TemplateInvalidError string string
  | ErrorString string
  | WrapError string go_error
  | ExternalError string string

text \<open>
  The verb q of \<open>fmt\<close> quotes a string: \<open>strconv\<close> escapes the quote, the backslash and the
  control characters. Bytes from 0x80 on are left as they are, as they are in printable text.
\<close>

definition hex_digit :: "nat \<Rightarrow> char" where
  "hex_digit n = ''0123456789abcdef'' ! (n mod 16)"

fun go_quote_char :: "char \<Rightarrow> string" where
  "go_quote_char c =
     (if c = CHR 0x22 \<or> c = CHR 0x5C then [CHR 0x5C, c]
      else if c = CHR 0x07 then [CHR 0x5C, CHR ''a'']
      else if c = CHR 0x08 then [CHR 0x5C, CHR ''b'']
      else if c = CHR 0x0C then [CHR 0x5C, CHR ''f'']
      else if c = CHR 0x0A then [CHR 0x5C, CHR ''n'']
      else if c = CHR 0x0D then [CHR 0x5C, CHR ''r'']
      else if c = CHR 0x09 then [CHR 0x5C, CHR ''t'']
      else if c = CHR 0x0B then [CHR 0x5C, CHR ''v'']
      else if of_char c < (32::nat) \<or> c = CHR 0x7F
        then [CHR 0x5C, CHR ''x'', hex_digit (of_char c div 16), hex_digit (of_char c)]
      else [c])"

definition go_quote :: "string \<Rightarrow> string" where
  "go_quote s = [CHR 0x22] @ concat (map go_quote_char s) @ [CHR 0x22]"

text \<open>The text of an error, the result of its method \<open>Error\<close>.\<close>

fun error_text :: "go_error \<Rightarrow> string" where
  "error_text (NamespaceConflictError n) =
     ''namespace '' @ n @ '' exists but is not owned by this workspace''"
| "error_text (TemplateNotFoundError n) = ''moduletemplate '' @ go_quote n @ '' not found''"
| "error_text (TemplateInvalidError n m) =
     ''moduletemplate '' @ go_quote n @ '' is invalid: '' @ m"
| "error_text (ErrorString m) = m"
| "error_text (WrapError m e) = m @ '': '' @ error_text e"
| "error_text (ExternalError c m) = m"

text \<open>
  \<open>errors.As\<close> walks the chain of wrapped errors and stops at the first one of the wanted
  type.
\<close>

fun as_NamespaceConflictError :: "go_error \<Rightarrow> string option" where
  "as_NamespaceConflictError (NamespaceConflictError n) = Some n"
| "as_NamespaceConflictError (WrapError m e) = as_NamespaceConflictError e"
| "as_NamespaceConflictError _ = None"

fun as_TemplateNotFoundError :: "go_error \<Rightarrow> string option" where
  "as_TemplateNotFoundError (TemplateNotFoundError n) = Some n"
| "as_TemplateNotFoundError (WrapError m e) = as_TemplateNotFoundError e"
| "as_TemplateNotFoundError _ = None"

fun as_TemplateInvalidError :: "go_error \<Rightarrow> (string \<times> string) option" where
  "as_TemplateInvalidError (TemplateInvalidError n m) = Some (n, m)"
| "as_TemplateInvalidError (WrapError m e) = as_TemplateInvalidError e"
| "as_TemplateInvalidError _ = None"

text \<open>
  \<open>unwraps_to e c\<close>: the error \<open>e\<close> is \<open>c\<close> or wraps it. Third-party code that hands an
  error of the operator back may add context to it, never lose it. An external error is one
  that no declared error type of the operator matches.
\<close>

fun unwraps_to :: "go_error \<Rightarrow> go_error \<Rightarrow> bool" where
  "unwraps_to (WrapError m e) c = (WrapError m e = c \<or> unwraps_to e c)"
| "unwraps_to e c = (e = c)"

definition external :: "go_error \<Rightarrow> bool" where
  "external e \<longleftrightarrow> as_NamespaceConflictError e = None
     \<and> as_TemplateNotFoundError e = None \<and> as_TemplateInvalidError e = None"

lemma external_simps [simp]:
  "external (ExternalError c m)" "external (ErrorString m)"
  "external (WrapError m e) = external e"
  "\<not> external (NamespaceConflictError n)" "\<not> external (TemplateNotFoundError n)"
  "\<not> external (TemplateInvalidError n m)"
  by (auto simp: external_def)

lemma unwraps_to_refl [simp, intro]: "unwraps_to e e"
  by (cases e) auto

lemma as_NamespaceConflictError_unwraps:
  "unwraps_to e c \<Longrightarrow> as_NamespaceConflictError e = as_NamespaceConflictError c"
  by (induction e) auto

lemma as_TemplateNotFoundError_unwraps:
  "unwraps_to e c \<Longrightarrow> as_TemplateNotFoundError e = as_TemplateNotFoundError c"
  by (induction e) auto

lemma as_TemplateInvalidError_unwraps:
  "unwraps_to e c \<Longrightarrow> as_TemplateInvalidError e = as_TemplateInvalidError c"
  by (induction e) auto

lemma external_unwraps: "unwraps_to e c \<Longrightarrow> external e = external c"
  by (simp add: external_def as_NamespaceConflictError_unwraps
      as_TemplateNotFoundError_unwraps as_TemplateInvalidError_unwraps)

lemma external_not_conflict: "external e \<Longrightarrow> as_NamespaceConflictError e = None"
  and external_not_template_missing: "external e \<Longrightarrow> as_TemplateNotFoundError e = None"
  and external_not_template_invalid: "external e \<Longrightarrow> as_TemplateInvalidError e = None"
  by (simp_all add: external_def)

section \<open>Panics\<close>

text \<open>A Go function either returns or panics (here: a method call on a nil interface).\<close>

datatype 'a go_result = Returns 'a | Panics

section \<open>Strings, slices and maps\<close>

definition has_prefix :: "string \<Rightarrow> string \<Rightarrow> bool" where
  "has_prefix s p \<longleftrightarrow> prefix p s"

definition slices_contains :: "'a list \<Rightarrow> 'a \<Rightarrow> bool" where
  "slices_contains xs x \<longleftrightarrow> x \<in> set xs"

text \<open>\<open>cmp.Or\<close> returns its first argument that is not the zero value.\<close>

definition cmp_or :: "string \<Rightarrow> string \<Rightarrow> string" where
  "cmp_or a b = (if a \<noteq> '''' then a else b)"

text \<open>
  A Go map of type \<open>map[string]string\<close> that may be nil is an optional partial function:
  \<open>None\<close> is the nil map. Reading a nil map gives no entry; \<open>maps.Copy\<close> adds every entry of
  its second argument and lets it win.
\<close>

type_synonym labels = "string \<rightharpoonup> string"

definition labels_or_empty :: "labels option \<Rightarrow> labels" where
  "labels_or_empty l = (case l of None \<Rightarrow> Map.empty | Some m \<Rightarrow> m)"

definition maps_copy :: "labels \<Rightarrow> labels \<Rightarrow> labels" where
  "maps_copy dst src = dst ++ src"

lemma labels_or_empty_simps [simp]:
  "labels_or_empty None = Map.empty" "labels_or_empty (Some m) = m"
  by (simp_all add: labels_or_empty_def)

lemma maps_copy_idem: "maps_copy (maps_copy m src) src = maps_copy m src"
  by (simp add: maps_copy_def fun_eq_iff map_add_def split: option.splits)

lemma maps_copy_upd: "src k = None \<Longrightarrow> maps_copy (m(k \<mapsto> v)) src = (maps_copy m src)(k \<mapsto> v)"
  by (simp add: maps_copy_def fun_eq_iff map_add_def split: option.splits)

lemma maps_copy_entry: "src k = Some v \<Longrightarrow> maps_copy dst src k = Some v"
  by (simp add: maps_copy_def)

lemma maps_copy_other: "src k = None \<Longrightarrow> maps_copy dst src k = dst k"
  by (simp add: maps_copy_def map_add_def)

text \<open>A lookup in an association list keyed by a projection: the first match.\<close>

lemma find_eq_Some_in_set: "List.find P xs = Some x \<Longrightarrow> x \<in> set xs \<and> P x"
  by (induction xs) (auto split: if_splits)

lemma find_eq_None_iff: "List.find P xs = None \<longleftrightarrow> (\<forall>x \<in> set xs. \<not> P x)"
  by (induction xs) auto

lemma find_distinct_key:
  "distinct (map key xs) \<Longrightarrow> x \<in> set xs \<Longrightarrow> List.find (\<lambda>y. key y = key x) xs = Some x"
  by (induction xs) (auto simp: image_iff)

section \<open>Sequencing\<close>

type_synonym 's step = "'s \<Rightarrow> go_error option \<times> 's"

text \<open>\<open>if err := f(); err != nil { return err }; return g()\<close>\<close>

definition then_ok :: "'s step \<Rightarrow> 's step \<Rightarrow> 's step" where
  "then_ok f g s = (case f s of (Some e, s') \<Rightarrow> (Some e, s') | (None, s') \<Rightarrow> g s')"

text \<open>A loop whose body returns at the first error.\<close>

primrec run_steps :: "'s step list \<Rightarrow> 's step" where
  "run_steps [] s = (None, s)"
| "run_steps (f # fs) s = (case f s of (Some e, s') \<Rightarrow> (Some e, s') | (None, s') \<Rightarrow> run_steps fs s')"

lemma then_ok_None:
  "then_ok f g s = (None, s') \<longleftrightarrow> (\<exists>t. f s = (None, t) \<and> g t = (None, s'))"
  by (auto simp: then_ok_def split: prod.splits option.splits)

lemma then_ok_Some:
  "then_ok f g s = (Some e, s') \<longleftrightarrow>
     f s = (Some e, s') \<or> (\<exists>t. f s = (None, t) \<and> g t = (Some e, s'))"
  by (auto simp: then_ok_def split: prod.splits option.splits)

lemma then_ok_first_error: "f s = (Some e, t) \<Longrightarrow> then_ok f g s = (Some e, t)"
  by (simp add: then_ok_def)

lemma run_steps_Cons: "run_steps (f # fs) = then_ok f (run_steps fs)"
  by (simp add: fun_eq_iff then_ok_def)

end
