(* ===== verification/Kube_Types.thy ===== *)
theory Kube_Types
  imports Go_Prelude
begin

text \<open>
  The Kubernetes objects the operator reads and writes, with the fields its code sets or
  inspects. Every child object (Namespace, RoleBinding, ResourceQuota, LimitRange,
  NetworkPolicy, the two Istio kinds, HelmRelease, Kustomization) is a \<open>kobject\<close>: a kind, the
  object metadata, the spec, and the status conditions. Spec types of other projects that the
  operator only copies (quota and limit specs, Flux specs, Helm values) are carried as JSON
  documents.
\<close>

section \<open>JSON documents, metadata, conditions\<close>

datatype json =
    JNull
  | JBool bool
  | JNumber int
  | JString string
  | JArray "json list"
  | JObject "(string \<times> json) list"

record owner_reference =
  ref_kind :: string
  ref_name :: string
  ref_uid :: string
  ref_controller :: bool

text \<open>
  A zero \<open>CreationTimestamp\<close> and a nil \<open>DeletionTimestamp\<close> are \<open>None\<close>; a nil label map is
  \<open>None\<close>. Generations are \<open>int64\<close> counters of the API server which the operator only copies.
\<close>

record object_meta =
  meta_name :: string
  meta_namespace :: string
  meta_uid :: string
  meta_generation :: int
  creation_timestamp :: "nat option"
  deletion_timestamp :: "nat option"
  meta_labels :: "labels option"
  owner_references :: "owner_reference list"
  meta_finalizers :: "string list"

definition object_meta_named :: "string \<Rightarrow> string \<Rightarrow> object_meta" where
  "object_meta_named ns name =
     \<lparr> meta_name = name, meta_namespace = ns, meta_uid = '''', meta_generation = 0,
       creation_timestamp = None, deletion_timestamp = None, meta_labels = None,
       owner_references = [], meta_finalizers = [] \<rparr>"

datatype condition_status = ConditionTrue | ConditionFalse | ConditionUnknown

record condition =
  cond_type :: string
  cond_status :: condition_status
  cond_reason :: string
  cond_message :: string
  cond_observed_generation :: int
  cond_last_transition :: "nat option"

section \<open>Specs\<close>

record rbac_subject =
  subject_kind :: string
  subject_api_group :: string
  subject_name :: string

record role_ref =
  role_ref_kind :: string
  role_ref_api_group :: string
  role_ref_name :: string

text \<open>
  A label selector is the association list of its \<open>matchLabels\<close> (the code never sets
  \<open>matchExpressions\<close>); a peer of an ingress rule may have either selector.
\<close>

type_synonym label_selector = "(string \<times> string) list"

record network_policy_peer =
  pod_selector :: "label_selector option"
  namespace_selector :: "label_selector option"

record network_policy_spec =
  np_pod_selector :: label_selector
  np_policy_types :: "string list"
  np_ingress :: "network_policy_peer list list"

datatype mtls_mode = MutualTLS_UNSET | MutualTLS_DISABLE | MutualTLS_PERMISSIVE | MutualTLS_STRICT

record peer_authentication_spec =
  pa_selector :: label_selector
  pa_mtls_mode :: mtls_mode

datatype authz_action = AuthorizationPolicy_ALLOW | AuthorizationPolicy_DENY

text \<open>A rule of an Istio policy: the \<open>from\<close> list, each with the namespaces of its source.\<close>

record authorization_policy_spec =
  ap_selector :: label_selector
  ap_rules :: "string list list list"
  ap_action :: authz_action

text \<open>The one field of a \<open>HelmReleaseSpec\<close> the operator touches, and the rest of it.\<close>

record helm_release_spec =
  hr_values :: "json option"
  hr_rest :: json

datatype obj_spec =
    NoSpec
  | RoleBindingSpec "rbac_subject list" role_ref
  | ResourceQuotaSpec json
  | LimitRangeSpec json
  | NetworkPolicySpec network_policy_spec
  | PeerAuthenticationSpec peer_authentication_spec
  | AuthorizationPolicySpec authorization_policy_spec
  | HelmReleaseSpec helm_release_spec
  | KustomizationSpec json

section \<open>Objects and their keys\<close>

datatype kind =
    NamespaceKind | RoleBindingKind | ResourceQuotaKind | LimitRangeKind | NetworkPolicyKind
  | PeerAuthenticationKind | AuthorizationPolicyKind | HelmReleaseKind | KustomizationKind

text \<open>The kinds are enumerable, so that statements about all of them can be evaluated.\<close>

instantiation kind :: enum
begin

definition enum_kind :: "kind list" where
  "enum_kind =
     [NamespaceKind, RoleBindingKind, ResourceQuotaKind, LimitRangeKind, NetworkPolicyKind,
      PeerAuthenticationKind, AuthorizationPolicyKind, HelmReleaseKind, KustomizationKind]"

definition enum_all_kind :: "(kind \<Rightarrow> bool) \<Rightarrow> bool" where
  "enum_all_kind P \<longleftrightarrow> list_all P Enum.enum"

definition enum_ex_kind :: "(kind \<Rightarrow> bool) \<Rightarrow> bool" where
  "enum_ex_kind P \<longleftrightarrow> list_ex P Enum.enum"

instance
proof
  show all: "(UNIV :: kind set) = set Enum.enum"
  proof (rule UNIV_eq_I)
    fix kd :: kind
    show "kd \<in> set Enum.enum" by (cases kd) (simp_all add: enum_kind_def)
  qed
  show "distinct (Enum.enum :: kind list)" by (simp add: enum_kind_def)
  show "Enum.enum_all P \<longleftrightarrow> Ball UNIV P" for P :: "kind \<Rightarrow> bool"
    by (simp add: enum_all_kind_def list_all_iff all)
  show "Enum.enum_ex P \<longleftrightarrow> Bex UNIV P" for P :: "kind \<Rightarrow> bool"
    by (simp add: enum_ex_kind_def list_ex_iff all)
qed

end

record kobject =
  obj_kind :: kind
  obj_meta :: object_meta
  obj_spec :: obj_spec
  obj_conditions :: "condition list"

type_synonym key = "kind \<times> string \<times> string"

definition key_of :: "kobject \<Rightarrow> key" where
  "key_of ob = (obj_kind ob, meta_namespace (obj_meta ob), meta_name (obj_meta ob))"

text \<open>A Go object literal that sets only the name and the namespace.\<close>

definition new_object :: "kind \<Rightarrow> string \<Rightarrow> string \<Rightarrow> kobject" where
  "new_object kd ns name =
     \<lparr> obj_kind = kd, obj_meta = object_meta_named ns name, obj_spec = NoSpec,
       obj_conditions = [] \<rparr>"

lemma key_of_new_object [simp]: "key_of (new_object kd ns name) = (kd, ns, name)"
  by (simp add: key_of_def new_object_def object_meta_named_def)

lemma new_object_simps [simp]:
  "obj_kind (new_object kd ns name) = kd"
  "obj_meta (new_object kd ns name) = object_meta_named ns name"
  "obj_conditions (new_object kd ns name) = []"
  by (simp_all add: new_object_def)

lemma object_meta_named_simps [simp]:
  "meta_name (object_meta_named ns name) = name"
  "meta_namespace (object_meta_named ns name) = ns"
  "meta_labels (object_meta_named ns name) = None"
  "owner_references (object_meta_named ns name) = []"
  "creation_timestamp (object_meta_named ns name) = None"
  "meta_finalizers (object_meta_named ns name) = []"
  by (simp_all add: object_meta_named_def)

text \<open>The owner handed to \<open>SetControllerReference\<close>: its kind in the scheme, name and UID.\<close>

record owner =
  owner_kind :: string
  owner_name :: string
  owner_uid :: string

text \<open>Setting \<open>Labels\<close> and \<open>Spec\<close> on an object.\<close>

definition set_labels :: "labels option \<Rightarrow> kobject \<Rightarrow> kobject" where
  "set_labels l ob = ob\<lparr> obj_meta := (obj_meta ob)\<lparr> meta_labels := l \<rparr> \<rparr>"

definition set_meta :: "object_meta \<Rightarrow> kobject \<Rightarrow> kobject" where
  "set_meta m ob = ob\<lparr> obj_meta := m \<rparr>"

definition obj_labels :: "kobject \<Rightarrow> labels option" where
  "obj_labels ob = meta_labels (obj_meta ob)"

lemma set_labels_simps [simp]:
  "obj_kind (set_labels l ob) = obj_kind ob" "obj_spec (set_labels l ob) = obj_spec ob"
  "obj_conditions (set_labels l ob) = obj_conditions ob"
  "obj_labels (set_labels l ob) = l"
  "obj_meta (set_labels l ob) = (obj_meta ob)\<lparr> meta_labels := l \<rparr>"
  by (simp_all add: set_labels_def obj_labels_def)

lemma set_meta_simps [simp]:
  "obj_kind (set_meta m ob) = obj_kind ob" "obj_spec (set_meta m ob) = obj_spec ob"
  "obj_conditions (set_meta m ob) = obj_conditions ob" "obj_meta (set_meta m ob) = m"
  by (simp_all add: set_meta_def)

end
