(* ===== verification/Workspace_Types.thy ===== *)
theory Workspace_Types
  imports Kube_Types
begin

text \<open>
  The custom resource \<open>Workspace\<close> (\<open>api/tenant/v1alpha1/workspace_types.go\<close>): its Go types,
  and the validation rules the kubebuilder markers put into the CRD, which the API server
  enforces on every write of the main resource.
\<close>

section \<open>Types\<close>

type_synonym member_role = string

definition MemberRoleAdmin :: member_role where "MemberRoleAdmin = ''admin''"
definition MemberRoleEdit :: member_role where "MemberRoleEdit = ''edit''"
definition MemberRoleView :: member_role where "MemberRoleView = ''view''"

lemmas member_roles = MemberRoleAdmin_def MemberRoleEdit_def MemberRoleView_def

declare member_roles [go_defs]

record workspace_member =
  wm_role :: member_role
  wm_subject :: string
  wm_name :: "string option"

record network_isolation_spec =
  ni_enabled :: bool
  ni_allowed_namespaces :: "string list"

record workspace_spec =
  ws_namespace :: string
  ws_members :: "workspace_member list"
  ws_resource_quota :: "json option"
  ws_limit_range :: "json option"
  ws_network_isolation :: network_isolation_spec

record resource_reference =
  rr_name :: string
  rr_namespace :: string

record workspace_status =
  st_observed_generation :: int
  st_namespace_ref :: "resource_reference option"
  st_resource_quota_ref :: "resource_reference option"
  st_limit_range_ref :: "resource_reference option"
  st_role_binding_refs :: "resource_reference list"
  st_peer_authentication_ref :: "resource_reference option"
  st_authorization_policy_ref :: "resource_reference option"
  st_network_policy_ref :: "resource_reference option"
  st_conditions :: "condition list"

record workspace =
  w_meta :: object_meta
  w_spec :: workspace_spec
  w_status :: workspace_status

abbreviation w_name :: "workspace \<Rightarrow> string" where "w_name w \<equiv> meta_name (w_meta w)"
abbreviation w_uid :: "workspace \<Rightarrow> string" where "w_uid w \<equiv> meta_uid (w_meta w)"
abbreviation w_namespace :: "workspace \<Rightarrow> string" where "w_namespace w \<equiv> ws_namespace (w_spec w)"
abbreviation w_members :: "workspace \<Rightarrow> workspace_member list" where
  "w_members w \<equiv> ws_members (w_spec w)"
abbreviation w_isolated :: "workspace \<Rightarrow> bool" where
  "w_isolated w \<equiv> ni_enabled (ws_network_isolation (w_spec w))"
abbreviation w_allowed :: "workspace \<Rightarrow> string list" where
  "w_allowed w \<equiv> ni_allowed_namespaces (ws_network_isolation (w_spec w))"

text \<open>A Workspace as the owner argument of \<open>SetControllerReference\<close>.\<close>

definition workspace_owner :: "workspace \<Rightarrow> owner" where
  "workspace_owner w = \<lparr> owner_kind = ''Workspace'', owner_name = w_name w, owner_uid = w_uid w \<rparr>"

lemma workspace_owner_simps [simp]:
  "owner_kind (workspace_owner w) = ''Workspace''" "owner_name (workspace_owner w) = w_name w"
  "owner_uid (workspace_owner w) = w_uid w"
  by (simp_all add: workspace_owner_def)

section \<open>Validation rules of the CRD\<close>

text \<open>
  Both patterns of the markers have the shape ``starts and ends with a character of one class,
  and has characters of a wider class in between''.
\<close>

fun inner_then_end :: "(char \<Rightarrow> bool) \<Rightarrow> (char \<Rightarrow> bool) \<Rightarrow> string \<Rightarrow> bool" where
  "inner_then_end end_char inner [] = False"
| "inner_then_end end_char inner [c] = end_char c"
| "inner_then_end end_char inner (c # cs) = (inner c \<and> inner_then_end end_char inner cs)"

definition bounded_pattern :: "(char \<Rightarrow> bool) \<Rightarrow> (char \<Rightarrow> bool) \<Rightarrow> string \<Rightarrow> bool" where
  "bounded_pattern end_char inner s =
     (case s of [] \<Rightarrow> False
      | c # cs \<Rightarrow> end_char c \<and> (cs = [] \<or> inner_then_end end_char inner cs))"

definition in_range :: "char \<Rightarrow> char \<Rightarrow> char \<Rightarrow> bool" where
  "in_range a b c \<longleftrightarrow> of_char a \<le> (of_char c :: nat) \<and> of_char c \<le> (of_char b :: nat)"

definition lower_alnum :: "char \<Rightarrow> bool" where
  "lower_alnum c \<longleftrightarrow> in_range CHR ''a'' CHR ''z'' c \<or> in_range CHR ''0'' CHR ''9'' c"

definition alnum :: "char \<Rightarrow> bool" where
  "alnum c \<longleftrightarrow> in_range CHR ''A'' CHR ''Z'' c \<or> lower_alnum c"

definition subject_inner :: "char \<Rightarrow> bool" where
  "subject_inner c \<longleftrightarrow> c = CHR ''-'' \<or> alnum c \<or> c = CHR ''_'' \<or> c = CHR ''.''"

definition namespace_inner :: "char \<Rightarrow> bool" where
  "namespace_inner c \<longleftrightarrow> c = CHR ''-'' \<or> lower_alnum c"

definition valid_subject :: "string \<Rightarrow> bool" where
  "valid_subject s \<longleftrightarrow> 1 \<le> length s \<and> length s \<le> 63 \<and> bounded_pattern alnum subject_inner s"

definition valid_member :: "workspace_member \<Rightarrow> bool" where
  "valid_member m \<longleftrightarrow> slices_contains [''admin'', ''edit'', ''view''] (wm_role m)
     \<and> valid_subject (wm_subject m)"

definition valid_namespace_name :: "string \<Rightarrow> bool" where
  "valid_namespace_name s \<longleftrightarrow>
     1 \<le> length s \<and> length s \<le> 63 \<and> bounded_pattern lower_alnum namespace_inner s"

definition valid_network_isolation :: "network_isolation_spec \<Rightarrow> bool" where
  "valid_network_isolation ni \<longleftrightarrow>
     (length (ni_allowed_namespaces ni) = 0 \<or> ni_enabled ni)
     \<and> distinct (ni_allowed_namespaces ni) \<and> length (ni_allowed_namespaces ni) \<le> 64
     \<and> list_all valid_namespace_name (ni_allowed_namespaces ni)"

definition reserved_namespaces :: "string list" where
  "reserved_namespaces =
     [''default'', ''kube-system'', ''kube-public'', ''kube-node-lease'', ''otterscale-system'']"

definition valid_workspace_spec :: "workspace_spec \<Rightarrow> bool" where
  "valid_workspace_spec sp \<longleftrightarrow>
     valid_namespace_name (ws_namespace sp)
     \<and> \<not> slices_contains reserved_namespaces (ws_namespace sp)
     \<and> distinct (map wm_subject (ws_members sp)) \<and> 1 \<le> length (ws_members sp)
     \<and> list_ex (\<lambda>u. wm_role u = ''admin'') (ws_members sp)
     \<and> list_all valid_member (ws_members sp)
     \<and> valid_network_isolation (ws_network_isolation sp)"

text \<open>The transition rule: \<open>self == oldSelf\<close> on the namespace.\<close>

definition valid_spec_update :: "workspace_spec \<Rightarrow> workspace_spec \<Rightarrow> bool" where
  "valid_spec_update old new \<longleftrightarrow> valid_workspace_spec new \<and> ws_namespace new = ws_namespace old"

section \<open>What the rules give\<close>

lemma inner_then_end_chars:
  "inner_then_end e i s \<Longrightarrow> c \<in> set s \<Longrightarrow> i c \<or> e c"
  by (induction e i s rule: inner_then_end.induct) auto

lemma bounded_pattern_chars: "bounded_pattern e i s \<Longrightarrow> c \<in> set s \<Longrightarrow> i c \<or> e c"
  by (auto simp: bounded_pattern_def dest: inner_then_end_chars split: list.splits)

lemma valid_subject_chars: "valid_subject s \<Longrightarrow> c \<in> set s \<Longrightarrow> subject_inner c"
  by (auto simp: valid_subject_def subject_inner_def dest: bounded_pattern_chars)

lemma valid_namespace_chars: "valid_namespace_name s \<Longrightarrow> c \<in> set s \<Longrightarrow> namespace_inner c"
  by (auto simp: valid_namespace_name_def namespace_inner_def dest: bounded_pattern_chars)

lemma valid_subject_no_colon: "valid_subject s \<Longrightarrow> CHR '':'' \<notin> set s"
  by (auto dest!: valid_subject_chars
      simp: subject_inner_def alnum_def lower_alnum_def in_range_def)

lemma valid_namespace_no_star: "valid_namespace_name s \<Longrightarrow> CHR ''*'' \<notin> set s"
  by (auto dest!: valid_namespace_chars
      simp: namespace_inner_def lower_alnum_def in_range_def)

lemma valid_namespace_no_colon: "valid_namespace_name s \<Longrightarrow> CHR '':'' \<notin> set s"
  by (auto dest!: valid_namespace_chars
      simp: namespace_inner_def lower_alnum_def in_range_def)

lemma valid_spec_admin:
  "valid_workspace_spec sp \<Longrightarrow> \<exists>m \<in> set (ws_members sp). wm_role m = MemberRoleAdmin"
  by (auto simp: valid_workspace_spec_def list_ex_iff MemberRoleAdmin_def)

lemma valid_spec_roles:
  "valid_workspace_spec sp \<Longrightarrow> m \<in> set (ws_members sp) \<Longrightarrow>
     wm_role m = MemberRoleAdmin \<or> wm_role m = MemberRoleEdit \<or> wm_role m = MemberRoleView"
  by (auto simp: valid_workspace_spec_def list_all_iff valid_member_def slices_contains_def
      member_roles)

lemma valid_spec_one_role:
  "valid_workspace_spec sp \<Longrightarrow> m \<in> set (ws_members sp) \<Longrightarrow> m' \<in> set (ws_members sp) \<Longrightarrow>
     wm_subject m = wm_subject m' \<Longrightarrow> m = m'"
  unfolding valid_workspace_spec_def by (metis distinct_map inj_onD)

end
