(* ===== verification/Workspace_Authorization.thy ===== *)
theory Workspace_Authorization
  imports Workspace_Types
begin

text \<open>
  The authorization of modifications of a Workspace
  (\<open>internal/core/workspace/authorization.go\<close>): who may update or delete it.
\<close>

record user_info =
  user_name :: string
  user_groups :: "string list"

definition OperatorServiceAccountIdentity :: "string \<Rightarrow> string \<Rightarrow> string" where
  "OperatorServiceAccountIdentity namespace saName =
     ''system:serviceaccount:'' @ namespace @ '':'' @ saName"

definition privilegedGroups :: "string list" where
  "privilegedGroups = [''system:masters'', ''kubeadm:cluster-admins'']"

fun isPrivileged_groups :: "string list \<Rightarrow> bool" where
  "isPrivileged_groups [] = False"
| "isPrivileged_groups (g # gs) =
     (if slices_contains privilegedGroups g then True else isPrivileged_groups gs)"

definition isPrivileged :: "user_info \<Rightarrow> bool" where
  "isPrivileged u = isPrivileged_groups (user_groups u)"

fun isWorkspaceAdmin_members :: "string \<Rightarrow> workspace_member list \<Rightarrow> bool" where
  "isWorkspaceAdmin_members username [] = False"
| "isWorkspaceAdmin_members username (m # ms) =
     (if wm_subject m = username \<and> wm_role m = MemberRoleAdmin then True
      else isWorkspaceAdmin_members username ms)"

definition isWorkspaceAdmin :: "string \<Rightarrow> workspace \<Rightarrow> bool" where
  "isWorkspaceAdmin username w = isWorkspaceAdmin_members username (w_members w)"

definition AuthorizeModification :: "user_info \<Rightarrow> workspace \<Rightarrow> string \<Rightarrow> go_error option" where
  "AuthorizeModification userInfo w operatorSA =
     (if isPrivileged userInfo then None
      else if user_name userInfo = operatorSA then None
      else if isWorkspaceAdmin (user_name userInfo) w then None
      else Some (ErrorString ''only users with the 'admin' role defined in this workspace can modify or delete it''))"

lemma isPrivileged_iff: "isPrivileged u \<longleftrightarrow> (\<exists>g \<in> set (user_groups u). g \<in> set privilegedGroups)"
proof -
  have "isPrivileged_groups gs \<longleftrightarrow> (\<exists>g \<in> set gs. g \<in> set privilegedGroups)" for gs
    by (induction gs) (auto simp: slices_contains_def)
  then show ?thesis by (simp add: isPrivileged_def)
qed

lemma isWorkspaceAdmin_iff:
  "isWorkspaceAdmin u w \<longleftrightarrow> (\<exists>m \<in> set (w_members w). wm_subject m = u \<and> wm_role m = MemberRoleAdmin)"
proof -
  have "isWorkspaceAdmin_members u ms \<longleftrightarrow>
      (\<exists>m \<in> set ms. wm_subject m = u \<and> wm_role m = MemberRoleAdmin)" for ms
    by (induction ms) auto
  then show ?thesis by (simp add: isWorkspaceAdmin_def)
qed

text \<open>
  An update or a deletion is authorized exactly for a member of a privileged group, the
  operator's own service account, and a member that the given (old) Workspace lists with the
  role admin.
\<close>

theorem AuthorizeModification_allows_iff:
  "AuthorizeModification u w operatorSA = None \<longleftrightarrow>
     (\<exists>g \<in> set (user_groups u). g \<in> set privilegedGroups)
     \<or> user_name u = operatorSA
     \<or> (\<exists>m \<in> set (w_members w). wm_subject m = user_name u \<and> wm_role m = MemberRoleAdmin)"
  by (auto simp: AuthorizeModification_def isPrivileged_iff isWorkspaceAdmin_iff)

lemma AuthorizeModification_members_only:
  "w_members w = w_members w' \<Longrightarrow>
     AuthorizeModification u w operatorSA = AuthorizeModification u w' operatorSA"
  by (simp add: AuthorizeModification_def isWorkspaceAdmin_def)

text \<open>With one role per subject (a rule of the CRD), the role decides.\<close>

lemma isWorkspaceAdmin_role:
  assumes "valid_workspace_spec (w_spec w)" and "m \<in> set (w_members w)"
  shows "isWorkspaceAdmin (wm_subject m) w \<longleftrightarrow> wm_role m = MemberRoleAdmin"
  using valid_spec_one_role [OF assms] assms(2) by (metis isWorkspaceAdmin_iff)

end
