(* ===== verification/Reconcile_Step.thy ===== *)
theory Reconcile_Step
  imports Go_Prelude
begin

text \<open>
  The contract every reconcile function of the operator keeps, as a locale: the keys it may
  write (its footprint), and what holds of the objects under those keys when it returns a nil
  error (its goal). The contract composes: two steps with disjoint footprints, run one after
  the other with an early return on error, reach both goals. This is how the controllers build
  the reconciliation of a whole workspace from one function per child object.
\<close>

locale reconcile_step =
  fixes view :: "'s \<Rightarrow> 'k \<Rightarrow> 'o option"
    and step :: "'s step"
    and foot :: "'k set"
    and goal :: "('k \<Rightarrow> 'o option) \<Rightarrow> bool"
  assumes step_frame: "step s = (e, s') \<Longrightarrow> k \<notin> foot \<Longrightarrow> view s' k = view s k"
    and step_goal: "step s = (None, s') \<Longrightarrow> goal (view s')"
    and goal_local: "(\<And>k. k \<in> foot \<Longrightarrow> v' k = v k) \<Longrightarrow> goal v \<Longrightarrow> goal v'"
begin

lemma goal_survives:
  assumes "goal (view s)" and "\<And>k. k \<in> foot \<Longrightarrow> view s' k = view s k"
  shows "goal (view s')"
  using assms goal_local by blast

lemma frame_set:
  assumes "step s = (e, s')" and "foot \<inter> A = {}"
  shows "\<forall>k \<in> A. view s' k = view s k"
  using assms step_frame by blast

end

lemma reconcile_step_skip: "reconcile_step view (\<lambda>s. (None, s)) {} (\<lambda>_. True)"
  by unfold_locales auto

lemma reconcile_step_then:
  assumes f: "reconcile_step view f F P" and g: "reconcile_step view g G Q"
    and disjoint: "F \<inter> G = {}"
  shows "reconcile_step view (then_ok f g) (F \<union> G) (\<lambda>v. P v \<and> Q v)"
proof
  fix s e s' k
  assume run: "then_ok f g s = (e, s')" and k: "k \<notin> F \<union> G"
  obtain e1 t where ft: "f s = (e1, t)" by force
  then have "view t k = view s k"
    using reconcile_step.step_frame [OF f ft] k by blast
  moreover have "view s' k = view t k"
  proof (cases e1)
    case None
    with ft run have "g t = (e, s')" by (simp add: then_ok_def)
    then show ?thesis using reconcile_step.step_frame [OF g] k by blast
  next
    case (Some err)
    with ft run show ?thesis by (simp add: then_ok_def)
  qed
  ultimately show "view s' k = view s k" by simp
next
  fix s s'
  assume "then_ok f g s = (None, s')"
  then obtain t where ft: "f s = (None, t)" and gt: "g t = (None, s')"
    by (auto simp: then_ok_None)
  have "P (view t)" by (rule reconcile_step.step_goal [OF f ft])
  moreover have "\<forall>k \<in> F. view s' k = view t k"
    by (rule reconcile_step.frame_set [OF g gt]) (use disjoint in blast)
  ultimately have "P (view s')"
    using reconcile_step.goal_local [OF f] by blast
  then show "P (view s') \<and> Q (view s')"
    using reconcile_step.step_goal [OF g gt] by blast
next
  fix v v' :: "'b \<Rightarrow> 'c option"
  assume same: "\<And>k. k \<in> F \<union> G \<Longrightarrow> v' k = v k" and "P v \<and> Q v"
  then show "P v' \<and> Q v'"
    using reconcile_step.goal_local [OF f, of v' v] reconcile_step.goal_local [OF g, of v' v]
    by blast
qed

text \<open>The same for a loop over a list of steps whose footprints are pairwise disjoint.\<close>

lemma reconcile_step_run:
  assumes "\<And>x. x \<in> set xs \<Longrightarrow> reconcile_step view (f x) (F x) (P x)"
    and "distinct xs"
    and "\<And>x y. x \<in> set xs \<Longrightarrow> y \<in> set xs \<Longrightarrow> x \<noteq> y \<Longrightarrow> F x \<inter> F y = {}"
  shows "reconcile_step view (run_steps (map f xs)) (\<Union>x \<in> set xs. F x) (\<lambda>v. \<forall>x \<in> set xs. P x v)"
  using assms
proof (induction xs)
  case Nil
  have "run_steps (map f []) = (\<lambda>s. (None, s))" by (simp add: fun_eq_iff)
  then show ?case using reconcile_step_skip [of view] by simp
next
  case (Cons x xs)
  have tail: "reconcile_step view (run_steps (map f xs)) (\<Union>x \<in> set xs. F x)
      (\<lambda>v. \<forall>x \<in> set xs. P x v)"
    using Cons by auto
  have "F x \<inter> (\<Union>x \<in> set xs. F x) = {}"
    using Cons.prems(2,3) by fastforce
  with reconcile_step_then [OF Cons.prems(1) [of x] tail]
  show ?case by (simp add: run_steps_Cons)
qed

text \<open>
  A step that leaves the state as it is when its goal already holds. Such steps compose too;
  this is what makes a level-triggered reconciler quiet on a state that needs no change.
\<close>

definition quiet_on :: "('s \<Rightarrow> 'k \<Rightarrow> 'o option) \<Rightarrow> 's step \<Rightarrow> (('k \<Rightarrow> 'o option) \<Rightarrow> bool) \<Rightarrow> bool" where
  "quiet_on view f P \<longleftrightarrow> (\<forall>s s'. P (view s) \<longrightarrow> f s = (None, s') \<longrightarrow> view s' = view s)"

lemma quiet_onD: "quiet_on view f P \<Longrightarrow> P (view s) \<Longrightarrow> f s = (None, s') \<Longrightarrow> view s' = view s"
  by (auto simp: quiet_on_def)

lemma quiet_on_then:
  assumes "quiet_on view f P" and "quiet_on view g Q"
  shows "quiet_on view (then_ok f g) (\<lambda>v. P v \<and> Q v)"
  unfolding quiet_on_def
proof (intro allI impI)
  fix s s'
  assume goal: "P (view s) \<and> Q (view s)" and "then_ok f g s = (None, s')"
  then obtain t where ft: "f s = (None, t)" and gt: "g t = (None, s')"
    by (auto simp: then_ok_None)
  have "view t = view s" using assms(1) goal ft by (blast dest: quiet_onD)
  with assms(2) goal gt show "view s' = view s" by (metis quiet_onD)
qed

lemma quiet_on_run:
  assumes "\<And>x. x \<in> set xs \<Longrightarrow> quiet_on view (f x) (P x)"
  shows "quiet_on view (run_steps (map f xs)) (\<lambda>v. \<forall>x \<in> set xs. P x v)"
  using assms
proof (induction xs)
  case Nil
  show ?case by (simp add: quiet_on_def)
next
  case (Cons x xs)
  then have "quiet_on view (then_ok (f x) (run_steps (map f xs)))
      (\<lambda>v. P x v \<and> (\<forall>y \<in> set xs. P y v))"
    by (intro quiet_on_then) auto
  then show ?case by (simp add: run_steps_Cons)
qed

end
