(* ===== verification/Kube_Api.thy ===== *)
theory Kube_Api
  imports Kube_Types Reconcile_Step
begin

text \<open>
  The third-party code the operator calls, as a parameter of the model. The record \<open>kube\<close>
  holds one function per operation of controller-runtime and apimachinery that the program
  uses; the model's definitions take such a record as an argument and call its fields where
  the Go code calls the library. The locales state what the code relies on, that is, what the
  documentation of those libraries promises. The parameter \<open>view\<close> reads the objects stored
  in the API server out of the state of the outside world, and \<open>dflt\<close> is the defaulting the
  API server applies to a spec it stores.

  The promises are those of one client at a time: reads are current, and no other writer
  interferes during one reconciliation. A write that fails with a library error may or may
  not have been applied.
\<close>

section \<open>The operations\<close>

record 's kube =
  k_get :: "key \<Rightarrow> 's \<Rightarrow> go_error + kobject"
  k_create_or_update :: "kobject \<Rightarrow> (kobject \<Rightarrow> go_error + kobject) \<Rightarrow> 's step"
  k_delete :: "key \<Rightarrow> 's step"
  k_is_not_found :: "go_error \<Rightarrow> bool"
  k_is_no_match :: "go_error \<Rightarrow> bool"
  k_reason_for_error :: "go_error \<Rightarrow> string"
  k_ignore_not_found :: "go_error option \<Rightarrow> go_error option"
  k_set_controller_reference :: "owner \<Rightarrow> object_meta \<Rightarrow> go_error + object_meta"
  k_set_status_condition :: "condition \<Rightarrow> condition list \<Rightarrow> condition list"
  k_find_status_condition :: "condition list \<Rightarrow> string \<Rightarrow> condition option"
  k_contains_finalizer :: "object_meta \<Rightarrow> string \<Rightarrow> bool"
  k_add_finalizer :: "object_meta \<Rightarrow> string \<Rightarrow> object_meta"
  k_remove_finalizer :: "object_meta \<Rightarrow> string \<Rightarrow> object_meta"

section \<open>Vocabulary of the promises\<close>

text \<open>
  \<open>written dflt ob x\<close>: the stored object \<open>x\<close> has the content submitted as \<open>ob\<close>. The API
  server defaults the spec, sets the creation timestamp, and keeps on every Namespace a label with
  its name; the status is not written by a create or an update.
\<close>

definition name_label :: string where
  "name_label = ''kubernetes.io/metadata.name''"

fun served_labels :: "key \<Rightarrow> labels option \<Rightarrow> labels option" where
  "served_labels (kd, ns, n) l =
     (if kd = NamespaceKind then Some ((case l of None \<Rightarrow> Map.empty | Some m \<Rightarrow> m)(name_label \<mapsto> n)) else l)"

lemma served_labels_idem [simp]: "served_labels k (served_labels k l) = served_labels k l"
  by (cases k) simp

lemma served_labels_copy:
  "src name_label = None \<Longrightarrow> \<exists>l. served_labels k (Some (maps_copy m src)) = Some l \<and> maps_copy l src = l"
  by (cases k) (auto simp: maps_copy_upd maps_copy_idem)

definition written :: "(obj_spec \<Rightarrow> obj_spec) \<Rightarrow> kobject \<Rightarrow> kobject \<Rightarrow> bool" where
  "written dflt ob x \<longleftrightarrow> key_of x = key_of ob \<and> obj_spec x = dflt (obj_spec ob)
     \<and> meta_labels (obj_meta x) = served_labels (key_of ob) (meta_labels (obj_meta ob))
     \<and> owner_references (obj_meta x) = owner_references (obj_meta ob)
     \<and> meta_finalizers (obj_meta x) = meta_finalizers (obj_meta ob)
     \<and> creation_timestamp (obj_meta x) \<noteq> None"

definition applied ::
  "('s \<Rightarrow> key \<Rightarrow> kobject option) \<Rightarrow> (obj_spec \<Rightarrow> obj_spec) \<Rightarrow> key \<Rightarrow> kobject \<Rightarrow> 's \<Rightarrow> 's \<Rightarrow> bool" where
  "applied view dflt key ob s s' \<longleftrightarrow>
     (\<exists>x. view s' key = Some x \<and> written dflt ob x) \<and> (\<forall>k. k \<noteq> key \<longrightarrow> view s' k = view s k)"

lemma applied_frame: "applied view dflt key ob s s' \<Longrightarrow> k \<noteq> key \<Longrightarrow> view s' k = view s k"
  unfolding applied_def by blast

lemma applied_written:
  "applied view dflt key ob s s' \<Longrightarrow> \<exists>x. view s' key = Some x \<and> written dflt ob x"
  by (simp add: applied_def)

text \<open>The object \<open>CreateOrUpdate\<close> hands to its mutate function: the stored one, if any.\<close>

definition base_of :: "('s \<Rightarrow> key \<Rightarrow> kobject option) \<Rightarrow> 's \<Rightarrow> kobject \<Rightarrow> kobject" where
  "base_of view s ob = (case view s (key_of ob) of None \<Rightarrow> ob | Some x \<Rightarrow> x)"

text \<open>
  A deleted object is gone, or stays with a deletion timestamp until the finalizers other
  controllers put on it are removed.
\<close>

definition gone_or_terminating :: "(key \<Rightarrow> kobject option) \<Rightarrow> key \<Rightarrow> bool" where
  "gone_or_terminating v k \<longleftrightarrow> (case v k of None \<Rightarrow> True | Some x \<Rightarrow> deletion_timestamp (obj_meta x) \<noteq> None)"

lemma gone_cong: "v k = v' k \<Longrightarrow> gone_or_terminating v k = gone_or_terminating v' k"
  by (simp add: gone_or_terminating_def)

lemma gone_missing: "v k = None \<Longrightarrow> gone_or_terminating v k"
  by (simp add: gone_or_terminating_def)

definition controlled_by :: "owner \<Rightarrow> object_meta \<Rightarrow> bool" where
  "controlled_by ow m \<longleftrightarrow>
     (\<exists>r \<in> set (owner_references m). ref_kind r = owner_kind ow \<and> ref_name r = owner_name ow
        \<and> ref_uid r = owner_uid ow \<and> ref_controller r)"

text \<open>Another object than \<open>ow\<close> is recorded as the controller.\<close>

definition controlled_by_other :: "owner \<Rightarrow> object_meta \<Rightarrow> bool" where
  "controlled_by_other ow m \<longleftrightarrow>
     (\<exists>r \<in> set (owner_references m). ref_controller r
        \<and> (ref_kind r, ref_name r) \<noteq> (owner_kind ow, owner_name ow))"

lemma controlled_by_one:
  "controlled_by ow m \<Longrightarrow>
     (owner_kind ow', owner_name ow') \<noteq> (owner_kind ow, owner_name ow) \<Longrightarrow>
     controlled_by_other ow' m"
  by (fastforce simp: controlled_by_def controlled_by_other_def)

text \<open>The idioms of the code around the client.\<close>

definition own_by :: "'s kube \<Rightarrow> owner \<Rightarrow> kobject \<Rightarrow> go_error + kobject" where
  "own_by K ow ob =
     (case k_set_controller_reference K ow (obj_meta ob) of
        Inl e \<Rightarrow> Inl e
      | Inr m \<Rightarrow> Inr (set_meta m ob))"

definition delete_ignoring_not_found :: "'s kube \<Rightarrow> key \<Rightarrow> 's step" where
  "delete_ignoring_not_found K k s =
     (case k_delete K k s of (r, s') \<Rightarrow> (k_ignore_not_found K r, s'))"

text \<open>
  An object whose owner reference is settled: setting the controller reference once more
  changes nothing.
\<close>

definition settled_owner :: "'s kube \<Rightarrow> owner \<Rightarrow> object_meta \<Rightarrow> bool" where
  "settled_owner K ow m \<longleftrightarrow> controlled_by ow m \<and> k_set_controller_reference K ow m = Inr m"

section \<open>The client\<close>

locale kube_api =
  fixes K :: "'s kube"
    and view :: "'s \<Rightarrow> key \<Rightarrow> kobject option"
    and dflt :: "obj_spec \<Rightarrow> obj_spec"
  assumes view_key: "view s k = Some ob \<Longrightarrow> key_of ob = k"
    and get_ok: "k_get K k s = Inr ob \<Longrightarrow> view s k = Some ob"
    and get_external: "k_get K k s = Inl e \<Longrightarrow> external e"
    and get_not_found: "k_get K k s = Inl e \<Longrightarrow> k_is_not_found K e \<Longrightarrow> view s k = None"
    and dflt_idem: "dflt (dflt sp) = dflt sp"
    and create_or_update_ok:
      "k_create_or_update K ob f s = (None, s') \<Longrightarrow>
         \<exists>ob'. f (base_of view s ob) = Inr ob' \<and> applied view dflt (key_of ob) ob' s s'"
    and create_or_update_error:
      "k_create_or_update K ob f s = (Some e, s') \<Longrightarrow>
         (\<exists>c. f (base_of view s ob) = Inl c \<and> unwraps_to e c \<and> view s' = view s)
         \<or> (external e \<and> (view s' = view s \<or>
              (\<exists>ob'. f (base_of view s ob) = Inr ob' \<and> applied view dflt (key_of ob) ob' s s')))"
    and create_or_update_unchanged:
      "k_create_or_update K ob f s = (None, s') \<Longrightarrow> view s (key_of ob) = Some x \<Longrightarrow>
         f x = Inr ob' \<Longrightarrow> written dflt ob' x \<Longrightarrow> view s' = view s"
    and delete_frame: "k_delete K k s = (r, s') \<Longrightarrow> k' \<noteq> k \<Longrightarrow> view s' k' = view s k'"
    and delete_ok: "k_delete K k s = (None, s') \<Longrightarrow> gone_or_terminating (view s') k"
    and delete_error: "k_delete K k s = (Some e, s') \<Longrightarrow> external e"
    and delete_missing:
      "k_delete K k s = (Some e, s') \<Longrightarrow> k_is_not_found K e \<or> k_is_no_match K e \<Longrightarrow>
         view s k = None \<and> view s' k = None"
    and delete_gone: "gone_or_terminating (view s) k \<Longrightarrow> k_delete K k s = (r, s') \<Longrightarrow> view s' = view s"
    and ignore_not_found:
      "k_ignore_not_found K r =
         (case r of None \<Rightarrow> None | Some e \<Rightarrow> if k_is_not_found K e then None else Some e)"
    and set_controller_reference_ok:
      "k_set_controller_reference K ow m = Inr m' \<Longrightarrow>
         controlled_by ow m' \<and> m' = m\<lparr> owner_references := owner_references m' \<rparr>"
    and set_controller_reference_error:
      "k_set_controller_reference K ow m = Inl e \<Longrightarrow> external e"
    and set_controller_reference_taken:
      "controlled_by_other ow m \<Longrightarrow> \<exists>e. k_set_controller_reference K ow m = Inl e"
    and set_controller_reference_again:
      "k_set_controller_reference K ow m = Inr m' \<Longrightarrow>
         owner_references m2 = owner_references m' \<Longrightarrow> k_set_controller_reference K ow m2 = Inr m2"
begin

lemma ignore_not_found_simps [simp]:
  "k_ignore_not_found K None = None"
  "k_ignore_not_found K (Some e) = (if k_is_not_found K e then None else Some e)"
  by (simp_all add: ignore_not_found)

lemma set_controller_reference_keeps:
  assumes "k_set_controller_reference K ow m = Inr m'"
  shows "meta_name m' = meta_name m" "meta_namespace m' = meta_namespace m"
    "meta_labels m' = meta_labels m" "creation_timestamp m' = creation_timestamp m"
    "meta_finalizers m' = meta_finalizers m"
proof -
  obtain refs where "m' = m\<lparr> owner_references := refs \<rparr>"
    using set_controller_reference_ok [OF assms] by blast
  then show "meta_name m' = meta_name m" "meta_namespace m' = meta_namespace m"
    "meta_labels m' = meta_labels m" "creation_timestamp m' = creation_timestamp m"
    "meta_finalizers m' = meta_finalizers m"
    by simp_all
qed

lemma create_or_update_frame:
  assumes "k_create_or_update K ob f s = (r, s')" and "k \<noteq> key_of ob"
  shows "view s' k = view s k"
proof (cases r)
  case None
  with assms create_or_update_ok [of ob f s s'] show ?thesis by (blast dest: applied_frame)
next
  case (Some e)
  with assms create_or_update_error [of ob f s e s'] show ?thesis
    by (metis applied_frame)
qed

text \<open>A mutate function that fails keeps every object as it was.\<close>

lemma create_or_update_refused:
  assumes run: "k_create_or_update K ob f s = (r, s')" and f: "f (base_of view s ob) = Inl c"
  shows "view s' = view s" and "\<exists>e. r = Some e \<and> (unwraps_to e c \<or> external e)"
proof -
  show "view s' = view s"
  proof (cases r)
    case None
    then show ?thesis using create_or_update_ok [of ob f s s'] run f by auto
  next
    case (Some e)
    then show ?thesis using create_or_update_error [of ob f s e s'] run f by auto
  qed
  show "\<exists>e. r = Some e \<and> (unwraps_to e c \<or> external e)"
  proof (cases r)
    case None
    then show ?thesis using create_or_update_ok [of ob f s s'] run f by auto
  next
    case (Some e)
    then show ?thesis using create_or_update_error [of ob f s e s'] run f by auto
  qed
qed

text \<open>What \<open>own_by\<close> returns is settled, and stays so in any object with the same owners.\<close>

lemma own_by_ok:
  assumes "own_by K ow ob = Inr ob'"
  shows "key_of ob' = key_of ob" "obj_spec ob' = obj_spec ob"
    "meta_labels (obj_meta ob') = meta_labels (obj_meta ob)"
    "meta_finalizers (obj_meta ob') = meta_finalizers (obj_meta ob)"
    "owner_references m = owner_references (obj_meta ob') \<Longrightarrow> settled_owner K ow m"
proof -
  obtain m' where m': "k_set_controller_reference K ow (obj_meta ob) = Inr m'"
    and ob': "ob' = set_meta m' ob"
    using assms by (auto simp: own_by_def split: sum.splits)
  note keeps = set_controller_reference_keeps [OF m']
  show "key_of ob' = key_of ob" "obj_spec ob' = obj_spec ob"
    "meta_labels (obj_meta ob') = meta_labels (obj_meta ob)"
    "meta_finalizers (obj_meta ob') = meta_finalizers (obj_meta ob)"
    using keeps by (simp_all add: ob' key_of_def)
  assume "owner_references m = owner_references (obj_meta ob')"
  then have refs: "owner_references m = owner_references m'" by (simp add: ob')
  with set_controller_reference_ok [OF m'] have "controlled_by ow m"
    by (simp add: controlled_by_def)
  with set_controller_reference_again [OF m' refs] show "settled_owner K ow m"
    by (simp add: settled_owner_def)
qed

lemma own_by_external: "own_by K ow ob = Inl e \<Longrightarrow> external e"
  using set_controller_reference_error by (auto simp: own_by_def split: sum.splits)

lemma own_by_taken: "controlled_by_other ow (obj_meta ob) \<Longrightarrow> \<exists>e. own_by K ow ob = Inl e"
  using set_controller_reference_taken by (fastforce simp: own_by_def)

lemma own_by_settled:
  "settled_owner K ow (obj_meta ob) \<Longrightarrow> own_by K ow ob = Inr ob"
  by (simp add: own_by_def settled_owner_def set_meta_def)

lemma settled_owner_refs:
  assumes "settled_owner K ow m" and "owner_references m' = owner_references m"
  shows "settled_owner K ow m'"
proof -
  have "controlled_by ow m'" using assms by (simp add: settled_owner_def controlled_by_def)
  moreover have "k_set_controller_reference K ow m' = Inr m'"
    using assms by (auto simp: settled_owner_def intro: set_controller_reference_again)
  ultimately show ?thesis by (simp add: settled_owner_def)
qed

text \<open>\<open>CreateOrUpdate\<close> and a tolerant delete as reconcile steps.\<close>

lemma create_or_update_step:
  assumes "\<And>b ob' x. key_of b = key_of ob \<Longrightarrow> f b = Inr ob' \<Longrightarrow> written dflt ob' x \<Longrightarrow> Q x"
  shows "reconcile_step view (k_create_or_update K ob f) {key_of ob}
      (\<lambda>v. \<exists>x. v (key_of ob) = Some x \<and> Q x)"
proof
  fix s e s' k
  assume "k_create_or_update K ob f s = (e, s')" and "k \<notin> {key_of ob}"
  then show "view s' k = view s k" by (auto intro: create_or_update_frame)
next
  fix s s'
  assume "k_create_or_update K ob f s = (None, s')"
  then obtain ob' where f: "f (base_of view s ob) = Inr ob'"
    and app: "applied view dflt (key_of ob) ob' s s'"
    using create_or_update_ok [of ob f s s'] by blast
  from applied_written [OF app] obtain x
    where x: "view s' (key_of ob) = Some x" and w: "written dflt ob' x" by blast
  have "key_of (base_of view s ob) = key_of ob"
    using view_key by (auto simp: base_of_def split: option.splits)
  with assms(1) f x w show "\<exists>x. view s' (key_of ob) = Some x \<and> Q x" by blast
qed auto

lemma create_or_update_quiet:
  assumes "\<And>x. key_of x = key_of ob \<Longrightarrow> Q x \<Longrightarrow> \<exists>ob'. f x = Inr ob' \<and> written dflt ob' x"
  shows "quiet_on view (k_create_or_update K ob f) (\<lambda>v. \<exists>x. v (key_of ob) = Some x \<and> Q x)"
  unfolding quiet_on_def using assms create_or_update_unchanged view_key by blast

lemma delete_step: "reconcile_step view (delete_ignoring_not_found K k) {k} (\<lambda>v. gone_or_terminating v k)"
proof
  fix s e s' k'
  assume "delete_ignoring_not_found K k s = (e, s')" and "k' \<notin> {k}"
  then show "view s' k' = view s k'"
    by (auto simp: delete_ignoring_not_found_def intro: delete_frame split: prod.splits)
next
  fix s s'
  assume "delete_ignoring_not_found K k s = (None, s')"
  then obtain r where del: "k_delete K k s = (r, s')" and r: "k_ignore_not_found K r = None"
    by (auto simp: delete_ignoring_not_found_def split: prod.splits)
  show "gone_or_terminating (view s') k"
  proof (cases r)
    case None
    with del show ?thesis by (simp add: delete_ok)
  next
    case (Some e)
    with r have "k_is_not_found K e" by (simp split: if_splits)
    with del Some show ?thesis by (auto intro: gone_missing dest: delete_missing)
  qed
next
  fix v v' :: "key \<Rightarrow> kobject option"
  assume "\<And>k'. k' \<in> {k} \<Longrightarrow> v' k' = v k'" and "gone_or_terminating v k"
  then show "gone_or_terminating v' k" by (simp add: gone_or_terminating_def)
qed

lemma delete_quiet: "quiet_on view (delete_ignoring_not_found K k) (\<lambda>v. gone_or_terminating v k)"
  by (auto simp: quiet_on_def delete_ignoring_not_found_def dest: delete_gone split: prod.splits)

lemma delete_external:
  assumes "delete_ignoring_not_found K k s = (Some e, s')"
  shows "external e"
proof -
  obtain r where del: "k_delete K k s = (r, s')" and "k_ignore_not_found K r = Some e"
    using assms by (auto simp: delete_ignoring_not_found_def split: prod.splits)
  then have "r = Some e" by (cases r) (auto split: if_splits)
  with del show ?thesis by (simp add: delete_error)
qed

lemma create_or_update_external:
  assumes "k_create_or_update K ob f s = (Some e, s')"
    and "\<And>c. f (base_of view s ob) = Inl c \<Longrightarrow> external c"
  shows "external e"
  using create_or_update_error [OF assms(1)] assms(2) external_unwraps by blast

end

section \<open>Conditions and finalizers\<close>

text \<open>
  \<open>meta.SetStatusCondition\<close> updates the condition of the given type in place or appends it;
  \<open>meta.FindStatusCondition\<close> returns the condition of a type.
\<close>

definition same_condition :: "condition \<Rightarrow> condition \<Rightarrow> bool" where
  "same_condition c d \<longleftrightarrow> cond_type c = cond_type d \<and> cond_status c = cond_status d
     \<and> cond_reason c = cond_reason d \<and> cond_message c = cond_message d
     \<and> cond_observed_generation c = cond_observed_generation d"

locale condition_api =
  fixes K :: "'s kube"
  assumes find_status_condition:
      "k_find_status_condition K cs t = List.find (\<lambda>c. cond_type c = t) cs"
    and set_status_condition_types:
      "map cond_type (k_set_status_condition K c cs) =
         (if cond_type c \<in> cond_type ` set cs then map cond_type cs
          else map cond_type cs @ [cond_type c])"
    and set_status_condition_this:
      "\<exists>d. List.find (\<lambda>d. cond_type d = cond_type c) (k_set_status_condition K c cs) = Some d
         \<and> same_condition d c"
    and set_status_condition_other:
      "t \<noteq> cond_type c \<Longrightarrow>
         List.find (\<lambda>d. cond_type d = t) (k_set_status_condition K c cs) =
         List.find (\<lambda>d. cond_type d = t) cs"
    and set_status_condition_unchanged:
      "List.find (\<lambda>d. cond_type d = cond_type c) cs = Some d \<Longrightarrow> same_condition d c \<Longrightarrow>
         cond_last_transition c = None \<Longrightarrow> k_set_status_condition K c cs = cs"
begin

lemma set_status_condition_distinct:
  "distinct (map cond_type cs) \<Longrightarrow> distinct (map cond_type (k_set_status_condition K c cs))"
  by (auto simp: set_status_condition_types)

lemma find_after_set:
  "\<exists>d. k_find_status_condition K (k_set_status_condition K c cs) (cond_type c) = Some d
     \<and> same_condition d c"
  by (simp add: find_status_condition set_status_condition_this)

end

locale finalizer_api =
  fixes K :: "'s kube"
  assumes contains_finalizer: "k_contains_finalizer K m f \<longleftrightarrow> f \<in> set (meta_finalizers m)"
    and add_finalizer:
      "k_add_finalizer K m f = m\<lparr> meta_finalizers := meta_finalizers (k_add_finalizer K m f) \<rparr>"
      "set (meta_finalizers (k_add_finalizer K m f)) = insert f (set (meta_finalizers m))"
    and remove_finalizer:
      "k_remove_finalizer K m f =
         m\<lparr> meta_finalizers := meta_finalizers (k_remove_finalizer K m f) \<rparr>"
      "set (meta_finalizers (k_remove_finalizer K m f)) = set (meta_finalizers m) - {f}"

section \<open>A client without faults\<close>

text \<open>
  The client when nothing fails on the way: a write of a served kind succeeds unless the
  mutate function refuses, a delete fails only because the object or its kind is unknown, and
  an object that has no controller yet can be given one.
\<close>

locale reliable_kube_api = kube_api +
  fixes served :: "kind \<Rightarrow> bool"
  assumes create_or_update_succeeds:
      "served (obj_kind ob) \<Longrightarrow> f (base_of view s ob) = Inr ob' \<Longrightarrow> key_of ob' = key_of ob \<Longrightarrow>
         fst (k_create_or_update K ob f s) = None"
    and create_or_update_refuses:
      "served (obj_kind ob) \<Longrightarrow> f (base_of view s ob) = Inl c \<Longrightarrow>
         \<exists>e. fst (k_create_or_update K ob f s) = Some e \<and> unwraps_to e c"
    and delete_succeeds:
      "fst (k_delete K (kd, ns, name) s) = Some e \<Longrightarrow>
         k_is_not_found K e \<or> (k_is_no_match K e \<and> \<not> served kd)"
    and set_controller_reference_succeeds:
      "\<not> controlled_by_other ow m \<Longrightarrow> \<exists>m'. k_set_controller_reference K ow m = Inr m'"

begin

text \<open>Writing an object that nobody else controls, and owning it, succeeds.\<close>

lemma owned_write_succeeds:
  assumes served: "served kd"
    and free: "\<And>x. view s (kd, ns, name) = Some x \<Longrightarrow> \<not> controlled_by_other ow (obj_meta x)"
    and key: "\<And>b. key_of (g b) = key_of b"
    and refs: "\<And>b. owner_references (obj_meta (g b)) = owner_references (obj_meta b)"
  shows "fst (k_create_or_update K (new_object kd ns name) (\<lambda>b. own_by K ow (g b)) s) = None"
proof -
  let ?b = "base_of view s (new_object kd ns name)"
  have "\<not> controlled_by_other ow (obj_meta (g ?b))"
    using free by (auto simp: base_of_def controlled_by_other_def refs split: option.splits)
  then obtain m' where "k_set_controller_reference K ow (obj_meta (g ?b)) = Inr m'"
    using set_controller_reference_succeeds by blast
  then have f: "own_by K ow (g ?b) = Inr (set_meta m' (g ?b))" by (simp add: own_by_def)
  have "key_of ?b = key_of (new_object kd ns name)"
    using view_key by (auto simp: base_of_def split: option.splits)
  with own_by_ok(1) [OF f] key have "key_of (set_meta m' (g ?b)) = key_of (new_object kd ns name)" by metis
  with create_or_update_succeeds [of "new_object kd ns name" "\<lambda>b. own_by K ow (g b)" s] f served
  show ?thesis by simp
qed

end

end
