(* ===== verification/Labels.thy ===== *)
theory Labels
  imports Go_Prelude
begin

text \<open>
  The package \<open>internal/core/labels\<close>: the recommended Kubernetes label keys and the base label
  set of every managed object. The locale \<open>label_scheme\<close> is the contract between the
  components that label their objects and the controllers that recognise an object by its
  labels; the packages \<open>workspace\<close> and \<open>module\<close> provide it.
\<close>

definition labels_Name :: string where
  "labels_Name = ''app.kubernetes.io/name''"

definition labels_ManagedBy :: string where
  "labels_ManagedBy = ''app.kubernetes.io/managed-by''"

definition labels_PartOf :: string where
  "labels_PartOf = ''app.kubernetes.io/part-of''"

definition labels_Component :: string where
  "labels_Component = ''app.kubernetes.io/component''"

definition labels_Instance :: string where
  "labels_Instance = ''app.kubernetes.io/instance''"

definition labels_Version :: string where
  "labels_Version = ''app.kubernetes.io/version''"

lemmas label_keys = labels_Name_def labels_ManagedBy_def labels_PartOf_def
  labels_Component_def labels_Instance_def labels_Version_def

declare label_keys [go_defs]

definition Standard :: "string \<Rightarrow> string \<Rightarrow> string \<Rightarrow> string \<Rightarrow> labels" where
  "Standard name inst component version =
     (let m = [labels_Instance \<mapsto> inst, labels_Component \<mapsto> component,
               labels_PartOf \<mapsto> ''otterscale'', labels_ManagedBy \<mapsto> ''otterscale-operator'',
               labels_Version \<mapsto> version]
      in if name \<noteq> '''' then m(labels_Name \<mapsto> name) else m)"

lemma Standard_entries [simp]:
  "Standard name inst component version labels_Instance = Some inst"
  "Standard name inst component version labels_Component = Some component"
  "Standard name inst component version labels_PartOf = Some ''otterscale''"
  "Standard name inst component version labels_ManagedBy = Some ''otterscale-operator''"
  "Standard name inst component version labels_Version = Some version"
  by (simp_all add: Standard_def Let_def label_keys)

lemma Standard_name:
  "Standard name inst component version labels_Name = (if name \<noteq> '''' then Some name else None)"
  by (simp add: Standard_def Let_def label_keys)

lemma dom_Standard:
  "dom (Standard name inst component version) =
     {labels_Instance, labels_Component, labels_PartOf, labels_ManagedBy, labels_Version}
     \<union> (if name \<noteq> '''' then {labels_Name} else {})"
  by (auto simp: Standard_def Let_def)

section \<open>The labelling contract\<close>

locale label_scheme =
  fixes mk :: "string \<Rightarrow> labels"
    and component :: string
  assumes managed_by: "mk inst labels_ManagedBy = Some ''otterscale-operator''"
    and component: "mk inst labels_Component = Some component"
    and instance_name: "mk inst labels_Instance = Some inst"
begin

text \<open>The name of the owner can be read back from the labels, alone or merged over others.\<close>

lemma inst_injective: "mk i = mk j \<Longrightarrow> i = j"
  using instance_name by (metis option.inject)

lemma copied:
  "maps_copy l (mk inst) labels_ManagedBy = Some ''otterscale-operator''"
  "maps_copy l (mk inst) labels_Component = Some component"
  "maps_copy l (mk inst) labels_Instance = Some inst"
  using managed_by component instance_name by (simp_all add: maps_copy_entry)

end

lemma label_schemes_differ:
  assumes "label_scheme f c" and "label_scheme g d" and "c \<noteq> d"
  shows "f i \<noteq> g j"
  using assms label_scheme.component by (metis option.inject)

end
