(* ===== verification/Workspace_Helpers.thy ===== *)
theory Workspace_Helpers
  imports Kube_Api Labels Workspace_Types
begin

text \<open>
  The helpers of \<open>internal/core/workspace/helpers.go\<close>, and the desired state of one child
  object of a Workspace with the reconcile-step lemmas that the theories of the individual
  children share.
\<close>

section \<open>helpers.go\<close>

definition RoleBindingName :: string where
  "RoleBindingName = ''workspace-role-binding''"
definition ResourceQuotaName :: string where
  "ResourceQuotaName = ''workspace-resource-quota''"
definition LimitRangeName :: string where
  "LimitRangeName = ''workspace-limit-range''"
definition NetworkPolicyName :: string where
  "NetworkPolicyName = ''workspace-network-policy''"
definition PeerAuthenticationName :: string where
  "PeerAuthenticationName = ''workspace-peer-authentication''"
definition AuthorizationPolicyName :: string where
  "AuthorizationPolicyName = ''workspace-authorization-policy''"
definition UserLabelPrefix :: string where
  "UserLabelPrefix = ''user.otterscale.io/''"
definition ConditionTypeReady :: string where
  "ConditionTypeReady = ''Ready''"

lemmas child_names = RoleBindingName_def ResourceQuotaName_def LimitRangeName_def
  NetworkPolicyName_def PeerAuthenticationName_def AuthorizationPolicyName_def

declare child_names [go_defs] UserLabelPrefix_def [go_defs] ConditionTypeReady_def [go_defs]

definition LabelsForWorkspace :: "string \<Rightarrow> string \<Rightarrow> labels" where
  "LabelsForWorkspace workspace version = Standard '''' workspace ''workspace'' version"

fun IsOwned :: "owner_reference list \<Rightarrow> string \<Rightarrow> bool" where
  "IsOwned [] uid = False"
| "IsOwned (ref # refs) uid = (if ref_uid ref = uid then True else IsOwned refs uid)"

definition IgnoreNoMatchNotFound :: "'s kube \<Rightarrow> go_error option \<Rightarrow> go_error option" where
  "IgnoreNoMatchNotFound K err =
     (if (case err of None \<Rightarrow> False | Some e \<Rightarrow> k_is_no_match K e) then None
      else k_ignore_not_found K err)"

lemma IsOwned_iff: "IsOwned refs uid \<longleftrightarrow> (\<exists>r \<in> set refs. ref_uid r = uid)"
  by (induction refs) auto

lemma controlled_by_IsOwned:
  "controlled_by (workspace_owner w) m \<Longrightarrow> IsOwned (owner_references m) (w_uid w)"
  by (auto simp: controlled_by_def IsOwned_iff)

interpretation ws_labels: label_scheme "\<lambda>w. LabelsForWorkspace w version" "''workspace''"
  by unfold_locales (simp_all add: LabelsForWorkspace_def)

definition delete_ignoring_no_match :: "'s kube \<Rightarrow> key \<Rightarrow> 's step" where
  "delete_ignoring_no_match K k s =
     (case k_delete K k s of (r, s') \<Rightarrow> (IgnoreNoMatchNotFound K r, s'))"

section \<open>The desired state of a child object\<close>

datatype desired = MustBeAbsent | MustExist obj_spec

text \<open>
  \<open>conforms\<close>: the stored object (if any) is as desired. An object that must exist has the
  given spec up to API-server defaulting, exactly the operator's labels (as served), and the Workspace as
  its settled controller.
\<close>

definition conforms ::
  "'s kube \<Rightarrow> (obj_spec \<Rightarrow> obj_spec) \<Rightarrow> workspace \<Rightarrow> string \<Rightarrow> desired \<Rightarrow> kobject option \<Rightarrow> bool" where
  "conforms K dflt w version d x =
     (case d of
        MustBeAbsent \<Rightarrow>
          (case x of None \<Rightarrow> True | Some ob \<Rightarrow> deletion_timestamp (obj_meta ob) \<noteq> None)
      | MustExist sp \<Rightarrow>
          (case x of None \<Rightarrow> False
           | Some ob \<Rightarrow> obj_spec ob = dflt sp
               \<and> obj_labels ob = served_labels (key_of ob) (Some (LabelsForWorkspace (w_name w) version))
               \<and> settled_owner K (workspace_owner w) (obj_meta ob)
               \<and> creation_timestamp (obj_meta ob) \<noteq> None))"

lemma conforms_absent_iff: "conforms K dflt w version MustBeAbsent (v k) \<longleftrightarrow> gone_or_terminating v k"
  by (simp add: conforms_def gone_or_terminating_def)

lemma conforms_exists_iff:
  "conforms K dflt w version (MustExist sp) x \<longleftrightarrow>
     (\<exists>ob. x = Some ob \<and> obj_spec ob = dflt sp
        \<and> obj_labels ob = served_labels (key_of ob) (Some (LabelsForWorkspace (w_name w) version))
        \<and> settled_owner K (workspace_owner w) (obj_meta ob)
        \<and> creation_timestamp (obj_meta ob) \<noteq> None)"
  by (simp add: conforms_def split: option.splits)

text \<open>What every mutate function of a child comes down to.\<close>

definition write_child ::
  "'s kube \<Rightarrow> workspace \<Rightarrow> string \<Rightarrow> obj_spec \<Rightarrow> kobject \<Rightarrow> go_error + kobject" where
  "write_child K w version sp ob =
     own_by K (workspace_owner w)
       ((set_labels (Some (LabelsForWorkspace (w_name w) version)) ob)\<lparr> obj_spec := sp \<rparr>)"

text \<open>
  The reference definition of a child's reconcile function: delete the object or write it, as
  the desired state says. The functions of the program are shown to be instances of it; the
  flag tells the Istio kinds, whose deletion also tolerates that the kind is unknown.
\<close>

definition manage_child ::
  "'s kube \<Rightarrow> bool \<Rightarrow> workspace \<Rightarrow> string \<Rightarrow> key \<Rightarrow> desired \<Rightarrow> 's step" where
  "manage_child K no_match_ok w version k d =
     (case d of
        MustBeAbsent \<Rightarrow>
          (if no_match_ok then delete_ignoring_no_match K k else delete_ignoring_not_found K k)
      | MustExist sp \<Rightarrow>
          (case k of (kd, ns, name) \<Rightarrow>
             k_create_or_update K (new_object kd ns name) (write_child K w version sp)))"

context kube_api
begin

lemma delete_no_match_step:
  "reconcile_step view (delete_ignoring_no_match K k) {k} (\<lambda>v. gone_or_terminating v k)"
proof
  fix s e s' k'
  assume "delete_ignoring_no_match K k s = (e, s')" and "k' \<notin> {k}"
  then show "view s' k' = view s k'"
    by (auto simp: delete_ignoring_no_match_def intro: delete_frame split: prod.splits)
next
  fix s s'
  assume "delete_ignoring_no_match K k s = (None, s')"
  then obtain r where del: "k_delete K k s = (r, s')" and r: "IgnoreNoMatchNotFound K r = None"
    by (auto simp: delete_ignoring_no_match_def split: prod.splits)
  show "gone_or_terminating (view s') k"
  proof (cases r)
    case None
    with del show ?thesis by (simp add: delete_ok)
  next
    case (Some e)
    with r have "k_is_not_found K e \<or> k_is_no_match K e"
      by (simp add: IgnoreNoMatchNotFound_def split: if_splits)
    with del Some show ?thesis by (auto intro: gone_missing dest: delete_missing)
  qed
next
  fix v v' :: "key \<Rightarrow> kobject option"
  assume "\<And>k'. k' \<in> {k} \<Longrightarrow> v' k' = v k'" and "gone_or_terminating v k"
  then show "gone_or_terminating v' k" by (simp add: gone_or_terminating_def)
qed

lemma delete_no_match_quiet: "quiet_on view (delete_ignoring_no_match K k) (\<lambda>v. gone_or_terminating v k)"
  by (auto simp: quiet_on_def delete_ignoring_no_match_def dest: delete_gone split: prod.splits)

lemma delete_no_match_external:
  assumes "delete_ignoring_no_match K k s = (Some e, s')"
  shows "external e"
proof -
  obtain r where del: "k_delete K k s = (r, s')" and "IgnoreNoMatchNotFound K r = Some e"
    using assms by (auto simp: delete_ignoring_no_match_def split: prod.splits)
  then have "r = Some e"
    by (cases r) (auto simp: IgnoreNoMatchNotFound_def split: if_splits)
  with del show ?thesis by (simp add: delete_error)
qed

lemma write_child_ok:
  assumes "write_child K w version sp b = Inr ob'" and "written dflt ob' x"
  shows "conforms K dflt w version (MustExist sp) (Some x)"
  using own_by_ok [OF assms(1) [unfolded write_child_def]] assms(2)
  by (simp add: conforms_exists_iff written_def obj_labels_def)

lemma exists_conforms_eq:
  "(\<lambda>v. \<exists>x. v k = Some x \<and> conforms K dflt w version (MustExist sp) (Some x))
     = (\<lambda>v. conforms K dflt w version (MustExist sp) (v k))"
  by (auto simp: fun_eq_iff conforms_exists_iff)

lemma write_child_settled:
  assumes "conforms K dflt w version (MustExist sp) (Some x)"
  shows "\<exists>ob'. write_child K w version sp x = Inr ob' \<and> written dflt ob' x"
proof -
  have x: "obj_spec x = dflt sp"
    "meta_labels (obj_meta x) = served_labels (key_of x) (Some (LabelsForWorkspace (w_name w) version))"
    "settled_owner K (workspace_owner w) (obj_meta x)" "creation_timestamp (obj_meta x) \<noteq> None"
    using assms by (auto simp: conforms_exists_iff obj_labels_def)
  let ?b = "(set_labels (Some (LabelsForWorkspace (w_name w) version)) x)\<lparr> obj_spec := sp \<rparr>"
  have "settled_owner K (workspace_owner w) (obj_meta ?b)"
    by (rule settled_owner_refs [OF x(3)]) (simp add: set_labels_def)
  then have "write_child K w version sp x = Inr ?b"
    unfolding write_child_def by (rule own_by_settled)
  moreover have "written dflt ?b x"
    using x by (simp add: written_def key_of_def set_labels_def)
  ultimately show ?thesis by blast
qed

lemma manage_child_step:
  "reconcile_step view (manage_child K nm w version k d) {k} (\<lambda>v. conforms K dflt w version d (v k))"
proof (cases d)
  case MustBeAbsent
  then show ?thesis
    using delete_step delete_no_match_step by (simp add: manage_child_def conforms_absent_iff)
next
  case (MustExist sp)
  obtain kd ns name where k: "k = (kd, ns, name)" by (cases k)
  have "reconcile_step view (k_create_or_update K (new_object kd ns name) (write_child K w version sp))
      {key_of (new_object kd ns name)}
      (\<lambda>v. \<exists>x. v (key_of (new_object kd ns name)) = Some x
         \<and> conforms K dflt w version (MustExist sp) (Some x))"
    by (rule create_or_update_step) (rule write_child_ok)
  then show ?thesis by (simp add: MustExist k manage_child_def exists_conforms_eq)
qed

lemma manage_child_quiet:
  "quiet_on view (manage_child K nm w version k d) (\<lambda>v. conforms K dflt w version d (v k))"
proof (cases d)
  case MustBeAbsent
  then show ?thesis
    using delete_quiet delete_no_match_quiet by (simp add: manage_child_def conforms_absent_iff)
next
  case (MustExist sp)
  obtain kd ns name where k: "k = (kd, ns, name)" by (cases k)
  have "quiet_on view (k_create_or_update K (new_object kd ns name) (write_child K w version sp))
      (\<lambda>v. \<exists>x. v (key_of (new_object kd ns name)) = Some x
         \<and> conforms K dflt w version (MustExist sp) (Some x))"
    by (rule create_or_update_quiet) (rule write_child_settled)
  then show ?thesis by (simp add: MustExist k manage_child_def exists_conforms_eq)
qed

lemma manage_child_external:
  assumes "manage_child K nm w version k d s = (Some e, s')"
  shows "external e"
proof (cases d)
  case MustBeAbsent
  with assms show ?thesis
    by (auto simp: manage_child_def intro: delete_external delete_no_match_external split: if_splits)
next
  case (MustExist sp)
  obtain kd ns name where k: "k = (kd, ns, name)" by (cases k)
  with assms MustExist
  have "k_create_or_update K (new_object kd ns name) (write_child K w version sp) s = (Some e, s')"
    by (simp add: manage_child_def)
  then show ?thesis
    by (rule create_or_update_external) (auto simp: write_child_def own_by_external)
qed

text \<open>A child that another object controls is left as it is.\<close>

lemma manage_child_taken:
  assumes x: "view s k = Some x" "controlled_by_other (workspace_owner w) (obj_meta x)"
    and run: "manage_child K nm w version k (MustExist sp) s = (r, s')"
  shows "r \<noteq> None \<and> view s' = view s"
proof -
  obtain kd ns name where k: "k = (kd, ns, name)" by (cases k)
  let ?b = "(set_labels (Some (LabelsForWorkspace (w_name w) version)) x)\<lparr> obj_spec := sp \<rparr>"
  have "controlled_by_other (workspace_owner w) (obj_meta ?b)"
    using x(2) by (simp add: controlled_by_other_def)
  then obtain c where "write_child K w version sp x = Inl c"
    using own_by_taken unfolding write_child_def by blast
  then have f: "write_child K w version sp (base_of view s (new_object kd ns name)) = Inl c"
    using x(1) by (simp add: base_of_def k)
  have "k_create_or_update K (new_object kd ns name) (write_child K w version sp) s = (r, s')"
    using run by (simp add: manage_child_def k)
  from create_or_update_refused [OF this f] show ?thesis by blast
qed

end

end
