(* ===== verification/Workspace_Samples.thy ===== *)
theory Workspace_Samples
  imports Workspace_Types
begin

text \<open>
  Concrete Workspaces on which the theorems about Workspaces are instantiated: a team with an
  admin and a viewer, a quota and network isolation.
\<close>

definition alice :: workspace_member where
  "alice = \<lparr> wm_role = ''admin'', wm_subject = ''alice'', wm_name = None \<rparr>"

definition bob :: workspace_member where
  "bob = \<lparr> wm_role = ''view'', wm_subject = ''bob'', wm_name = Some ''Bob'' \<rparr>"

definition team_spec :: workspace_spec where
  "team_spec =
     \<lparr> ws_namespace = ''team-a'', ws_members = [alice, bob],
       ws_resource_quota = Some (JObject [(''hard'', JNumber 4)]), ws_limit_range = None,
       ws_network_isolation = \<lparr> ni_enabled = True, ni_allowed_namespaces = [''team-b''] \<rparr> \<rparr>"

definition empty_status :: workspace_status where
  "empty_status =
     \<lparr> st_observed_generation = 0, st_namespace_ref = None, st_resource_quota_ref = None,
       st_limit_range_ref = None, st_role_binding_refs = [], st_peer_authentication_ref = None,
       st_authorization_policy_ref = None, st_network_policy_ref = None, st_conditions = [] \<rparr>"

definition team_meta :: object_meta where
  "team_meta = (object_meta_named '''' ''team'')\<lparr> meta_uid := ''uid-team'', meta_generation := 1 \<rparr>"

definition team :: workspace where
  "team = \<lparr> w_meta = team_meta, w_spec = team_spec, w_status = empty_status \<rparr>"

lemmas team_defs = team_def team_meta_def team_spec_def empty_status_def alice_def bob_def

lemma team_simps [simp]:
  "w_spec team = team_spec" "w_meta team = team_meta" "w_status team = empty_status"
  "meta_name team_meta = ''team''" "meta_uid team_meta = ''uid-team''"
  "meta_generation team_meta = 1" "meta_labels team_meta = None"
  "ws_namespace team_spec = ''team-a''" "ws_members team_spec = [alice, bob]"
  "ni_enabled (ws_network_isolation team_spec) = True"
  "ni_allowed_namespaces (ws_network_isolation team_spec) = [''team-b'']"
  "ws_limit_range team_spec = None"
  "ws_resource_quota team_spec = Some (JObject [(''hard'', JNumber 4)])"
  "wm_role alice = ''admin''" "wm_subject alice = ''alice''"
  "wm_role bob = ''view''" "wm_subject bob = ''bob''"
  by (simp_all add: team_defs object_meta_named_def)

lemma team_valid: "valid_workspace_spec team_spec"
  by code_simp

end
