(* ===== verification/Workspace_Webhook.thy ===== *)
theory Workspace_Webhook
  imports Workspace_Authorization Workspace_Helpers Workspace_Samples
begin

text \<open>
  The admission webhook of Workspaces (\<open>internal/webhook/tenant/v1alpha1/workspace_webhook.go\<close>):
  the defaulter that mirrors the members as labels, and the validator that guards updates and
  deletions. The second half puts them where the API server puts them, between a request and
  the stored Workspaces, and follows sequences of requests.
\<close>

section \<open>The defaulter\<close>

fun desired_user_labels :: "workspace_member list \<Rightarrow> string set" where
  "desired_user_labels [] = {}"
| "desired_user_labels (m # ms) = insert (UserLabelPrefix @ wm_subject m) (desired_user_labels ms)"

text \<open>The two loops over maps are pointwise: their order does not matter.\<close>

definition remove_stale :: "string set \<Rightarrow> labels \<Rightarrow> labels" where
  "remove_stale desired l k =
     (if l k \<noteq> None \<and> has_prefix k UserLabelPrefix \<and> k \<notin> desired then None else l k)"

definition set_desired :: "string set \<Rightarrow> labels \<Rightarrow> labels" where
  "set_desired desired l k = (if k \<in> desired then Some ''true'' else l k)"

definition defaultMemberLabels :: "workspace \<Rightarrow> workspace" where
  "defaultMemberLabels w =
     (let l = (case meta_labels (w_meta w) of None \<Rightarrow> Map.empty | Some l \<Rightarrow> l);
          desired = desired_user_labels (w_members w)
      in w\<lparr> w_meta := (w_meta w)\<lparr> meta_labels := Some (set_desired desired (remove_stale desired l)) \<rparr> \<rparr>)"

definition Default :: "workspace \<Rightarrow> go_error option \<times> workspace" where
  "Default w = (None, defaultMemberLabels w)"

section \<open>The validator\<close>

text \<open>
  The validator reads the user from the admission request in the context; the lookup may fail.
\<close>

definition ValidateCreate :: "workspace \<Rightarrow> go_error option" where
  "ValidateCreate w = None"

definition ValidateUpdate ::
  "string \<Rightarrow> go_error + user_info \<Rightarrow> workspace \<Rightarrow> workspace \<Rightarrow> go_error option" where
  "ValidateUpdate operatorSA request oldWorkspace newWorkspace =
     (case request of
        Inl err \<Rightarrow> Some (WrapError ''unable to retrieve admission request from context'' err)
      | Inr userInfo \<Rightarrow>
          (case AuthorizeModification userInfo oldWorkspace operatorSA of
             Some err \<Rightarrow> Some err
           | None \<Rightarrow> None))"

definition ValidateDelete :: "string \<Rightarrow> go_error + user_info \<Rightarrow> workspace \<Rightarrow> go_error option" where
  "ValidateDelete operatorSA request w =
     (case request of
        Inl err \<Rightarrow> Some (WrapError ''unable to retrieve admission request from context'' err)
      | Inr userInfo \<Rightarrow>
          (case AuthorizeModification userInfo w operatorSA of
             Some err \<Rightarrow> Some err
           | None \<Rightarrow> None))"

section \<open>The labels of the members\<close>

text \<open>The abstract specification: a managed label is present exactly for a member.\<close>

definition labels_mirror_members :: "workspace \<Rightarrow> bool" where
  "labels_mirror_members w \<longleftrightarrow>
     (\<exists>l. meta_labels (w_meta w) = Some l
        \<and> (\<forall>u. l (UserLabelPrefix @ u) =
              (if u \<in> wm_subject ` set (w_members w) then Some ''true'' else None)))"

definition unmanaged_labels :: "string set" where
  "unmanaged_labels = {k. \<not> has_prefix k UserLabelPrefix}"

lemma desired_user_labels_iff:
  "k \<in> desired_user_labels ms \<longleftrightarrow> (\<exists>u \<in> wm_subject ` set ms. k = UserLabelPrefix @ u)"
  by (induction ms) auto

lemma desired_user_label [simp]:
  "UserLabelPrefix @ u \<in> desired_user_labels ms \<longleftrightarrow> u \<in> wm_subject ` set ms"
  by (auto simp: desired_user_labels_iff)

lemma desired_has_prefix: "k \<in> desired_user_labels ms \<Longrightarrow> has_prefix k UserLabelPrefix"
  by (auto simp: desired_user_labels_iff has_prefix_def)

lemma default_keeps [simp]:
  "w_spec (defaultMemberLabels w) = w_spec w" "w_status (defaultMemberLabels w) = w_status w"
  "w_name (defaultMemberLabels w) = w_name w"
  by (simp_all add: defaultMemberLabels_def Let_def)

lemma default_label:
  "\<exists>l'. meta_labels (w_meta (defaultMemberLabels w)) = Some l'
     \<and> l' k = (if k \<in> desired_user_labels (w_members w) then Some ''true''
               else if has_prefix k UserLabelPrefix then None
               else labels_or_empty (meta_labels (w_meta w)) k)"
  by (auto simp: defaultMemberLabels_def Let_def set_desired_def remove_stale_def
      labels_or_empty_def split: option.splits)

lemma default_mirrors: "labels_mirror_members (defaultMemberLabels w)"
  by (auto simp: labels_mirror_members_def defaultMemberLabels_def Let_def set_desired_def
      remove_stale_def has_prefix_def)

lemma mirrors_same:
  assumes "labels_mirror_members w" and "w_meta w' = w_meta w" and "w_members w' = w_members w"
  shows "labels_mirror_members w'"
  using assms by (simp add: labels_mirror_members_def)

text \<open>The defaulter leaves a Workspace alone that is already as it should be.\<close>

lemma default_fixed:
  assumes "labels_mirror_members w"
  shows "defaultMemberLabels w = w"
proof -
  obtain l where l: "meta_labels (w_meta w) = Some l"
    and mirror: "\<And>u. l (UserLabelPrefix @ u) =
        (if u \<in> wm_subject ` set (w_members w) then Some ''true'' else None)"
    using assms by (auto simp: labels_mirror_members_def)
  have "set_desired (desired_user_labels (w_members w))
      (remove_stale (desired_user_labels (w_members w)) l) k = l k" for k
  proof (cases "has_prefix k UserLabelPrefix")
    case True
    then obtain u where "k = UserLabelPrefix @ u" by (auto simp: has_prefix_def prefix_def)
    then show ?thesis using mirror [of u] by (simp add: set_desired_def remove_stale_def)
  next
    case False
    then show ?thesis by (auto simp: set_desired_def remove_stale_def dest: desired_has_prefix)
  qed
  then have "set_desired (desired_user_labels (w_members w))
      (remove_stale (desired_user_labels (w_members w)) l) = l" by (simp add: fun_eq_iff)
  with l show ?thesis by (simp add: defaultMemberLabels_def)
qed

text \<open>
  After the defaulter has run, a label under the prefix \<open>user.otterscale.io/\<close> is present,
  with the value true, exactly for the subject of a member; every other label is as before; and
  the defaulter changes nothing but the labels and never fails.
\<close>

theorem Default_labels:
  "\<exists>w'. Default w = (None, w') \<and> labels_mirror_members w'
     \<and> w' = w\<lparr> w_meta := (w_meta w)\<lparr> meta_labels := meta_labels (w_meta w') \<rparr> \<rparr>
     \<and> labels_or_empty (meta_labels (w_meta w')) |` unmanaged_labels =
         labels_or_empty (meta_labels (w_meta w)) |` unmanaged_labels"
proof -
  let ?w = "defaultMemberLabels w"
  have "?w = w\<lparr> w_meta := (w_meta w)\<lparr> meta_labels := meta_labels (w_meta ?w) \<rparr> \<rparr>"
    by (simp add: defaultMemberLabels_def Let_def)
  moreover have "labels_or_empty (meta_labels (w_meta ?w)) k = labels_or_empty (meta_labels (w_meta w)) k"
    if "k \<in> unmanaged_labels" for k
    using that default_label [of w k] by (auto simp: unmanaged_labels_def dest: desired_has_prefix)
  then have "labels_or_empty (meta_labels (w_meta ?w)) |` unmanaged_labels =
      labels_or_empty (meta_labels (w_meta w)) |` unmanaged_labels"
    by (simp add: fun_eq_iff restrict_map_def)
  ultimately show ?thesis using default_mirrors [of w] unfolding Default_def by blast
qed

text \<open>
  Running the defaulter on its own result changes nothing, so a write that the API server
  admits again (as it does for its own retries) is stored unchanged.
\<close>

theorem Default_idempotent:
  "Default (snd (Default w)) = Default w"
  by (simp add: Default_def default_fixed default_mirrors)

section \<open>Requests\<close>

text \<open>
  The path of a write of the main resource through the API server, as the webhook
  configuration and the CRD lay it out: the defaulter, the rules of the CRD (with the
  transition rule on updates), the validator, the store. The status is written through its own
  endpoint, for which no webhook is registered.
\<close>

type_synonym store = "string \<rightharpoonup> workspace"

datatype request =
    CreateWorkspace user_info workspace
  | UpdateWorkspace user_info workspace
  | DeleteWorkspace user_info string
  | WriteStatus user_info string workspace_status

fun issuer :: "request \<Rightarrow> user_info" where
  "issuer (CreateWorkspace u w) = u"
| "issuer (UpdateWorkspace u w) = u"
| "issuer (DeleteWorkspace u n) = u"
| "issuer (WriteStatus u n st) = u"

inductive admitted :: "string \<Rightarrow> store \<Rightarrow> request \<Rightarrow> store \<Rightarrow> bool" for operatorSA where
  create: "\<lbrakk> S (w_name w) = None; Default w = (None, w'); valid_workspace_spec (w_spec w');
      ValidateCreate w' = None \<rbrakk>
    \<Longrightarrow> admitted operatorSA S (CreateWorkspace u w) (S(w_name w \<mapsto> w'))"
| update: "\<lbrakk> S (w_name w) = Some old; Default w = (None, w');
      valid_spec_update (w_spec old) (w_spec w');
      ValidateUpdate operatorSA (Inr u) old w' = None \<rbrakk>
    \<Longrightarrow> admitted operatorSA S (UpdateWorkspace u w) (S(w_name w \<mapsto> w'))"
| delete: "\<lbrakk> S n = Some old; ValidateDelete operatorSA (Inr u) old = None \<rbrakk>
    \<Longrightarrow> admitted operatorSA S (DeleteWorkspace u n) (S(n := None))"
| status: "S n = Some old
    \<Longrightarrow> admitted operatorSA S (WriteStatus u n st) (S(n \<mapsto> old\<lparr> w_status := st \<rparr>))"

inductive_cases admittedE: "admitted operatorSA S r S'"
inductive_simps admitted_delete: "admitted operatorSA S (DeleteWorkspace u n) S'"
inductive_simps admitted_update: "admitted operatorSA S (UpdateWorkspace u w) S'"

text \<open>A sequence of requests: each is admitted, or refused and changes nothing.\<close>

inductive requests :: "string \<Rightarrow> store \<Rightarrow> request list \<Rightarrow> store \<Rightarrow> bool" for operatorSA where
  none: "requests operatorSA S [] S"
| admit: "admitted operatorSA S r S' \<Longrightarrow> requests operatorSA S' rs S'' \<Longrightarrow>
    requests operatorSA S (r # rs) S''"
| refuse: "\<forall>S'. \<not> admitted operatorSA S r S' \<Longrightarrow> requests operatorSA S rs S'' \<Longrightarrow>
    requests operatorSA S (r # rs) S''"

inductive_cases requests_NilE: "requests operatorSA S [] S'"
inductive_cases requests_ConsE: "requests operatorSA S (r # rs) S'"

section \<open>Who can change what\<close>

text \<open>
  The contract of an update guard: a request on a stored object whose issuer the guard does
  not allow leaves the guarded part of the object as it is, and the guard looks at nothing
  but that part. Then no sequence of requests by such issuers can make a difference, not even
  by changing the object in a way that would let them in.
\<close>

locale guarded_store =
  fixes step :: "'s \<Rightarrow> 'r \<Rightarrow> 's \<Rightarrow> bool"
    and by_user :: "'r \<Rightarrow> 'u"
    and obj :: "'s \<Rightarrow> 'o option"
    and allowed :: "'u \<Rightarrow> 'o \<Rightarrow> bool"
    and core :: "'o \<Rightarrow> 'c"
  assumes guarded:
      "step S r S' \<Longrightarrow> obj S = Some x \<Longrightarrow> \<not> allowed (by_user r) x \<Longrightarrow>
         \<exists>y. obj S' = Some y \<and> core y = core x"
    and allowed_core: "core x = core y \<Longrightarrow> allowed u x = allowed u y"
begin

fun run :: "'s \<Rightarrow> 'r list \<Rightarrow> 's \<Rightarrow> bool" where
  "run S [] S' = (S' = S)"
| "run S (r # rs) S' =
     ((\<exists>T. step S r T \<and> run T rs S') \<or> ((\<forall>T. \<not> step S r T) \<and> run S rs S'))"

lemma run_guarded:
  assumes "run S rs S'" and "obj S = Some x" and "\<And>r. r \<in> set rs \<Longrightarrow> \<not> allowed (by_user r) x"
  shows "\<exists>y. obj S' = Some y \<and> core y = core x"
  using assms
proof (induction rs arbitrary: S x)
  case Nil
  then show ?case by simp
next
  case (Cons r rs)
  from Cons.prems(1) consider T where "step S r T" "run T rs S'" | "run S rs S'" by auto
  then show ?case
  proof cases
    case 1
    obtain y where y: "obj T = Some y" "core y = core x"
      using guarded [OF 1(1) Cons.prems(2)] Cons.prems(3) by auto
    have "\<not> allowed (by_user q) y" if "q \<in> set rs" for q
      using Cons.prems(3) [of q] that allowed_core [OF y(2), of "by_user q"] by simp
    from Cons.IH [OF 1(2) y(1) this] y(2) show ?thesis by simp
  next
    case 2
    from Cons.IH [OF this Cons.prems(2)] Cons.prems(3) show ?thesis by simp
  qed
qed

end

text \<open>The guarded part of a Workspace: all of it but the status.\<close>

definition guarded_part :: "workspace \<Rightarrow> object_meta \<times> workspace_spec" where
  "guarded_part w = (w_meta w, w_spec w)"

definition may_modify :: "string \<Rightarrow> user_info \<Rightarrow> workspace \<Rightarrow> bool" where
  "may_modify operatorSA u w \<longleftrightarrow> AuthorizeModification u w operatorSA = None"

lemma validate_update_allows [simp]:
  "ValidateUpdate operatorSA (Inr u) old w = None \<longleftrightarrow> may_modify operatorSA u old"
  by (simp add: ValidateUpdate_def may_modify_def split: option.splits)

lemma validate_delete_allows [simp]:
  "ValidateDelete operatorSA (Inr u) old = None \<longleftrightarrow> may_modify operatorSA u old"
  by (simp add: ValidateDelete_def may_modify_def split: option.splits)

interpretation guard: guarded_store "admitted operatorSA" issuer "\<lambda>S. S n"
  "may_modify operatorSA" guarded_part for operatorSA n
proof
  fix S r S' x
  assume "admitted operatorSA S r S'" and "S n = Some x" and "\<not> may_modify operatorSA (issuer r) x"
  then show "\<exists>y. S' n = Some y \<and> guarded_part y = guarded_part x"
    by (cases rule: admitted.cases) (auto simp: guarded_part_def)
next
  fix u x y
  assume "guarded_part x = guarded_part y"
  then show "may_modify operatorSA u x = may_modify operatorSA u y"
    using AuthorizeModification_members_only [of x y u operatorSA]
    by (simp add: guarded_part_def may_modify_def)
qed

lemma requests_run: "requests operatorSA S rs S' \<longleftrightarrow> guard.run operatorSA S rs S'"
proof
  show "requests operatorSA S rs S' \<Longrightarrow> guard.run operatorSA S rs S'"
    by (induction rule: requests.induct) auto
  show "guard.run operatorSA S rs S' \<Longrightarrow> requests operatorSA S rs S'"
    by (induction rs arbitrary: S) (auto intro: requests.intros)
qed

lemma requests_guarded:
  assumes "requests operatorSA S rs S'" and "S n = Some w"
    and "\<And>r. r \<in> set rs \<Longrightarrow> \<not> may_modify operatorSA (issuer r) w"
  shows "\<exists>w'. S' n = Some w' \<and> guarded_part w' = guarded_part w"
  using guard.run_guarded [of operatorSA S rs S' n w] assms by (simp add: requests_run)

text \<open>
  C6: No escalation. However many requests they send and in whatever order, users who may
  not modify a stored Workspace cannot delete it or change its metadata or spec, and so cannot
  make themselves an admin of it.
\<close>

theorem no_escalation:
  assumes "requests operatorSA S rs S'" and "S n = Some w"
    and "\<And>r. r \<in> set rs \<Longrightarrow> AuthorizeModification (issuer r) w operatorSA \<noteq> None"
  shows "\<exists>w'. S' n = Some w' \<and> w_meta w' = w_meta w \<and> w_spec w' = w_spec w"
  using requests_guarded [of operatorSA S rs S' n w] assms by (auto simp: guarded_part_def may_modify_def)

section \<open>Invariants of the stored Workspaces\<close>

definition good_workspace :: "workspace \<Rightarrow> bool" where
  "good_workspace w \<longleftrightarrow> valid_workspace_spec (w_spec w) \<and> labels_mirror_members w"

definition good_store :: "store \<Rightarrow> bool" where
  "good_store S \<longleftrightarrow> (\<forall>n w. S n = Some w \<longrightarrow> good_workspace w \<and> w_name w = n)"

lemma good_status: "good_workspace w \<Longrightarrow> good_workspace (w\<lparr> w_status := st \<rparr>)"
  by (auto simp: good_workspace_def intro: mirrors_same)

lemma admitted_good:
  assumes "admitted operatorSA S r S'" and "good_store S"
  shows "good_store S'"
  using assms
proof (cases rule: admitted.cases)
  case (create w w')
  then have "good_workspace w'" "w_name w' = w_name w"
    using default_mirrors [of w] by (auto simp: good_workspace_def Default_def)
  with assms(2) create show ?thesis by (simp add: good_store_def)
next
  case (update w old w')
  then have "good_workspace w'" "w_name w' = w_name w"
    using default_mirrors [of w] by (auto simp: good_workspace_def Default_def valid_spec_update_def)
  with assms(2) update show ?thesis by (simp add: good_store_def)
next
  case (delete n old)
  with assms(2) show ?thesis by (simp add: good_store_def)
next
  case (status n old)
  with assms(2) show ?thesis by (auto simp: good_store_def good_status)
qed

lemma requests_good: "requests operatorSA S rs S' \<Longrightarrow> good_store S \<Longrightarrow> good_store S'"
  by (induction rule: requests.induct) (auto dest: admitted_good)

text \<open>
  C29: In every store that requests can lead to from an empty one, each Workspace satisfies the
  rules of the CRD (so it has an admin, and no reserved namespace) and its labels mirror its
  members exactly.
\<close>

theorem stored_workspaces_good:
  assumes "requests operatorSA Map.empty rs S" and "S n = Some w"
  shows "valid_workspace_spec (w_spec w) \<and> labels_mirror_members w
    \<and> (\<exists>m \<in> set (w_members w). wm_role m = MemberRoleAdmin)
    \<and> w_namespace w \<notin> set reserved_namespaces"
proof -
  have "good_store S" using requests_good [OF assms(1)] by (simp add: good_store_def)
  with assms(2) have "good_workspace w" by (auto simp: good_store_def)
  then show ?thesis
    using valid_spec_admin by (auto simp: good_workspace_def valid_workspace_spec_def slices_contains_def)
qed

text \<open>A first request that is admitted: creating the sample Workspace.\<close>

definition stored_team :: workspace where
  "stored_team = defaultMemberLabels team"

lemma create_team:
  "admitted operatorSA Map.empty (CreateWorkspace u team) (Map.empty(''team'' \<mapsto> stored_team))"
  using admitted.create [where S = Map.empty and w = team and w' = stored_team] team_valid
  by (simp add: Default_def stored_team_def ValidateCreate_def)

lemma create_team_requests:
  "requests operatorSA Map.empty [CreateWorkspace u team] (Map.empty(''team'' \<mapsto> stored_team))"
  using create_team by (rule requests.admit) (rule requests.none)

theorem stored_workspaces_good_witness:
  "valid_workspace_spec (w_spec stored_team) \<and> labels_mirror_members stored_team"
  using stored_workspaces_good [OF create_team_requests, of "''team''" stored_team] by simp

fun deletes :: "string \<Rightarrow> request \<Rightarrow> bool" where
  "deletes n (DeleteWorkspace u m) = (m = n)"
| "deletes n _ = False"

lemma admitted_namespace:
  assumes "admitted operatorSA S r S'" and "S n = Some w" and "\<not> deletes n r"
  shows "\<exists>w'. S' n = Some w' \<and> w_namespace w' = w_namespace w"
  using assms by (cases rule: admitted.cases) (auto simp: Default_def valid_spec_update_def)

lemma requests_namespace:
  assumes "requests operatorSA S rs S'" and "S n = Some w" and "\<not> list_ex (deletes n) rs"
  shows "\<exists>w'. S' n = Some w' \<and> w_namespace w' = w_namespace w"
  using assms
proof (induction arbitrary: w rule: requests.induct)
  case (admit S r S' rs S'')
  then obtain w1 where "S' n = Some w1" "w_namespace w1 = w_namespace w"
    using admitted_namespace [of operatorSA S r S' n w] by auto
  with admit show ?case by fastforce
qed auto

text \<open>
  The namespace of a stored Workspace is constant under every sequence of requests that
  does not delete the Workspace, whoever sends them.
\<close>

theorem namespace_constant:
  assumes "requests operatorSA S rs S'" and "S n = Some w" and "\<not> list_ex (deletes n) rs"
  shows "\<exists>w'. S' n = Some w' \<and> w_namespace w' = w_namespace w"
  by (rule requests_namespace [OF assms])

text \<open>Bob, a viewer, tries to remove everybody else; a cluster administrator renames a member.\<close>

definition bob_user :: user_info where
  "bob_user = \<lparr> user_name = ''bob'', user_groups = [''system:authenticated''] \<rparr>"

definition team_without_alice :: workspace where
  "team_without_alice = team\<lparr> w_spec := team_spec\<lparr> ws_members := [bob\<lparr> wm_role := ''admin'' \<rparr>] \<rparr> \<rparr>"

lemma stored_team_simps [simp]: "w_spec stored_team = team_spec" "w_name stored_team = ''team''"
  by (simp_all add: stored_team_def)

lemma bob_not_allowed: "\<not> may_modify ''system:serviceaccount:o:m'' bob_user stored_team"
  by (simp add: may_modify_def bob_user_def AuthorizeModification_def isPrivileged_def
      isWorkspaceAdmin_def privilegedGroups_def slices_contains_def MemberRoleAdmin_def)

lemma bob_refused:
  "requests ''system:serviceaccount:o:m'' (Map.empty(''team'' \<mapsto> stored_team))
     [UpdateWorkspace bob_user team_without_alice, DeleteWorkspace bob_user ''team'']
     (Map.empty(''team'' \<mapsto> stored_team))"
proof -
  have name: "w_name team_without_alice = ''team''"
    by (simp add: team_without_alice_def)
  have "\<forall>S'. \<not> admitted ''system:serviceaccount:o:m'' (Map.empty(''team'' \<mapsto> stored_team))
      (UpdateWorkspace bob_user team_without_alice) S'"
    using bob_not_allowed by (auto simp: admitted_update name)
  moreover have "\<forall>S'. \<not> admitted ''system:serviceaccount:o:m'' (Map.empty(''team'' \<mapsto> stored_team))
      (DeleteWorkspace bob_user ''team'') S'"
    using bob_not_allowed by (auto simp: admitted_delete)
  ultimately show ?thesis by (intro requests.refuse requests.none)
qed

theorem no_escalation_witness:
  "\<exists>w'. (Map.empty(''team'' \<mapsto> stored_team)) ''team'' = Some w'
     \<and> w_meta w' = w_meta stored_team \<and> w_spec w' = w_spec stored_team"
  by (rule no_escalation [OF bob_refused])
    (use bob_not_allowed in \<open>auto simp: may_modify_def\<close>)

theorem namespace_constant_witness:
  "\<exists>w'. (Map.empty(''team'' \<mapsto> stored_team\<lparr> w_status := empty_status\<lparr> st_observed_generation := 1 \<rparr> \<rparr>))
     ''team'' = Some w' \<and> w_namespace w' = ''team-a''"
proof -
  let ?S = "Map.empty(''team'' \<mapsto> stored_team)"
  let ?st = "empty_status\<lparr> st_observed_generation := 1 \<rparr>"
  have "requests operatorSA ?S [WriteStatus bob_user ''team'' ?st]
      (?S(''team'' \<mapsto> stored_team\<lparr> w_status := ?st \<rparr>))" for operatorSA
    by (intro requests.admit [OF admitted.status requests.none]) simp
  from namespace_constant [OF this, of "''team''" stored_team] show ?thesis by simp
qed

section \<open>The operator's identity\<close>

text \<open>
  No member of a Workspace that satisfies the rules of the CRD has the user name of a
  service account as its subject: the exemption of the operator's own identity cannot be
  obtained by listing it as a member, and no service account can be an admin.
\<close>

theorem operator_identity_unforgeable:
  assumes "valid_workspace_spec sp" and "m \<in> set (ws_members sp)"
  shows "wm_subject m \<noteq> OperatorServiceAccountIdentity ns sa"
proof -
  have "valid_subject (wm_subject m)"
    using assms by (auto simp: valid_workspace_spec_def list_all_iff valid_member_def)
  then have "CHR '':'' \<notin> set (wm_subject m)" by (rule valid_subject_no_colon)
  then show ?thesis by (auto simp: OperatorServiceAccountIdentity_def)
qed

theorem operator_identity_unforgeable_witness:
  "wm_subject alice \<noteq> OperatorServiceAccountIdentity ''otterscale-system'' ''manager''"
  by (rule operator_identity_unforgeable [OF team_valid]) simp

lemma service_account_not_admin:
  assumes "good_workspace w"
  shows "\<not> isWorkspaceAdmin (OperatorServiceAccountIdentity ns sa) w"
  using assms operator_identity_unforgeable by (auto simp: good_workspace_def isWorkspaceAdmin_iff)

text \<open>
  C30: Service accounts. No service account but the operator's own (and those in a privileged
  group) ever gets an update or a deletion of a stored Workspace admitted, whatever its role in
  the cluster and whatever the Workspace lists as members. This keeps automation of tenants out;
  it also shuts out the garbage collector of Kubernetes, which finishes a foreground deletion by
  an update that takes its finalizer off the object.
\<close>

theorem service_accounts_refused:
  assumes "requests operatorSA Map.empty rs S" and "S n = Some w"
    and "\<not> isPrivileged u" and "user_name u = OperatorServiceAccountIdentity ns sa"
    and "user_name u \<noteq> operatorSA"
  shows "\<not> admitted operatorSA S (DeleteWorkspace u n) S'
    \<and> (w_name w' = n \<longrightarrow> \<not> admitted operatorSA S (UpdateWorkspace u w') S')"
proof -
  have "good_store S" using requests_good [OF assms(1)] by (simp add: good_store_def)
  with assms(2) have "good_workspace w" by (simp add: good_store_def)
  from service_account_not_admin [OF this] assms(3-5) have "\<not> may_modify operatorSA u w"
    by (simp add: may_modify_def AuthorizeModification_def)
  with assms(2) show ?thesis by (simp add: admitted_delete admitted_update)
qed

text \<open>The garbage collector takes the finalizer of a foreground deletion off.\<close>

definition garbage_collector :: user_info where
  "garbage_collector = \<lparr> user_name = ''system:serviceaccount:kube-system:generic-garbage-collector'',
     user_groups = [''system:serviceaccounts'', ''system:serviceaccounts:kube-system'',
       ''system:authenticated''] \<rparr>"

theorem service_accounts_refused_witness:
  "\<nexists>S'. admitted ''system:serviceaccount:o:m'' (Map.empty(''team'' \<mapsto> stored_team))
     (UpdateWorkspace garbage_collector
       (stored_team\<lparr> w_meta := (w_meta stored_team)\<lparr> meta_finalizers := [] \<rparr> \<rparr>)) S'"
proof -
  have "\<not> isPrivileged garbage_collector"
    by (simp add: isPrivileged_def garbage_collector_def privilegedGroups_def slices_contains_def)
  moreover have "user_name garbage_collector =
      OperatorServiceAccountIdentity ''kube-system'' ''generic-garbage-collector''"
    "user_name garbage_collector \<noteq> ''system:serviceaccount:o:m''"
    by (simp_all add: garbage_collector_def OperatorServiceAccountIdentity_def)
  ultimately show ?thesis
    using service_accounts_refused [OF create_team_requests, of "''team''" stored_team garbage_collector
        "''kube-system''" "''generic-garbage-collector''"]
    by simp
qed

end
