(* ===== verification/Workspace_Namespace.thy ===== *)
theory Workspace_Namespace
  imports Workspace_Helpers
begin

text \<open>
  \<open>internal/core/workspace/namespace.go\<close>: the Namespace of a Workspace, with the guard
  against taking over a namespace that belongs to somebody else.
\<close>

definition istio_injection_label :: string where
  "istio_injection_label = ''istio-injection''"

declare istio_injection_label_def [go_defs]

definition namespace_labels :: "workspace \<Rightarrow> string \<Rightarrow> bool \<Rightarrow> labels option \<Rightarrow> labels" where
  "namespace_labels w version istioEnabled l =
     (let l1 = (case l of None \<Rightarrow> Map.empty | Some m \<Rightarrow> m);
          l2 = maps_copy l1 (LabelsForWorkspace (w_name w) version)
      in if istioEnabled then l2(istio_injection_label \<mapsto> ''enabled'')
         else l2(istio_injection_label := None))"

definition mutate_namespace ::
  "'s kube \<Rightarrow> workspace \<Rightarrow> string \<Rightarrow> bool \<Rightarrow> kobject \<Rightarrow> go_error + kobject" where
  "mutate_namespace K w version istioEnabled ob =
     (if \<not> IsOwned (owner_references (obj_meta ob)) (w_uid w)
         \<and> creation_timestamp (obj_meta ob) \<noteq> None
      then Inl (NamespaceConflictError (meta_name (obj_meta ob)))
      else own_by K (workspace_owner w)
             (set_labels (Some (namespace_labels w version istioEnabled (meta_labels (obj_meta ob)))) ob))"

definition ReconcileNamespace :: "'s kube \<Rightarrow> workspace \<Rightarrow> string \<Rightarrow> bool \<Rightarrow> 's step" where
  "ReconcileNamespace K w version istioEnabled =
     k_create_or_update K (new_object NamespaceKind '''' (w_namespace w))
       (mutate_namespace K w version istioEnabled)"

section \<open>The state it establishes\<close>

definition namespace_key :: "workspace \<Rightarrow> key" where
  "namespace_key w = (NamespaceKind, '''', w_namespace w)"

text \<open>
  The namespace exists, is controlled by the Workspace, carries the operator's labels among
  whatever others it has, the label the API server gives it, and the injection label exactly
  when Istio is there.
\<close>

definition namespace_ready ::
  "'s kube \<Rightarrow> (obj_spec \<Rightarrow> obj_spec) \<Rightarrow> workspace \<Rightarrow> string \<Rightarrow> bool \<Rightarrow> kobject option \<Rightarrow> bool" where
  "namespace_ready K dflt w version istioEnabled x =
     (case x of None \<Rightarrow> False
      | Some ob \<Rightarrow> settled_owner K (workspace_owner w) (obj_meta ob)
          \<and> creation_timestamp (obj_meta ob) \<noteq> None
          \<and> obj_spec ob = dflt (obj_spec ob)
          \<and> (\<exists>l. obj_labels ob = Some l
               \<and> maps_copy l (LabelsForWorkspace (w_name w) version) = l
               \<and> l name_label = Some (meta_name (obj_meta ob))
               \<and> l istio_injection_label = (if istioEnabled then Some ''enabled'' else None)))"

definition foreign_namespace :: "workspace \<Rightarrow> kobject \<Rightarrow> bool" where
  "foreign_namespace w ob \<longleftrightarrow> \<not> IsOwned (owner_references (obj_meta ob)) (w_uid w)
     \<and> creation_timestamp (obj_meta ob) \<noteq> None"

lemma namespace_labels_istio:
  "namespace_labels w version istio l istio_injection_label =
     (if istio then Some ''enabled'' else None)"
  by (simp add: namespace_labels_def Let_def)

lemma LabelsForWorkspace_no_istio [simp]: "LabelsForWorkspace w version istio_injection_label = None"
proof -
  have "istio_injection_label \<notin> dom (LabelsForWorkspace w version)"
    unfolding LabelsForWorkspace_def dom_Standard
    by (simp add: label_keys istio_injection_label_def)
  then show ?thesis by blast
qed

lemma name_label_fresh [simp]:
  "LabelsForWorkspace w version name_label = None" "name_label \<noteq> istio_injection_label"
  "istio_injection_label \<noteq> name_label"
proof -
  have "name_label \<notin> dom (LabelsForWorkspace w version)"
    unfolding LabelsForWorkspace_def dom_Standard by (simp add: label_keys name_label_def)
  then show "LabelsForWorkspace w version name_label = None" by blast
qed (simp_all add: name_label_def istio_injection_label_def)

lemma namespace_labels_absorb:
  "maps_copy (namespace_labels w version istio l) (LabelsForWorkspace (w_name w) version) =
     namespace_labels w version istio l"
  by (auto simp: namespace_labels_def Let_def maps_copy_def map_add_def fun_eq_iff
      split: option.splits)

lemma namespace_labels_other:
  "k \<noteq> istio_injection_label \<Longrightarrow> LabelsForWorkspace (w_name w) version k = None \<Longrightarrow>
     namespace_labels w version istio l k = labels_or_empty l k"
  by (simp add: namespace_labels_def Let_def maps_copy_other labels_or_empty_def)

lemma namespace_labels_settled:
  "maps_copy l (LabelsForWorkspace (w_name w) version) = l \<Longrightarrow>
   l istio_injection_label = (if istio then Some ''enabled'' else None) \<Longrightarrow>
     namespace_labels w version istio (Some l) = l"
  by (auto simp: namespace_labels_def Let_def fun_eq_iff)

context kube_api
begin

lemma mutate_namespace_ok:
  assumes key: "key_of b = key_of (new_object NamespaceKind '''' n)"
    and "mutate_namespace K w version istio b = Inr ob'" and "written dflt ob' x"
  shows "namespace_ready K dflt w version istio (Some x)"
proof -
  let ?l = "namespace_labels w version istio (meta_labels (obj_meta b))"
  have own: "own_by K (workspace_owner w) (set_labels (Some ?l) b) = Inr ob'"
    using assms(2) by (simp add: mutate_namespace_def split: if_splits)
  have ob': "key_of ob' = (NamespaceKind, '''', n)" using own_by_ok(1) [OF own] key by (simp add: key_of_def set_labels_def)
  have "meta_labels (obj_meta x) = served_labels (key_of ob') (meta_labels (obj_meta ob'))"
    using assms(3) by (simp add: written_def)
  then have "obj_labels x = Some (?l(name_label \<mapsto> n))"
    using own_by_ok(3) [OF own] by (simp add: ob' obj_labels_def)
  with own_by_ok(5) [OF own] assms(3)
  have x: "settled_owner K (workspace_owner w) (obj_meta x)" "obj_labels x = Some (?l(name_label \<mapsto> n))"
    "creation_timestamp (obj_meta x) \<noteq> None" "obj_spec x = dflt (obj_spec ob')"
    by (auto simp: written_def)
  have name: "meta_name (obj_meta x) = n" using assms(3) ob' by (simp add: written_def key_of_def)
  have "maps_copy (?l(name_label \<mapsto> n)) (LabelsForWorkspace (w_name w) version) = ?l(name_label \<mapsto> n)"
    using namespace_labels_absorb [of w version istio "meta_labels (obj_meta b)"]
    by (simp add: maps_copy_upd)
  then show ?thesis
    using x name by (simp add: namespace_ready_def namespace_labels_istio dflt_idem)
qed

lemma mutate_namespace_settled:
  assumes key: "key_of x = key_of (new_object NamespaceKind '''' n)"
    and "namespace_ready K dflt w version istio (Some x)"
  shows "\<exists>ob'. mutate_namespace K w version istio x = Inr ob' \<and> written dflt ob' x"
proof -
  obtain l where x: "settled_owner K (workspace_owner w) (obj_meta x)"
    "creation_timestamp (obj_meta x) \<noteq> None" "obj_spec x = dflt (obj_spec x)"
    and l: "meta_labels (obj_meta x) = Some l"
    "maps_copy l (LabelsForWorkspace (w_name w) version) = l" "l name_label = Some (meta_name (obj_meta x))"
    "l istio_injection_label = (if istio then Some ''enabled'' else None)"
    using assms(2) by (auto simp: namespace_ready_def obj_labels_def)
  have same: "set_labels (Some (namespace_labels w version istio (Some l))) x = x"
    using l by (simp add: namespace_labels_settled set_labels_def)
  have "IsOwned (owner_references (obj_meta x)) (w_uid w)"
    using x(1) by (simp add: settled_owner_def controlled_by_IsOwned)
  with same l(1) x(1) have "mutate_namespace K w version istio x = Inr x"
    by (simp add: mutate_namespace_def own_by_settled)
  moreover have "served_labels (key_of x) (Some l) = Some l" using l(3) by (auto simp: key_of_def fun_eq_iff)
  with x l(1) have "written dflt x x" by (simp add: written_def)
  ultimately show ?thesis by blast
qed

lemma namespace_goal_eq:
  "(\<lambda>v. \<exists>x. v k = Some x \<and> namespace_ready K dflt w version istio (Some x))
     = (\<lambda>v. namespace_ready K dflt w version istio (v k))"
  by (auto simp: fun_eq_iff namespace_ready_def split: option.splits)

lemma namespace_step:
  "reconcile_step view (ReconcileNamespace K w version istio) {namespace_key w}
     (\<lambda>v. namespace_ready K dflt w version istio (v (namespace_key w)))"
proof -
  have "reconcile_step view (ReconcileNamespace K w version istio)
      {key_of (new_object NamespaceKind '''' (w_namespace w))}
      (\<lambda>v. \<exists>x. v (key_of (new_object NamespaceKind '''' (w_namespace w))) = Some x
         \<and> namespace_ready K dflt w version istio (Some x))"
    unfolding ReconcileNamespace_def by (rule create_or_update_step) (rule mutate_namespace_ok)
  then show ?thesis by (simp add: namespace_key_def namespace_goal_eq)
qed

lemma namespace_quiet:
  "quiet_on view (ReconcileNamespace K w version istio)
     (\<lambda>v. namespace_ready K dflt w version istio (v (namespace_key w)))"
proof -
  have "quiet_on view (ReconcileNamespace K w version istio)
      (\<lambda>v. \<exists>x. v (key_of (new_object NamespaceKind '''' (w_namespace w))) = Some x
         \<and> namespace_ready K dflt w version istio (Some x))"
    unfolding ReconcileNamespace_def by (rule create_or_update_quiet) (rule mutate_namespace_settled)
  then show ?thesis by (simp add: namespace_key_def namespace_goal_eq)
qed

lemma mutate_namespace_error:
  "mutate_namespace K w version istio ob = Inl c \<Longrightarrow>
     (foreign_namespace w ob \<and> c = NamespaceConflictError (meta_name (obj_meta ob))) \<or> external c"
  by (auto simp: mutate_namespace_def foreign_namespace_def dest: own_by_external split: if_splits)

text \<open>A foreign namespace makes the step fail without touching any object.\<close>

lemma namespace_refused:
  assumes x: "view s (namespace_key w) = Some x" "foreign_namespace w x"
    and run: "ReconcileNamespace K w version istio s = (r, s')"
  shows "view s' = view s"
    and "\<exists>e. r = Some e \<and> (as_NamespaceConflictError e = Some (w_namespace w) \<or> external e)"
proof -
  have key: "key_of x = (NamespaceKind, '''', w_namespace w)"
    using view_key [OF x(1)] by (simp add: namespace_key_def)
  have base: "base_of view s (new_object NamespaceKind '''' (w_namespace w)) = x"
    using x(1) by (simp add: base_of_def namespace_key_def)
  have "mutate_namespace K w version istio x = Inl (NamespaceConflictError (w_namespace w))"
    using x(2) key by (simp add: mutate_namespace_def foreign_namespace_def key_of_def)
  then have f: "mutate_namespace K w version istio
      (base_of view s (new_object NamespaceKind '''' (w_namespace w)))
      = Inl (NamespaceConflictError (w_namespace w))"
    by (simp add: base)
  note refused = create_or_update_refused [OF run [unfolded ReconcileNamespace_def] f]
  show "view s' = view s" by (rule refused(1))
  show "\<exists>e. r = Some e \<and> (as_NamespaceConflictError e = Some (w_namespace w) \<or> external e)"
    using refused(2) as_NamespaceConflictError_unwraps by fastforce
qed

text \<open>The step reports a conflict only for a foreign namespace.\<close>

lemma namespace_conflict_only_foreign:
  assumes run: "ReconcileNamespace K w version istio s = (Some e, s')"
    and e: "as_NamespaceConflictError e = Some n"
  shows "\<exists>x. view s (namespace_key w) = Some x \<and> foreign_namespace w x"
proof -
  let ?b = "base_of view s (new_object NamespaceKind '''' (w_namespace w))"
  have "\<not> external e" using e by (simp add: external_def)
  then obtain c where c: "mutate_namespace K w version istio ?b = Inl c" "unwraps_to e c"
    using create_or_update_error [OF run [unfolded ReconcileNamespace_def]] by auto
  have "\<not> external c" using c(2) \<open>\<not> external e\<close> external_unwraps by blast
  with mutate_namespace_error [OF c(1)] have "foreign_namespace w ?b" by blast
  then show ?thesis
    by (auto simp: base_of_def namespace_key_def foreign_namespace_def split: option.splits)
qed

end

sublocale kube_api \<subseteq> ns: reconcile_step view "ReconcileNamespace K w version istio"
  "{namespace_key w}" "\<lambda>v. namespace_ready K dflt w version istio (v (namespace_key w))"
  for w version istio
  by (rule namespace_step)

end
