(* ===== verification/Workspace_Children.thy ===== *)
theory Workspace_Children
  imports Workspace_Helpers
begin

text \<open>
  The namespaced children of a Workspace: the RoleBindings
  (\<open>internal/core/workspace/rbac.go\<close>), the ResourceQuota and the LimitRange
  (\<open>resource_constraints.go\<close>). Each reconcile function writes the object its spec asks for or
  deletes it, and is shown to keep the reconcile-step contract.
\<close>

section \<open>RoleBindings\<close>

definition membersByRole :: "workspace_member list \<Rightarrow> member_role \<Rightarrow> workspace_member list" where
  "membersByRole ms =
     fold (\<lambda>member m. m(wm_role member := m (wm_role member) @ [member])) ms (\<lambda>_. [])"

definition member_subject :: "workspace_member \<Rightarrow> rbac_subject" where
  "member_subject m =
     \<lparr> subject_kind = ''User'', subject_api_group = ''rbac.authorization.k8s.io'',
       subject_name = wm_subject m \<rparr>"

fun binding_subjects :: "rbac_subject list \<Rightarrow> workspace_member list \<Rightarrow> rbac_subject list" where
  "binding_subjects acc [] = acc"
| "binding_subjects acc (m # ms) = binding_subjects (acc @ [member_subject m]) ms"

definition cluster_role_ref :: "member_role \<Rightarrow> role_ref" where
  "cluster_role_ref role =
     \<lparr> role_ref_kind = ''ClusterRole'', role_ref_api_group = ''rbac.authorization.k8s.io'',
       role_ref_name = role \<rparr>"

definition role_binding_name :: "member_role \<Rightarrow> string" where
  "role_binding_name role = RoleBindingName @ ''-'' @ role"

definition mutate_role_binding ::
  "'s kube \<Rightarrow> workspace \<Rightarrow> string \<Rightarrow> member_role \<Rightarrow> workspace_member list \<Rightarrow> kobject
     \<Rightarrow> go_error + kobject" where
  "mutate_role_binding K w version role members ob =
     (let ob1 = set_labels (Some (LabelsForWorkspace (w_name w) version)) ob;
          ob2 = ob1\<lparr> obj_spec := RoleBindingSpec (binding_subjects [] members) (cluster_role_ref role) \<rparr>
      in own_by K (workspace_owner w) ob2)"

definition reconcileRoleBinding ::
  "'s kube \<Rightarrow> workspace \<Rightarrow> string \<Rightarrow> member_role \<Rightarrow> workspace_member list \<Rightarrow> 's step" where
  "reconcileRoleBinding K w version role members =
     (let name = role_binding_name role in
      if length members = 0
      then delete_ignoring_not_found K (RoleBindingKind, w_namespace w, name)
      else k_create_or_update K (new_object RoleBindingKind (w_namespace w) name)
             (mutate_role_binding K w version role members))"

definition orderedRoles :: "member_role list" where
  "orderedRoles = [MemberRoleAdmin, MemberRoleEdit, MemberRoleView]"

definition ReconcileRoleBindings :: "'s kube \<Rightarrow> workspace \<Rightarrow> string \<Rightarrow> 's step" where
  "ReconcileRoleBindings K w version =
     (let byRole = membersByRole (w_members w) in
      run_steps (map (\<lambda>role. reconcileRoleBinding K w version role (byRole role)) orderedRoles))"

subsection \<open>Grouping\<close>

lemma membersByRole_filter: "membersByRole ms role = filter (\<lambda>m. wm_role m = role) ms"
proof -
  have "fold (\<lambda>member m. m(wm_role member := m (wm_role member) @ [member])) ms f role =
      f role @ filter (\<lambda>m. wm_role m = role) ms" for f
    by (induction ms arbitrary: f) auto
  then show ?thesis by (simp add: membersByRole_def)
qed

lemma binding_subjects_map: "binding_subjects acc ms = acc @ map member_subject ms"
  by (induction ms arbitrary: acc) auto

lemma distinct_orderedRoles: "distinct orderedRoles"
  by (simp add: orderedRoles_def member_roles)

lemma role_binding_name_inject [simp]: "role_binding_name r = role_binding_name r' \<longleftrightarrow> r = r'"
  by (simp add: role_binding_name_def)

definition role_binding_key :: "workspace \<Rightarrow> member_role \<Rightarrow> key" where
  "role_binding_key w role = (RoleBindingKind, w_namespace w, role_binding_name role)"

text \<open>The binding a role should have: none without members, else exactly its members.\<close>

definition desired_role_binding :: "workspace \<Rightarrow> member_role \<Rightarrow> desired" where
  "desired_role_binding w role =
     (case filter (\<lambda>m. wm_role m = role) (w_members w) of
        [] \<Rightarrow> MustBeAbsent
      | m # ms \<Rightarrow> MustExist (RoleBindingSpec (map member_subject (m # ms)) (cluster_role_ref role)))"

lemma mutate_role_binding_write:
  "mutate_role_binding K w version role ms =
     write_child K w version (RoleBindingSpec (map member_subject ms) (cluster_role_ref role))"
  by (simp add: fun_eq_iff mutate_role_binding_def write_child_def Let_def binding_subjects_map)

lemma reconcileRoleBinding_manage:
  "reconcileRoleBinding K w version role (membersByRole (w_members w) role) =
     manage_child K False w version (role_binding_key w role) (desired_role_binding w role)"
  by (simp add: reconcileRoleBinding_def membersByRole_filter desired_role_binding_def
      manage_child_def role_binding_key_def mutate_role_binding_write Let_def split: list.split)

lemma ReconcileRoleBindings_manage:
  "ReconcileRoleBindings K w version =
     run_steps (map (\<lambda>role. manage_child K False w version (role_binding_key w role)
       (desired_role_binding w role)) orderedRoles)"
  by (simp add: ReconcileRoleBindings_def reconcileRoleBinding_manage)

section \<open>ResourceQuota and LimitRange\<close>

definition mutate_quota ::
  "'s kube \<Rightarrow> workspace \<Rightarrow> string \<Rightarrow> json \<Rightarrow> kobject \<Rightarrow> go_error + kobject" where
  "mutate_quota K w version q ob =
     (let ob1 = set_labels (Some (LabelsForWorkspace (w_name w) version)) ob;
          ob2 = ob1\<lparr> obj_spec := ResourceQuotaSpec q \<rparr>
      in own_by K (workspace_owner w) ob2)"

definition ReconcileResourceQuota :: "'s kube \<Rightarrow> workspace \<Rightarrow> string \<Rightarrow> 's step" where
  "ReconcileResourceQuota K w version =
     (case ws_resource_quota (w_spec w) of
        None \<Rightarrow> delete_ignoring_not_found K (ResourceQuotaKind, w_namespace w, ResourceQuotaName)
      | Some q \<Rightarrow> k_create_or_update K (new_object ResourceQuotaKind (w_namespace w) ResourceQuotaName)
                    (mutate_quota K w version q))"

definition mutate_limits ::
  "'s kube \<Rightarrow> workspace \<Rightarrow> string \<Rightarrow> json \<Rightarrow> kobject \<Rightarrow> go_error + kobject" where
  "mutate_limits K w version l ob =
     (let ob1 = set_labels (Some (LabelsForWorkspace (w_name w) version)) ob;
          ob2 = ob1\<lparr> obj_spec := LimitRangeSpec l \<rparr>
      in own_by K (workspace_owner w) ob2)"

definition ReconcileLimitRange :: "'s kube \<Rightarrow> workspace \<Rightarrow> string \<Rightarrow> 's step" where
  "ReconcileLimitRange K w version =
     (case ws_limit_range (w_spec w) of
        None \<Rightarrow> delete_ignoring_not_found K (LimitRangeKind, w_namespace w, LimitRangeName)
      | Some l \<Rightarrow> k_create_or_update K (new_object LimitRangeKind (w_namespace w) LimitRangeName)
                    (mutate_limits K w version l))"

definition desired_quota :: "workspace \<Rightarrow> desired" where
  "desired_quota w =
     (case ws_resource_quota (w_spec w) of None \<Rightarrow> MustBeAbsent
      | Some q \<Rightarrow> MustExist (ResourceQuotaSpec q))"

definition desired_limits :: "workspace \<Rightarrow> desired" where
  "desired_limits w =
     (case ws_limit_range (w_spec w) of None \<Rightarrow> MustBeAbsent
      | Some l \<Rightarrow> MustExist (LimitRangeSpec l))"

definition quota_key :: "workspace \<Rightarrow> key" where
  "quota_key w = (ResourceQuotaKind, w_namespace w, ResourceQuotaName)"

definition limits_key :: "workspace \<Rightarrow> key" where
  "limits_key w = (LimitRangeKind, w_namespace w, LimitRangeName)"

lemma ReconcileResourceQuota_manage:
  "ReconcileResourceQuota K w version =
     manage_child K False w version (quota_key w) (desired_quota w)"
proof -
  have "mutate_quota K w version q = write_child K w version (ResourceQuotaSpec q)" for q
    by (simp add: fun_eq_iff mutate_quota_def write_child_def Let_def)
  then show ?thesis
    by (simp add: ReconcileResourceQuota_def desired_quota_def manage_child_def quota_key_def
        split: option.split)
qed

lemma ReconcileLimitRange_manage:
  "ReconcileLimitRange K w version =
     manage_child K False w version (limits_key w) (desired_limits w)"
proof -
  have "mutate_limits K w version l = write_child K w version (LimitRangeSpec l)" for l
    by (simp add: fun_eq_iff mutate_limits_def write_child_def Let_def)
  then show ?thesis
    by (simp add: ReconcileLimitRange_def desired_limits_def manage_child_def limits_key_def
        split: option.split)
qed

section \<open>The reconcile-step contracts\<close>

context kube_api
begin

lemma role_bindings_step:
  "reconcile_step view (ReconcileRoleBindings K w version)
     (role_binding_key w ` set orderedRoles)
     (\<lambda>v. \<forall>role \<in> set orderedRoles.
        conforms K dflt w version (desired_role_binding w role) (v (role_binding_key w role)))"
proof -
  have "reconcile_step view (ReconcileRoleBindings K w version)
      (\<Union>role \<in> set orderedRoles. {role_binding_key w role})
      (\<lambda>v. \<forall>role \<in> set orderedRoles.
        conforms K dflt w version (desired_role_binding w role) (v (role_binding_key w role)))"
    unfolding ReconcileRoleBindings_manage
    by (rule reconcile_step_run [OF manage_child_step distinct_orderedRoles])
      (auto simp: role_binding_key_def)
  then show ?thesis by (simp add: UNION_singleton_eq_range)
qed

lemma role_bindings_quiet:
  "quiet_on view (ReconcileRoleBindings K w version)
     (\<lambda>v. \<forall>role \<in> set orderedRoles.
        conforms K dflt w version (desired_role_binding w role) (v (role_binding_key w role)))"
  unfolding ReconcileRoleBindings_manage by (rule quiet_on_run) (rule manage_child_quiet)

lemma role_bindings_external:
  assumes "ReconcileRoleBindings K w version s = (Some e, s')"
  shows "external e"
proof -
  have "run_steps (map (\<lambda>role. manage_child K False w version (role_binding_key w role)
      (desired_role_binding w role)) roles) s = (Some e, s') \<Longrightarrow> external e" for roles s
    by (induction roles arbitrary: s)
      (auto split: prod.splits option.splits intro: manage_child_external)
  with assms show ?thesis by (simp add: ReconcileRoleBindings_manage)
qed

end

sublocale kube_api \<subseteq> role_bindings: reconcile_step view "ReconcileRoleBindings K w version"
  "role_binding_key w ` set orderedRoles"
  "\<lambda>v. \<forall>role \<in> set orderedRoles.
     conforms K dflt w version (desired_role_binding w role) (v (role_binding_key w role))"
  for w version
  by (rule role_bindings_step)

sublocale kube_api \<subseteq> quota: reconcile_step view "ReconcileResourceQuota K w version"
  "{quota_key w}" "\<lambda>v. conforms K dflt w version (desired_quota w) (v (quota_key w))"
  for w version
  unfolding ReconcileResourceQuota_manage by (rule manage_child_step)

sublocale kube_api \<subseteq> limits: reconcile_step view "ReconcileLimitRange K w version"
  "{limits_key w}" "\<lambda>v. conforms K dflt w version (desired_limits w) (v (limits_key w))"
  for w version
  unfolding ReconcileLimitRange_manage by (rule manage_child_step)

end
