(* ===== verification/Network_Isolation.thy ===== *)
theory Network_Isolation
  imports Workspace_Helpers Workspace_Samples
begin

text \<open>
  \<open>internal/core/workspace/network_isolation.go\<close>: ingress isolation of a Workspace, by a
  NetworkPolicy without Istio and by a PeerAuthentication with an AuthorizationPolicy with
  it. The last section states what the two kinds of policy let through, after the
  documentation of Kubernetes and Istio, and compares the two back ends.
\<close>

section \<open>The reconcile functions\<close>

definition same_namespace_rule :: "network_policy_peer list" where
  "same_namespace_rule = [\<lparr> pod_selector = Some [], namespace_selector = None \<rparr>]"

definition namespace_rule :: "string \<Rightarrow> network_policy_peer list" where
  "namespace_rule ns =
     [\<lparr> pod_selector = None, namespace_selector = Some [(''kubernetes.io/metadata.name'', ns)] \<rparr>]"

fun ingress_rules :: "network_policy_peer list list \<Rightarrow> string list \<Rightarrow> network_policy_peer list list" where
  "ingress_rules rules [] = rules"
| "ingress_rules rules (ns # nss) = ingress_rules (rules @ [namespace_rule ns]) nss"

definition network_policy_for :: "workspace \<Rightarrow> network_policy_spec" where
  "network_policy_for w =
     \<lparr> np_pod_selector = [], np_policy_types = [''Ingress''],
       np_ingress = ingress_rules [same_namespace_rule] (w_allowed w) \<rparr>"

definition mutate_network_policy ::
  "'s kube \<Rightarrow> workspace \<Rightarrow> string \<Rightarrow> kobject \<Rightarrow> go_error + kobject" where
  "mutate_network_policy K w version ob =
     (let ob1 = set_labels (Some (LabelsForWorkspace (w_name w) version)) ob;
          ob2 = ob1\<lparr> obj_spec := NetworkPolicySpec (network_policy_for w) \<rparr>
      in own_by K (workspace_owner w) ob2)"

definition reconcileNetworkPolicy :: "'s kube \<Rightarrow> workspace \<Rightarrow> string \<Rightarrow> bool \<Rightarrow> 's step" where
  "reconcileNetworkPolicy K w version istioEnabled =
     (if \<not> w_isolated w \<or> istioEnabled
      then delete_ignoring_not_found K (NetworkPolicyKind, w_namespace w, NetworkPolicyName)
      else k_create_or_update K (new_object NetworkPolicyKind (w_namespace w) NetworkPolicyName)
             (mutate_network_policy K w version))"

definition peer_authentication_for :: "peer_authentication_spec" where
  "peer_authentication_for = \<lparr> pa_selector = [], pa_mtls_mode = MutualTLS_STRICT \<rparr>"

definition mutate_peer_authentication ::
  "'s kube \<Rightarrow> workspace \<Rightarrow> string \<Rightarrow> kobject \<Rightarrow> go_error + kobject" where
  "mutate_peer_authentication K w version ob =
     (let ob1 = set_labels (Some (LabelsForWorkspace (w_name w) version)) ob;
          ob2 = ob1\<lparr> obj_spec := PeerAuthenticationSpec peer_authentication_for \<rparr>
      in own_by K (workspace_owner w) ob2)"

definition reconcilePeerAuthentication :: "'s kube \<Rightarrow> workspace \<Rightarrow> string \<Rightarrow> bool \<Rightarrow> 's step" where
  "reconcilePeerAuthentication K w version istioEnabled =
     (if \<not> w_isolated w \<or> \<not> istioEnabled
      then delete_ignoring_no_match K (PeerAuthenticationKind, w_namespace w, PeerAuthenticationName)
      else k_create_or_update K
             (new_object PeerAuthenticationKind (w_namespace w) PeerAuthenticationName)
             (mutate_peer_authentication K w version))"

definition authorization_policy_for :: "workspace \<Rightarrow> authorization_policy_spec" where
  "authorization_policy_for w =
     (let allowedNamespaces = [w_namespace w] @ w_allowed w in
      \<lparr> ap_selector = [], ap_rules = [[allowedNamespaces]], ap_action = AuthorizationPolicy_ALLOW \<rparr>)"

definition mutate_authorization_policy ::
  "'s kube \<Rightarrow> workspace \<Rightarrow> string \<Rightarrow> kobject \<Rightarrow> go_error + kobject" where
  "mutate_authorization_policy K w version ob =
     (let ob1 = set_labels (Some (LabelsForWorkspace (w_name w) version)) ob;
          ob2 = ob1\<lparr> obj_spec := AuthorizationPolicySpec (authorization_policy_for w) \<rparr>
      in own_by K (workspace_owner w) ob2)"

definition reconcileAuthorizationPolicy :: "'s kube \<Rightarrow> workspace \<Rightarrow> string \<Rightarrow> bool \<Rightarrow> 's step" where
  "reconcileAuthorizationPolicy K w version istioEnabled =
     (if \<not> w_isolated w \<or> \<not> istioEnabled
      then delete_ignoring_no_match K (AuthorizationPolicyKind, w_namespace w, AuthorizationPolicyName)
      else k_create_or_update K
             (new_object AuthorizationPolicyKind (w_namespace w) AuthorizationPolicyName)
             (mutate_authorization_policy K w version))"

definition ReconcileNetworkIsolation :: "'s kube \<Rightarrow> workspace \<Rightarrow> string \<Rightarrow> bool \<Rightarrow> 's step" where
  "ReconcileNetworkIsolation K w version istioEnabled =
     then_ok (reconcileNetworkPolicy K w version istioEnabled)
       (then_ok (reconcilePeerAuthentication K w version istioEnabled)
         (reconcileAuthorizationPolicy K w version istioEnabled))"

section \<open>Desired state and contract\<close>

definition network_policy_key :: "workspace \<Rightarrow> key" where
  "network_policy_key w = (NetworkPolicyKind, w_namespace w, NetworkPolicyName)"
definition peer_authentication_key :: "workspace \<Rightarrow> key" where
  "peer_authentication_key w = (PeerAuthenticationKind, w_namespace w, PeerAuthenticationName)"
definition authorization_policy_key :: "workspace \<Rightarrow> key" where
  "authorization_policy_key w = (AuthorizationPolicyKind, w_namespace w, AuthorizationPolicyName)"

definition desired_network_policy :: "workspace \<Rightarrow> bool \<Rightarrow> desired" where
  "desired_network_policy w istio =
     (if w_isolated w \<and> \<not> istio then MustExist (NetworkPolicySpec (network_policy_for w))
      else MustBeAbsent)"

definition desired_peer_authentication :: "workspace \<Rightarrow> bool \<Rightarrow> desired" where
  "desired_peer_authentication w istio =
     (if w_isolated w \<and> istio then MustExist (PeerAuthenticationSpec peer_authentication_for)
      else MustBeAbsent)"

definition desired_authorization_policy :: "workspace \<Rightarrow> bool \<Rightarrow> desired" where
  "desired_authorization_policy w istio =
     (if w_isolated w \<and> istio
      then MustExist (AuthorizationPolicySpec (authorization_policy_for w)) else MustBeAbsent)"

lemma reconcileNetworkPolicy_manage:
  "reconcileNetworkPolicy K w version istio =
     manage_child K False w version (network_policy_key w) (desired_network_policy w istio)"
proof -
  have "mutate_network_policy K w version =
      write_child K w version (NetworkPolicySpec (network_policy_for w))"
    by (simp add: fun_eq_iff mutate_network_policy_def write_child_def Let_def)
  then show ?thesis
    by (simp add: reconcileNetworkPolicy_def desired_network_policy_def manage_child_def
        network_policy_key_def)
qed

lemma reconcilePeerAuthentication_manage:
  "reconcilePeerAuthentication K w version istio =
     manage_child K True w version (peer_authentication_key w) (desired_peer_authentication w istio)"
proof -
  have "mutate_peer_authentication K w version =
      write_child K w version (PeerAuthenticationSpec peer_authentication_for)"
    by (simp add: fun_eq_iff mutate_peer_authentication_def write_child_def Let_def)
  then show ?thesis
    by (simp add: reconcilePeerAuthentication_def desired_peer_authentication_def manage_child_def
        peer_authentication_key_def)
qed

lemma reconcileAuthorizationPolicy_manage:
  "reconcileAuthorizationPolicy K w version istio =
     manage_child K True w version (authorization_policy_key w) (desired_authorization_policy w istio)"
proof -
  have "mutate_authorization_policy K w version =
      write_child K w version (AuthorizationPolicySpec (authorization_policy_for w))"
    by (simp add: fun_eq_iff mutate_authorization_policy_def write_child_def Let_def)
  then show ?thesis
    by (simp add: reconcileAuthorizationPolicy_def desired_authorization_policy_def
        manage_child_def authorization_policy_key_def)
qed

lemmas network_isolation_manage = reconcileNetworkPolicy_manage
  reconcilePeerAuthentication_manage reconcileAuthorizationPolicy_manage

definition network_isolation_keys :: "workspace \<Rightarrow> key set" where
  "network_isolation_keys w =
     {network_policy_key w, peer_authentication_key w, authorization_policy_key w}"

definition network_isolated ::
  "'s kube \<Rightarrow> (obj_spec \<Rightarrow> obj_spec) \<Rightarrow> workspace \<Rightarrow> string \<Rightarrow> bool \<Rightarrow> (key \<Rightarrow> kobject option) \<Rightarrow> bool" where
  "network_isolated K dflt w version istio v \<longleftrightarrow>
     conforms K dflt w version (desired_network_policy w istio) (v (network_policy_key w))
     \<and> conforms K dflt w version (desired_peer_authentication w istio) (v (peer_authentication_key w))
     \<and> conforms K dflt w version (desired_authorization_policy w istio) (v (authorization_policy_key w))"

context kube_api
begin

lemma network_isolation_step:
  "reconcile_step view (ReconcileNetworkIsolation K w version istio)
     (network_isolation_keys w) (network_isolated K dflt w version istio)"
proof -
  have "reconcile_step view (ReconcileNetworkIsolation K w version istio)
      ({network_policy_key w} \<union> ({peer_authentication_key w} \<union> {authorization_policy_key w}))
      (\<lambda>v. conforms K dflt w version (desired_network_policy w istio) (v (network_policy_key w))
         \<and> conforms K dflt w version (desired_peer_authentication w istio) (v (peer_authentication_key w))
         \<and> conforms K dflt w version (desired_authorization_policy w istio) (v (authorization_policy_key w)))"
    unfolding ReconcileNetworkIsolation_def network_isolation_manage
    by (intro reconcile_step_then manage_child_step)
      (auto simp: network_policy_key_def peer_authentication_key_def authorization_policy_key_def)
  then show ?thesis
    by (simp add: network_isolation_keys_def network_isolated_def [abs_def] insert_commute)
qed

lemma network_isolation_quiet:
  "quiet_on view (ReconcileNetworkIsolation K w version istio) (network_isolated K dflt w version istio)"
  unfolding ReconcileNetworkIsolation_def network_isolation_manage network_isolated_def
  by (intro quiet_on_then manage_child_quiet)

lemma network_isolation_external:
  "ReconcileNetworkIsolation K w version istio s = (Some e, s') \<Longrightarrow> external e"
  unfolding ReconcileNetworkIsolation_def network_isolation_manage
  by (auto simp: then_ok_Some intro: manage_child_external)

end

sublocale kube_api \<subseteq> isolation: reconcile_step view "ReconcileNetworkIsolation K w version istio"
  "network_isolation_keys w" "network_isolated K dflt w version istio"
  for w version istio
  by (rule network_isolation_step)

section \<open>What the policies let through\<close>

text \<open>
  A source of traffic: the namespace of the sending pod, with the labels of that namespace
  and of the pod. The API server keeps the label \<open>kubernetes.io/metadata.name\<close> of every
  namespace equal to its name.
\<close>

record traffic_source =
  src_namespace :: string
  src_namespace_labels :: labels
  src_pod_labels :: labels

definition selector_matches :: "label_selector \<Rightarrow> labels \<Rightarrow> bool" where
  "selector_matches sel l = list_all (\<lambda>(k, v). l k = Some v) sel"

definition peer_matches :: "string \<Rightarrow> network_policy_peer \<Rightarrow> traffic_source \<Rightarrow> bool" where
  "peer_matches own p src =
     (case (namespace_selector p, pod_selector p) of
        (None, None) \<Rightarrow> False
      | (None, Some ps) \<Rightarrow> src_namespace src = own \<and> selector_matches ps (src_pod_labels src)
      | (Some ns, None) \<Rightarrow> selector_matches ns (src_namespace_labels src)
      | (Some ns, Some ps) \<Rightarrow> selector_matches ns (src_namespace_labels src)
          \<and> selector_matches ps (src_pod_labels src))"

text \<open>
  Ingress to a pod that a policy selects is allowed when one rule has a matching peer, or has
  no peers at all. A policy that does not cover ingress restricts nothing.
\<close>

definition network_policy_allows ::
  "string \<Rightarrow> network_policy_spec \<Rightarrow> labels \<Rightarrow> traffic_source \<Rightarrow> bool" where
  "network_policy_allows own p pod src \<longleftrightarrow>
     \<not> (selector_matches (np_pod_selector p) pod \<and> ''Ingress'' \<in> set (np_policy_types p))
     \<or> list_ex (\<lambda>peers. peers = [] \<or> list_ex (\<lambda>p. peer_matches own p src) peers) (np_ingress p)"

text \<open>
  An Istio source namespace is matched exactly, or by prefix, suffix or presence when the
  pattern has a star. An ALLOW policy lets a request through when one of its rules matches.
\<close>

definition istio_value_matches :: "string \<Rightarrow> string \<Rightarrow> bool" where
  "istio_value_matches pat v =
     (if pat = ''*'' then v \<noteq> ''''
      else if pat \<noteq> [] \<and> last pat = CHR ''*'' then prefix (butlast pat) v
      else if pat \<noteq> [] \<and> hd pat = CHR ''*'' then suffix (tl pat) v
      else pat = v)"

definition authorization_policy_allows ::
  "authorization_policy_spec \<Rightarrow> labels \<Rightarrow> traffic_source \<Rightarrow> bool" where
  "authorization_policy_allows p pod src \<longleftrightarrow>
     (let hit = selector_matches (ap_selector p) pod
          \<and> list_ex (\<lambda>froms. froms = [] \<or> list_ex (\<lambda>nss. nss = []
                \<or> list_ex (\<lambda>pat. istio_value_matches pat (src_namespace src)) nss) froms) (ap_rules p)
      in case ap_action p of
           AuthorizationPolicy_ALLOW \<Rightarrow> \<not> selector_matches (ap_selector p) pod \<or> hit
         | AuthorizationPolicy_DENY \<Rightarrow> \<not> hit)"

definition well_labelled :: "traffic_source \<Rightarrow> bool" where
  "well_labelled src \<longleftrightarrow>
     src_namespace_labels src ''kubernetes.io/metadata.name'' = Some (src_namespace src)"

text \<open>The abstract specification: traffic from the Workspace itself and its allowed namespaces.\<close>

definition isolation_allows :: "workspace \<Rightarrow> traffic_source \<Rightarrow> bool" where
  "isolation_allows w src \<longleftrightarrow>
     src_namespace src = w_namespace w \<or> src_namespace src \<in> set (w_allowed w)"

lemma ingress_rules_map: "ingress_rules rules nss = rules @ map namespace_rule nss"
  by (induction nss arbitrary: rules) auto

lemma namespace_rule_matches:
  assumes "well_labelled src"
  shows "list_ex (\<lambda>p. peer_matches own p src) (namespace_rule ns) \<longleftrightarrow> src_namespace src = ns"
  using assms by (auto simp: namespace_rule_def peer_matches_def selector_matches_def well_labelled_def)

lemma network_policy_for_allows:
  assumes "well_labelled src"
  shows "network_policy_allows (w_namespace w) (network_policy_for w) pod src = isolation_allows w src"
proof -
  have "network_policy_allows (w_namespace w) (network_policy_for w) pod src \<longleftrightarrow>
      src_namespace src = w_namespace w
      \<or> (\<exists>ns \<in> set (w_allowed w). list_ex (\<lambda>p. peer_matches (w_namespace w) p src) (namespace_rule ns))"
    by (auto simp: network_policy_allows_def network_policy_for_def ingress_rules_map
        same_namespace_rule_def peer_matches_def selector_matches_def list_ex_iff namespace_rule_def)
  also have "\<dots> \<longleftrightarrow> isolation_allows w src"
    by (auto simp: namespace_rule_matches [OF assms] isolation_allows_def)
  finally show ?thesis .
qed

lemma istio_value_exact: "CHR ''*'' \<notin> set pat \<Longrightarrow> istio_value_matches pat v \<longleftrightarrow> pat = v"
proof -
  assume star: "CHR ''*'' \<notin> set pat"
  then have "pat \<noteq> [] \<Longrightarrow> last pat \<noteq> CHR ''*''" "pat \<noteq> [] \<Longrightarrow> hd pat \<noteq> CHR ''*''" "pat \<noteq> ''*''"
    by (metis last_in_set, metis list.set_sel(1), auto)
  then show ?thesis by (auto simp: istio_value_matches_def)
qed

lemma authorization_policy_for_allows:
  assumes "valid_workspace_spec (w_spec w)"
  shows "authorization_policy_allows (authorization_policy_for w) pod src = isolation_allows w src"
proof -
  have "\<forall>ns \<in> set ([w_namespace w] @ w_allowed w). CHR ''*'' \<notin> set ns"
    using assms valid_namespace_no_star
    by (auto simp: valid_workspace_spec_def valid_network_isolation_def list_all_iff)
  then have "list_ex (\<lambda>pat. istio_value_matches pat (src_namespace src)) ([w_namespace w] @ w_allowed w)
      \<longleftrightarrow> isolation_allows w src"
    by (auto simp: list_ex_iff istio_value_exact isolation_allows_def)
  then show ?thesis
    by (simp add: authorization_policy_allows_def authorization_policy_for_def selector_matches_def
        Let_def)
qed

text \<open>
  C27: The two isolation back ends enforce the same rule. For a Workspace that satisfies the
  CRD's validation, the NetworkPolicy written without Istio and the AuthorizationPolicy written
  with Istio let through exactly the traffic from the Workspace's own namespace and from the
  allowed namespaces, whatever the labels of the receiving pod.
\<close>

theorem isolation_backends_agree:
  assumes "valid_workspace_spec (w_spec w)" and "well_labelled src"
  shows "network_policy_allows (w_namespace w) (network_policy_for w) pod src = isolation_allows w src
    \<and> authorization_policy_allows (authorization_policy_for w) pod src = isolation_allows w src"
  using network_policy_for_allows authorization_policy_for_allows assms by blast

definition from_team_b :: traffic_source where
  "from_team_b = \<lparr> src_namespace = ''team-b'',
     src_namespace_labels = [''kubernetes.io/metadata.name'' \<mapsto> ''team-b''],
     src_pod_labels = Map.empty \<rparr>"

theorem isolation_backends_agree_witness:
  "network_policy_allows (w_namespace team) (network_policy_for team) Map.empty from_team_b
   \<and> authorization_policy_allows (authorization_policy_for team) Map.empty from_team_b"
  using isolation_backends_agree [of team from_team_b Map.empty] team_valid
  by (simp add: well_labelled_def from_team_b_def isolation_allows_def)

end
