(* ===== verification/Istio_Detector.thy ===== *)
theory Istio_Detector
  imports Kube_Api
begin

text \<open>
  \<open>internal/controller/tenant/istio_detector.go\<close>: the flag that tells whether the Istio CRDs
  are served, refreshed through the Discovery API. The discovery client is third-party code:
  its call \<open>ServerResourcesForGroupVersion\<close> is the argument \<open>ask\<close>, which returns the error
  of the call (\<open>None\<close> when the group version is served).
\<close>

record 'd istio_detector =
  det_client :: "'d option"
  det_enabled :: bool

definition isResourceSupported :: "'s kube \<Rightarrow> (string \<Rightarrow> go_error option) \<Rightarrow> string \<Rightarrow> bool \<times> bool" where
  "isResourceSupported K ask groupVersion =
     (case ask groupVersion of
        None \<Rightarrow> (True, True)
      | Some err \<Rightarrow>
          if k_is_not_found K err \<or> k_reason_for_error K err \<noteq> '''' then (False, True)
          else (False, False))"

definition IsEnabled :: "'d istio_detector \<Rightarrow> bool" where
  "IsEnabled d = det_enabled d"

definition istio_group_version :: string where
  "istio_group_version = ''security.istio.io/v1''"

definition Refresh ::
  "'s kube \<Rightarrow> ('d \<Rightarrow> string \<Rightarrow> go_error option) \<Rightarrow> 'd istio_detector \<Rightarrow> 'd istio_detector" where
  "Refresh K ask d =
     (case det_client d of
        None \<Rightarrow> d
      | Some dc \<Rightarrow>
          (case isResourceSupported K (ask dc) istio_group_version of
             (supported, definitive) \<Rightarrow> if definitive then d\<lparr> det_enabled := supported \<rparr> else d))"

definition NewIstioDetector ::
  "'s kube \<Rightarrow> ('c \<Rightarrow> go_error + 'd) \<Rightarrow> ('d \<Rightarrow> string \<Rightarrow> go_error option) \<Rightarrow> 'c option
     \<Rightarrow> 'd istio_detector" where
  "NewIstioDetector K newClient ask config =
     (let d = \<lparr> det_client = None, det_enabled = False \<rparr>;
          d' = (case config of
                  None \<Rightarrow> d
                | Some c \<Rightarrow> (case newClient c of
                     Inl err \<Rightarrow> d
                   | Inr dc \<Rightarrow> d\<lparr> det_client := Some dc \<rparr>))
      in Refresh K ask d')"

section \<open>The detector as a state machine\<close>

text \<open>
  A detector is refreshed once at start and once per event on an Istio CRD, each time with the
  answer the API server gives then. A run is the list of those answers.
\<close>

definition refreshes ::
  "'s kube \<Rightarrow> ('d \<Rightarrow> string \<Rightarrow> go_error option) list \<Rightarrow> 'd istio_detector \<Rightarrow> 'd istio_detector" where
  "refreshes K asks d = fold (Refresh K) asks d"

text \<open>
  The specification, which does not mention the code: what one answer of the API server says
  about Istio. No error says yes; an error that carries a status of the API server (it has a
  reason, or is a NotFound) says no, whatever the status is; an error without one, from the
  transport, says nothing.
\<close>

definition server_status :: "'s kube \<Rightarrow> go_error \<Rightarrow> bool" where
  "server_status K err \<longleftrightarrow> k_is_not_found K err \<or> k_reason_for_error K err \<noteq> ''''"

definition answer :: "'s kube \<Rightarrow> 'd \<Rightarrow> ('d \<Rightarrow> string \<Rightarrow> go_error option) \<Rightarrow> bool option" where
  "answer K dc ask =
     (case ask dc ''security.istio.io/v1'' of
        None \<Rightarrow> Some True
      | Some err \<Rightarrow> if server_status K err then Some False else None)"

text \<open>The abstract detector: the last definitive answer, or the old value without one.\<close>

definition last_definitive :: "bool \<Rightarrow> bool option list \<Rightarrow> bool" where
  "last_definitive old answers =
     (case rev (filter (\<lambda>a. a \<noteq> None) answers) of [] \<Rightarrow> old | a # _ \<Rightarrow> the a)"

lemma Refresh_client [simp]: "det_client (Refresh K ask d) = det_client d"
  by (simp add: Refresh_def split: option.splits prod.splits)

lemma Refresh_enabled:
  "det_client d = Some dc \<Longrightarrow>
     det_enabled (Refresh K ask d) =
       (case answer K dc ask of None \<Rightarrow> det_enabled d | Some b \<Rightarrow> b)"
  by (simp add: Refresh_def isResourceSupported_def answer_def server_status_def istio_group_version_def
      split: option.splits)

lemma Refresh_without_client: "det_client d = None \<Longrightarrow> Refresh K ask d = d"
  by (simp add: Refresh_def)

lemma last_definitive_Nil [simp]: "last_definitive old [] = old"
  by (simp add: last_definitive_def)

lemma last_definitive_Cons:
  "last_definitive old (a # as) =
     last_definitive (case a of None \<Rightarrow> old | Some b \<Rightarrow> b) as"
  by (auto simp: last_definitive_def split: list.splits option.splits)

lemma refreshes_enabled:
  "det_client d = Some dc \<Longrightarrow>
     det_enabled (refreshes K asks d) = last_definitive (det_enabled d) (map (answer K dc) asks)"
proof (induction asks arbitrary: d)
  case Nil
  then show ?case by (simp add: refreshes_def)
next
  case (Cons ask asks)
  then show ?case
    by (simp add: refreshes_def last_definitive_Cons Refresh_enabled)
qed

lemma refreshes_without_client: "det_client d = None \<Longrightarrow> refreshes K asks d = d"
  by (induction asks) (simp_all add: refreshes_def Refresh_without_client)

text \<open>
  C34: The detector remembers the last definitive answer. After any run of refreshes, the flag
  of a detector built from a configuration whose client could be made is the last definitive
  answer of the API server, counting the initial one, and disabled when there was none. Definitive
  are no error (Istio is there) and an error with a status of the API server (it is not, also
  when the status is a passing one such as ServiceUnavailable); errors in transport never change
  the flag. Without a client it stays disabled whatever happens.
\<close>

theorem detector_last_definitive:
  "IsEnabled (refreshes K asks (NewIstioDetector K newClient ask config)) =
     (case config of
        None \<Rightarrow> False
      | Some c \<Rightarrow> (case newClient c of
           Inl _ \<Rightarrow> False
         | Inr dc \<Rightarrow> last_definitive False (map (answer K dc) (ask # asks))))"
  by (simp add: IsEnabled_def NewIstioDetector_def refreshes_enabled refreshes_without_client
      Refresh_without_client Refresh_enabled last_definitive_Cons
      split: option.splits sum.splits)

end
