(* ===== verification/Reconciler.thy ===== *)
theory Reconciler
  imports Kube_Api
begin

text \<open>
  What both controllers have in common: the fields of a reconciler besides the client, and
  the events it records. A \<open>Recorder\<close> is an interface value of third-party code; it may be
  nil, and a call on a nil interface panics.
\<close>

record event =
  ev_type :: string
  ev_reason :: string
  ev_action :: string
  ev_note :: string
  ev_args :: "string list"

record 's reconciler =
  rec_version :: string
  rec_recorder :: "(event \<Rightarrow> 's \<Rightarrow> 's) option"

definition Eventf :: "'s reconciler \<Rightarrow> event \<Rightarrow> 's \<Rightarrow> unit go_result \<times> 's" where
  "Eventf R ev s =
     (case rec_recorder R of None \<Rightarrow> (Panics, s) | Some rec \<Rightarrow> (Returns (), rec ev s))"

text \<open>\<open>r.Recorder.Eventf(...); return res\<close>\<close>

definition event_then :: "'s reconciler \<Rightarrow> event \<Rightarrow> 'a \<Rightarrow> 's \<Rightarrow> 'a go_result \<times> 's" where
  "event_then R ev res s =
     (case Eventf R ev s of (Panics, s') \<Rightarrow> (Panics, s') | (Returns _, s') \<Rightarrow> (Returns res, s'))"

definition warning_event :: "string \<Rightarrow> string \<Rightarrow> event" where
  "warning_event reason note =
     \<lparr> ev_type = ''Warning'', ev_reason = reason, ev_action = ''Reconcile'', ev_note = note,
       ev_args = [] \<rparr>"

definition reconciled_event :: "string \<Rightarrow> string \<Rightarrow> event" where
  "reconciled_event note arg =
     \<lparr> ev_type = ''Normal'', ev_reason = ''Reconciled'', ev_action = ''Reconcile'',
       ev_note = note, ev_args = [arg] \<rparr>"

lemma event_then_recorder:
  "rec_recorder R = Some rec \<Longrightarrow> event_then R ev res s = (Returns res, rec ev s)"
  by (simp add: event_then_def Eventf_def)

lemma event_then_nil: "rec_recorder R = None \<Longrightarrow> event_then R ev res s = (Panics, s)"
  by (simp add: event_then_def Eventf_def)

section \<open>The Ready condition\<close>

text \<open>\<open>slices.SortFunc\<close> with a comparison of the condition types.\<close>

definition sort_conditions :: "condition list \<Rightarrow> condition list" where
  "sort_conditions cs = sort_key cond_type cs"

definition ready_condition ::
  "condition_status \<Rightarrow> string \<Rightarrow> string \<Rightarrow> int \<Rightarrow> condition" where
  "ready_condition st reason message gen =
     \<lparr> cond_type = ''Ready'', cond_status = st, cond_reason = reason, cond_message = message,
       cond_observed_generation = gen, cond_last_transition = None \<rparr>"

lemma ready_condition_simps [simp]:
  "cond_type (ready_condition st reason message gen) = ''Ready''"
  "cond_status (ready_condition st reason message gen) = st"
  "cond_reason (ready_condition st reason message gen) = reason"
  "cond_message (ready_condition st reason message gen) = message"
  "cond_observed_generation (ready_condition st reason message gen) = gen"
  "cond_last_transition (ready_condition st reason message gen) = None"
  by (simp_all add: ready_condition_def)

text \<open>The Ready condition of a list, read the way the code and \<open>kubectl\<close> read it.\<close>

definition ready_of :: "condition list \<Rightarrow> condition option" where
  "ready_of cs = List.find (\<lambda>c. cond_type c = ''Ready'') cs"

lemma set_sort_conditions [simp]: "set (sort_conditions cs) = set cs"
  by (simp add: sort_conditions_def)

lemma sorted_sort_conditions: "sorted (map cond_type (sort_conditions cs))"
  by (simp add: sort_conditions_def)

lemma distinct_sort_conditions:
  "distinct (map cond_type (sort_conditions cs)) = distinct (map cond_type cs)"
  by (simp add: sort_conditions_def distinct_map)

lemma sort_conditions_sorted: "sorted (map cond_type cs) \<Longrightarrow> sort_conditions cs = cs"
  by (simp add: sort_conditions_def sort_key_id_if_sorted)

lemma sort_conditions_idem: "sort_conditions (sort_conditions cs) = sort_conditions cs"
  by (rule sort_conditions_sorted) (rule sorted_sort_conditions)

text \<open>Sorting does not change which condition is found for a type.\<close>

lemma find_sort_conditions:
  "List.find (\<lambda>c. cond_type c = t) (sort_conditions cs) = List.find (\<lambda>c. cond_type c = t) cs"
proof -
  have head: "List.find P xs = (case filter P xs of [] \<Rightarrow> None | x # _ \<Rightarrow> Some x)"
    for P and xs :: "condition list"
    by (induction xs) (auto split: list.splits)
  have "filter (\<lambda>c. cond_type c = t) (sort_conditions cs) = filter (\<lambda>c. cond_type c = t) cs"
    unfolding sort_conditions_def by (rule sort_key_stable)
  then show ?thesis by (simp add: head)
qed

lemma ready_of_sort [simp]: "ready_of (sort_conditions cs) = ready_of cs"
  by (simp add: ready_of_def find_sort_conditions)

context condition_api
begin

lemma ready_of_set:
  "\<exists>d. ready_of (k_set_status_condition K (ready_condition st reason message gen) cs) = Some d
     \<and> same_condition d (ready_condition st reason message gen)"
  using set_status_condition_this [of "ready_condition st reason message gen" cs]
  by (simp add: ready_of_def)

text \<open>
  Setting the Ready condition once more after sorting changes nothing, so a status that
  already says what it should is recognised as unchanged.
\<close>

lemma set_ready_again:
  "let cs' = sort_conditions (k_set_status_condition K (ready_condition st reason message gen) cs)
   in sort_conditions (k_set_status_condition K (ready_condition st reason message gen) cs') = cs'"
proof -
  let ?c = "ready_condition st reason message gen"
  let ?cs' = "sort_conditions (k_set_status_condition K ?c cs)"
  obtain d where "List.find (\<lambda>d. cond_type d = ''Ready'') ?cs' = Some d" "same_condition d ?c"
    using ready_of_set [of st reason message gen cs] by (auto simp: ready_of_def find_sort_conditions)
  then have "k_set_status_condition K ?c ?cs' = ?cs'"
    using set_status_condition_unchanged [of ?c ?cs' d] by simp
  then show ?thesis by (simp add: Let_def sort_conditions_idem)
qed

end

end
