(* ===== verification/Workspace_Controller.thy ===== *)
theory Workspace_Controller
  imports Workspace_Namespace Workspace_Children Network_Isolation Istio_Detector Reconciler
begin

text \<open>
  \<open>internal/controller/tenant/workspace_controller.go\<close>: the reconciler of Workspaces. It
  fetches the Workspace, reconciles its children in order with an early return on error, and
  reports the outcome in the status. The client's operations on Workspaces are the record
  \<open>workspace_client\<close>; \<open>ws_view\<close> reads the stored Workspaces out of the state.

  The Istio flag is an atomic that other goroutines refresh; a reconciliation loads it twice,
  once for the children and once for the status. The two loads are the arguments \<open>istio1\<close>
  and \<open>istio2\<close> of the model.
\<close>

section \<open>The client\<close>

record 's workspace_client =
  wc_get :: "string \<Rightarrow> 's \<Rightarrow> go_error + workspace"
  wc_list :: "'s \<Rightarrow> go_error + workspace list"
  wc_patch_status :: "workspace \<Rightarrow> workspace \<Rightarrow> 's step"
  wc_status_equal :: "workspace_status \<Rightarrow> workspace_status \<Rightarrow> bool"

section \<open>The reconciler\<close>

definition reconcileResources :: "'s kube \<Rightarrow> workspace \<Rightarrow> string \<Rightarrow> bool \<Rightarrow> 's step" where
  "reconcileResources K w version istioEnabled =
     then_ok (ReconcileNamespace K w version istioEnabled)
      (then_ok (ReconcileRoleBindings K w version)
        (then_ok (ReconcileResourceQuota K w version)
          (then_ok (ReconcileLimitRange K w version)
            (ReconcileNetworkIsolation K w version istioEnabled))))"

text \<open>
  \<open>setReadyConditionFalse\<close> patches the status from a copy of \<open>w\<close> taken before the change; an
  error of the patch is logged and dropped.
\<close>

definition ready_false_status :: "'s kube \<Rightarrow> workspace \<Rightarrow> string \<Rightarrow> string \<Rightarrow> workspace_status" where
  "ready_false_status K w reason message =
     (w_status w)\<lparr>
       st_conditions := k_set_status_condition K
         (ready_condition ConditionFalse reason message (meta_generation (w_meta w)))
         (st_conditions (w_status w)),
       st_observed_generation := meta_generation (w_meta w) \<rparr>"

definition setReadyConditionFalse ::
  "'s kube \<Rightarrow> 's workspace_client \<Rightarrow> workspace \<Rightarrow> string \<Rightarrow> string \<Rightarrow> 's \<Rightarrow> 's" where
  "setReadyConditionFalse K W w reason message s =
     (let w' = w\<lparr> w_status := ready_false_status K w reason message \<rparr>
      in case wc_patch_status W w w' s of (_, s') \<Rightarrow> s')"

definition handleReconcileError ::
  "'s kube \<Rightarrow> 's workspace_client \<Rightarrow> 's reconciler \<Rightarrow> workspace \<Rightarrow> go_error \<Rightarrow> 's
     \<Rightarrow> go_error option go_result \<times> 's" where
  "handleReconcileError K W R w err s =
     (case as_NamespaceConflictError err of
        Some _ \<Rightarrow>
          (let s' = setReadyConditionFalse K W w ''NamespaceConflict'' (error_text err) s
           in event_then R (warning_event ''NamespaceConflict'' (error_text err)) None s')
      | None \<Rightarrow>
          (let s' = setReadyConditionFalse K W w ''ReconcileError'' (error_text err) s
           in event_then R (warning_event ''ReconcileError'' (error_text err)) (Some err) s'))"

definition role_in_use :: "workspace_member list \<Rightarrow> member_role \<Rightarrow> bool" where
  "role_in_use ms role = fold (\<lambda>m f. f(wm_role m := True)) ms (\<lambda>_. False) role"

fun role_binding_refs :: "workspace \<Rightarrow> member_role list \<Rightarrow> resource_reference list" where
  "role_binding_refs w [] = []"
| "role_binding_refs w (role # roles) =
     (if role_in_use (w_members w) role
      then \<lparr> rr_name = RoleBindingName @ ''-'' @ role, rr_namespace = w_namespace w \<rparr>
             # role_binding_refs w roles
      else role_binding_refs w roles)"

definition child_ref :: "workspace \<Rightarrow> string \<Rightarrow> resource_reference" where
  "child_ref w name = \<lparr> rr_name = name, rr_namespace = w_namespace w \<rparr>"

definition updated_status :: "'s kube \<Rightarrow> workspace \<Rightarrow> bool \<Rightarrow> workspace_status" where
  "updated_status K w istioEnabled =
     (let st = w_status w;
          isolated = w_isolated w;
          conds = k_set_status_condition K
            (ready_condition ConditionTrue ''Reconciled''
               ''Workspace resources are successfully reconciled'' (meta_generation (w_meta w)))
            (st_conditions st)
      in \<lparr> st_observed_generation = meta_generation (w_meta w),
           st_namespace_ref = Some \<lparr> rr_name = w_namespace w, rr_namespace = '''' \<rparr>,
           st_resource_quota_ref =
             (if ws_resource_quota (w_spec w) \<noteq> None then Some (child_ref w ResourceQuotaName)
              else None),
           st_limit_range_ref =
             (if ws_limit_range (w_spec w) \<noteq> None then Some (child_ref w LimitRangeName) else None),
           st_role_binding_refs = role_binding_refs w orderedRoles,
           st_peer_authentication_ref =
             (if isolated then (if istioEnabled then Some (child_ref w PeerAuthenticationName) else None)
              else None),
           st_authorization_policy_ref =
             (if isolated then (if istioEnabled then Some (child_ref w AuthorizationPolicyName) else None)
              else None),
           st_network_policy_ref =
             (if isolated then (if istioEnabled then None else Some (child_ref w NetworkPolicyName))
              else None),
           st_conditions = sort_conditions conds \<rparr>)"

definition updateStatus ::
  "'s kube \<Rightarrow> 's workspace_client \<Rightarrow> 's reconciler \<Rightarrow> workspace \<Rightarrow> bool \<Rightarrow> 's
     \<Rightarrow> go_error option go_result \<times> 's" where
  "updateStatus K W R w istioEnabled s =
     (let newStatus = updated_status K w istioEnabled in
      if \<not> wc_status_equal W (w_status w) newStatus then
        (case wc_patch_status W w (w\<lparr> w_status := newStatus \<rparr>) s of
           (Some err, s') \<Rightarrow> (Returns (Some err), s')
         | (None, s') \<Rightarrow>
             event_then R (reconciled_event ''Workspace resources reconciled for namespace %s''
               (w_namespace w)) None s')
      else (Returns None, s))"

definition Reconcile ::
  "'s kube \<Rightarrow> 's workspace_client \<Rightarrow> 's reconciler \<Rightarrow> bool \<Rightarrow> bool \<Rightarrow> string \<Rightarrow> 's
     \<Rightarrow> go_error option go_result \<times> 's" where
  "Reconcile K W R istio1 istio2 name s =
     (case wc_get W name s of
        Inl err \<Rightarrow> (Returns (k_ignore_not_found K (Some err)), s)
      | Inr w \<Rightarrow>
          (case reconcileResources K w (rec_version R) istio1 s of
             (Some err, s') \<Rightarrow> handleReconcileError K W R w err s'
           | (None, s') \<Rightarrow> updateStatus K W R w istio2 s'))"

section \<open>Watches\<close>

datatype watch =
    ForWorkspace_GenerationChanged
  | Owns string
  | WatchCRDs

definition SetupWithManager_watches :: "bool \<Rightarrow> watch list" where
  "SetupWithManager_watches istioAtStartup =
     [ForWorkspace_GenerationChanged, Owns ''Namespace'', Owns ''ResourceQuota'',
      Owns ''LimitRange'', Owns ''RoleBinding'', Owns ''NetworkPolicy'', WatchCRDs]
     @ (if istioAtStartup then [Owns ''PeerAuthentication'', Owns ''AuthorizationPolicy''] else [])"

definition mapCRDToWorkspaces ::
  "'s kube \<Rightarrow> 's workspace_client \<Rightarrow> ('d \<Rightarrow> string \<Rightarrow> go_error option) \<Rightarrow> 'd istio_detector \<Rightarrow> 's
     \<Rightarrow> string list \<times> 'd istio_detector" where
  "mapCRDToWorkspaces K W ask d s =
     (let d' = Refresh K ask d in
      case wc_list W s of
        Inl err \<Rightarrow> ([], d')
      | Inr items \<Rightarrow> (map w_name items, d'))"

datatype client_object = CustomResourceDefinition string | OtherObject

fun istioCRDPredicate :: "client_object \<Rightarrow> bool" where
  "istioCRDPredicate (CustomResourceDefinition grp) = (grp = ''security.istio.io'')"
| "istioCRDPredicate OtherObject = False"

section \<open>The desired state of a Workspace\<close>

text \<open>
  The abstract specification of \<open>reconcileResources\<close>: a table of the child objects and what
  each should be.
\<close>

definition desired_children :: "workspace \<Rightarrow> bool \<Rightarrow> (key \<times> desired) list" where
  "desired_children w istio =
     map (\<lambda>role. (role_binding_key w role, desired_role_binding w role)) orderedRoles
     @ [(quota_key w, desired_quota w), (limits_key w, desired_limits w),
        (network_policy_key w, desired_network_policy w istio),
        (peer_authentication_key w, desired_peer_authentication w istio),
        (authorization_policy_key w, desired_authorization_policy w istio)]"

definition workspace_ready ::
  "'s kube \<Rightarrow> (obj_spec \<Rightarrow> obj_spec) \<Rightarrow> workspace \<Rightarrow> string \<Rightarrow> bool \<Rightarrow> (key \<Rightarrow> kobject option) \<Rightarrow> bool" where
  "workspace_ready K dflt w version istio v \<longleftrightarrow>
     namespace_ready K dflt w version istio (v (namespace_key w))
     \<and> (\<forall>(k, d) \<in> set (desired_children w istio). conforms K dflt w version d (v k))"

definition workspace_keys :: "workspace \<Rightarrow> key set" where
  "workspace_keys w = insert (namespace_key w) (fst ` set (desired_children w False))"

lemma workspace_ready_split:
  "workspace_ready K dflt w version istio v \<longleftrightarrow>
     namespace_ready K dflt w version istio (v (namespace_key w))
     \<and> (\<forall>role \<in> set orderedRoles.
          conforms K dflt w version (desired_role_binding w role) (v (role_binding_key w role)))
     \<and> conforms K dflt w version (desired_quota w) (v (quota_key w))
     \<and> conforms K dflt w version (desired_limits w) (v (limits_key w))
     \<and> network_isolated K dflt w version istio v"
  by (auto simp: workspace_ready_def desired_children_def network_isolated_def)

lemma workspace_keys_split:
  "workspace_keys w =
     {namespace_key w} \<union> (role_binding_key w ` set orderedRoles
       \<union> ({quota_key w} \<union> ({limits_key w} \<union> network_isolation_keys w)))"
  by (auto simp: workspace_keys_def desired_children_def network_isolation_keys_def image_image)

lemmas child_keys = namespace_key_def role_binding_key_def quota_key_def limits_key_def
  network_policy_key_def peer_authentication_key_def authorization_policy_key_def

lemma workspace_keys_namespace:
  "k \<in> workspace_keys w \<Longrightarrow> k = namespace_key w \<or> fst (snd k) = w_namespace w"
  by (auto simp: workspace_keys_split network_isolation_keys_def child_keys)

lemma workspace_keys_disjoint:
  assumes "w_namespace w \<noteq> w_namespace w'"
  shows "workspace_keys w \<inter> workspace_keys w' = {}"
  using assms by (auto simp: workspace_keys_split network_isolation_keys_def child_keys)

text \<open>The desired state does not depend on the status.\<close>

lemma workspace_ready_status:
  "workspace_ready K dflt (w\<lparr> w_status := st \<rparr>) version istio v = workspace_ready K dflt w version istio v"
proof -
  let ?w = "w\<lparr> w_status := st \<rparr>"
  have owner: "workspace_owner ?w = workspace_owner w" by (simp add: workspace_owner_def)
  have "conforms K dflt ?w version = conforms K dflt w version"
    by (simp add: owner fun_eq_iff conforms_def split: desired.split option.split)
  moreover have "namespace_ready K dflt ?w version istio = namespace_ready K dflt w version istio"
    by (simp add: owner fun_eq_iff namespace_ready_def split: option.split)
  moreover have "desired_children ?w istio = desired_children w istio"
    by (simp add: desired_children_def child_keys desired_role_binding_def desired_quota_def
        desired_limits_def desired_network_policy_def desired_peer_authentication_def
        desired_authorization_policy_def network_policy_for_def authorization_policy_for_def)
  ultimately show ?thesis by (simp add: workspace_ready_def namespace_key_def)
qed

context kube_api
begin

lemma resources_step:
  "reconcile_step view (reconcileResources K w version istio) (workspace_keys w)
     (workspace_ready K dflt w version istio)"
  unfolding reconcileResources_def workspace_keys_split workspace_ready_split [abs_def]
  by (intro reconcile_step_then namespace_step role_bindings_step quota.reconcile_step_axioms
      limits.reconcile_step_axioms network_isolation_step)
    (auto simp: network_isolation_keys_def child_keys)

lemma resources_quiet:
  "quiet_on view (reconcileResources K w version istio) (workspace_ready K dflt w version istio)"
  unfolding reconcileResources_def workspace_ready_split [abs_def]
    ReconcileResourceQuota_manage ReconcileLimitRange_manage
  by (intro quiet_on_then namespace_quiet role_bindings_quiet manage_child_quiet
      network_isolation_quiet)

text \<open>An error after the namespace step is an error of the client library.\<close>

lemma resources_error:
  assumes "reconcileResources K w version istio s = (Some e, s')"
  shows "external e \<or> (ReconcileNamespace K w version istio s = (Some e, s'))"
  using assms unfolding reconcileResources_def ReconcileResourceQuota_manage ReconcileLimitRange_manage
  by (auto simp: then_ok_Some intro: role_bindings_external manage_child_external
      network_isolation_external)

end

sublocale kube_api \<subseteq> resources: reconcile_step view "reconcileResources K w version istio"
  "workspace_keys w" "workspace_ready K dflt w version istio"
  for w version istio
  by (rule resources_step)

end
