(* ===== verification/Workspace_Store.thy ===== *)
theory Workspace_Store
  imports Workspace_Controller
begin

text \<open>
  What the Workspace reconciler relies on beyond the object client: the stored Workspaces
  (\<open>ws_view\<close>), a status patch that replaces the status and nothing else, a recorder that only
  records, and object writes that leave Workspaces alone. The lemmas follow a reconciliation
  through its steps.
\<close>

locale workspace_store = kube_api K view dflt + condition_api K
  for K :: "'s kube"
    and view :: "'s \<Rightarrow> key \<Rightarrow> kobject option"
    and dflt :: "obj_spec \<Rightarrow> obj_spec" +
  fixes W :: "'s workspace_client"
    and ws_view :: "'s \<Rightarrow> string \<Rightarrow> workspace option"
    and emit :: "event \<Rightarrow> 's \<Rightarrow> 's"
  assumes ws_get_ok: "wc_get W n s = Inr w \<Longrightarrow> ws_view s n = Some w \<and> w_name w = n"
    and ws_get_missing: "wc_get W n s = Inl e \<Longrightarrow> k_is_not_found K e \<Longrightarrow> ws_view s n = None"
    and ws_status_equal: "wc_status_equal W a b \<longleftrightarrow> a = b"
    and ws_patch_objects: "wc_patch_status W w w' s = (r, s') \<Longrightarrow> view s' = view s"
    and ws_patch_ok:
      "wc_patch_status W w (w\<lparr> w_status := st \<rparr>) s = (None, s') \<Longrightarrow>
         ws_view s (w_name w) = Some w \<Longrightarrow>
         ws_view s' = (ws_view s)(w_name w \<mapsto> w\<lparr> w_status := st \<rparr>)"
    and ws_patch_error:
      "wc_patch_status W w (w\<lparr> w_status := st \<rparr>) s = (Some e, s') \<Longrightarrow>
         ws_view s (w_name w) = Some w \<Longrightarrow>
         ws_view s' = ws_view s \<or> ws_view s' = (ws_view s)(w_name w \<mapsto> w\<lparr> w_status := st \<rparr>)"
    and ws_create_or_update:
      "k_create_or_update K ob f s = (r, s') \<Longrightarrow> ws_view s' = ws_view s"
    and ws_delete: "k_delete K k s = (r, s') \<Longrightarrow> ws_view s' = ws_view s"
    and emit_objects: "view (emit ev s) = view s"
    and emit_workspaces: "ws_view (emit ev s) = ws_view s"
begin

definition keeps_workspaces :: "'s step \<Rightarrow> bool" where
  "keeps_workspaces f \<longleftrightarrow> (\<forall>s r s'. f s = (r, s') \<longrightarrow> ws_view s' = ws_view s)"

lemma keeps_then:
  assumes "keeps_workspaces f" and "keeps_workspaces g"
  shows "keeps_workspaces (then_ok f g)"
  unfolding keeps_workspaces_def
proof (intro allI impI)
  fix s r s'
  assume run: "then_ok f g s = (r, s')"
  obtain r1 t where f: "f s = (r1, t)" by force
  then have t: "ws_view t = ws_view s" using assms(1) by (simp add: keeps_workspaces_def)
  show "ws_view s' = ws_view s"
  proof (cases r1)
    case None
    with run f have "g t = (r, s')" by (simp add: then_ok_def)
    then show ?thesis using assms(2) t unfolding keeps_workspaces_def by metis
  next
    case (Some e)
    with run f t show ?thesis by (simp add: then_ok_def)
  qed
qed

lemma keeps_run: "(\<And>f. f \<in> set fs \<Longrightarrow> keeps_workspaces f) \<Longrightarrow> keeps_workspaces (run_steps fs)"
proof (induction fs)
  case Nil
  show ?case by (simp add: keeps_workspaces_def)
next
  case (Cons f fs)
  then show ?case unfolding run_steps_Cons by (intro keeps_then) auto
qed

lemma keeps_manage_child: "keeps_workspaces (manage_child K nm w version k d)"
  by (auto simp: keeps_workspaces_def manage_child_def delete_ignoring_not_found_def
      delete_ignoring_no_match_def dest: ws_create_or_update ws_delete
      split: desired.splits prod.splits if_splits)

lemma keeps_resources: "keeps_workspaces (reconcileResources K w version istio)"
  unfolding reconcileResources_def ReconcileRoleBindings_manage ReconcileResourceQuota_manage
    ReconcileLimitRange_manage ReconcileNetworkIsolation_def network_isolation_manage
  by (intro keeps_then keeps_run keeps_manage_child)
    (auto simp: keeps_workspaces_def ReconcileNamespace_def dest: ws_create_or_update
      intro: keeps_manage_child [unfolded keeps_workspaces_def, rule_format])

lemma resources_workspaces:
  "reconcileResources K w version istio s = (r, s') \<Longrightarrow> ws_view s' = ws_view s"
  using keeps_resources by (auto simp: keeps_workspaces_def)

text \<open>Reporting an error and reporting success.\<close>

lemma set_ready_false_objects: "view (setReadyConditionFalse K W w reason message s) = view s"
  by (auto simp: setReadyConditionFalse_def Let_def dest: ws_patch_objects split: prod.splits)

lemma set_ready_false_workspaces:
  assumes "ws_view s (w_name w) = Some w"
  shows "ws_view (setReadyConditionFalse K W w reason message s) = ws_view s
    \<or> ws_view (setReadyConditionFalse K W w reason message s) =
        (ws_view s)(w_name w \<mapsto> w\<lparr> w_status := ready_false_status K w reason message \<rparr>)"
proof -
  obtain r s' where p: "wc_patch_status W w (w\<lparr> w_status := ready_false_status K w reason message \<rparr>) s
      = (r, s')" by force
  then have eq: "setReadyConditionFalse K W w reason message s = s'"
    by (simp add: setReadyConditionFalse_def Let_def)
  show ?thesis
  proof (cases r)
    case None
    with p ws_patch_ok [of w _ s s'] assms show ?thesis by (simp add: eq)
  next
    case (Some e)
    with p ws_patch_error [of w _ s e s'] assms show ?thesis by (simp add: eq)
  qed
qed

lemma ready_false_status_ready:
  "\<exists>c. ready_of (st_conditions (ready_false_status K w reason message)) = Some c
     \<and> cond_status c = ConditionFalse \<and> cond_reason c = reason \<and> cond_message c = message
     \<and> cond_observed_generation c = meta_generation (w_meta w)"
  using ready_of_set [of ConditionFalse reason message "meta_generation (w_meta w)"
      "st_conditions (w_status w)"]
  by (auto simp: ready_false_status_def same_condition_def)

lemma handle_error_cases:
  assumes rec: "rec_recorder R = Some emit"
    and run: "handleReconcileError K W R w err s = (out, s')"
  shows "out = Returns (if as_NamespaceConflictError err \<noteq> None then None else Some err)"
    and "view s' = view s"
    and "ws_view s (w_name w) = Some w \<Longrightarrow>
      ws_view s' = ws_view s
      \<or> ws_view s' = (ws_view s)(w_name w \<mapsto> w\<lparr> w_status := ready_false_status K w
          (if as_NamespaceConflictError err \<noteq> None then ''NamespaceConflict'' else ''ReconcileError'')
          (error_text err) \<rparr>)"
proof -
  let ?reason = "if as_NamespaceConflictError err \<noteq> None then ''NamespaceConflict'' else ''ReconcileError''"
  let ?t = "setReadyConditionFalse K W w ?reason (error_text err) s"
  have both: "out = Returns (if as_NamespaceConflictError err \<noteq> None then None else Some err)
      \<and> (\<exists>ev. s' = emit ev ?t)"
    using run by (auto simp: handleReconcileError_def event_then_recorder [OF rec] Let_def
        split: option.splits)
  then show "out = Returns (if as_NamespaceConflictError err \<noteq> None then None else Some err)" by blast
  from both obtain ev where s': "s' = emit ev ?t" by blast
  show "view s' = view s" by (simp add: s' emit_objects set_ready_false_objects)
  assume "ws_view s (w_name w) = Some w"
  from set_ready_false_workspaces [OF this, of ?reason "error_text err"]
  show "ws_view s' = ws_view s
      \<or> ws_view s' = (ws_view s)(w_name w \<mapsto> w\<lparr> w_status := ready_false_status K w ?reason
          (error_text err) \<rparr>)"
    by (simp add: s' emit_workspaces)
qed

lemma update_status_objects:
  assumes "rec_recorder R = Some emit" and "updateStatus K W R w istio s = (out, s')"
  shows "view s' = view s"
  using assms by (auto simp: updateStatus_def Let_def event_then_recorder emit_objects
      dest: ws_patch_objects split: if_splits prod.splits option.splits)

lemma update_status_ok:
  assumes rec: "rec_recorder R = Some emit" and w: "ws_view s (w_name w) = Some w"
    and run: "updateStatus K W R w istio s = (Returns None, s')"
  shows "ws_view s' (w_name w) = Some (w\<lparr> w_status := updated_status K w istio \<rparr>)"
proof (cases "w_status w = updated_status K w istio")
  case True
  with run have "s' = s" by (simp add: updateStatus_def ws_status_equal)
  with w True show ?thesis by simp
next
  case False
  then obtain t ev where p: "wc_patch_status W w (w\<lparr> w_status := updated_status K w istio \<rparr>) s = (None, t)"
    and s': "s' = emit ev t"
    using run by (auto simp: updateStatus_def Let_def ws_status_equal event_then_recorder [OF rec]
        split: prod.splits option.splits)
  from ws_patch_ok [OF p w] show ?thesis by (simp add: s' emit_workspaces)
qed

lemma updated_status_ready:
  "\<exists>c. ready_of (st_conditions (updated_status K w istio)) = Some c
     \<and> cond_status c = ConditionTrue \<and> cond_reason c = ''Reconciled''
     \<and> cond_observed_generation c = meta_generation (w_meta w)"
  using ready_of_set [of ConditionTrue "''Reconciled''"
      "''Workspace resources are successfully reconciled''" "meta_generation (w_meta w)"
      "st_conditions (w_status w)"]
  by (auto simp: updated_status_def Let_def same_condition_def)

lemma updated_status_again:
  "updated_status K (w\<lparr> w_status := updated_status K w istio \<rparr>) istio = updated_status K w istio"
proof -
  have "role_binding_refs (w\<lparr> w_status := st \<rparr>) roles = role_binding_refs w roles" for st roles
    by (induction roles) auto
  then show ?thesis
    using set_ready_again [of ConditionTrue "''Reconciled''"
        "''Workspace resources are successfully reconciled''" "meta_generation (w_meta w)"
        "st_conditions (w_status w)"]
    by (simp add: updated_status_def child_ref_def Let_def)
qed

text \<open>The ways a reconciliation of an existing Workspace can go.\<close>

lemma reconcile_cases:
  assumes "Reconcile K W R istio1 istio2 name s = (out, s')" and "wc_get W name s = Inr w"
  obtains
    (synced) t where "reconcileResources K w (rec_version R) istio1 s = (None, t)"
      "updateStatus K W R w istio2 t = (out, s')"
  | (failed) err t where "reconcileResources K w (rec_version R) istio1 s = (Some err, t)"
      "handleReconcileError K W R w err t = (out, s')"
  using assms by (auto simp: Reconcile_def split: prod.splits option.splits)

text \<open>A reconciliation changes only the objects of its Workspace.\<close>

lemma reconcile_frame:
  assumes rec: "rec_recorder R = Some emit"
    and run: "Reconcile K W R istio1 istio2 name s = (out, s')" and w: "wc_get W name s = Inr w"
    and k: "k \<notin> workspace_keys w"
  shows "view s' k = view s k"
  using run w
proof (cases rule: reconcile_cases)
  case (synced t)
  then have "view s' = view t" using update_status_objects [OF rec] by blast
  with resources.step_frame [OF synced(1) k] show ?thesis by simp
next
  case (failed err t)
  then have "view s' = view t" using handle_error_cases(2) [OF rec] by blast
  with resources.step_frame [OF failed(1) k] show ?thesis by simp
qed

lemma reconcile_missing:
  assumes "Reconcile K W R istio1 istio2 name s = (out, s')" and "wc_get W name s = Inl e"
  shows "s' = s"
  using assms by (simp add: Reconcile_def)

end

section \<open>Without faults\<close>

locale reliable_workspace_store =
  workspace_store K view dflt W ws_view emit + reliable_kube_api K view dflt served
  for K :: "'s kube" and view dflt W ws_view emit and served :: "kind \<Rightarrow> bool" +
  assumes ws_get_succeeds: "ws_view s n = Some w \<Longrightarrow> wc_get W n s = Inr w"
    and ws_patch_succeeds: "ws_view s (w_name w) = Some w \<Longrightarrow> fst (wc_patch_status W w w' s) = None"

context reliable_kube_api
begin

lemma manage_child_succeeds:
  assumes free: "\<And>x. d \<noteq> MustBeAbsent \<Longrightarrow> view s k = Some x \<Longrightarrow>
      \<not> controlled_by_other (workspace_owner w) (obj_meta x)"
    and served: "served (fst k) \<or> (nm \<and> d = MustBeAbsent)"
  shows "fst (manage_child K nm w version k d s) = None"
proof (cases d)
  case MustBeAbsent
  obtain kd ns name where k: "k = (kd, ns, name)" by (cases k)
  obtain r t where del: "k_delete K k s = (r, t)" by force
  show ?thesis
  proof (cases r)
    case None
    with del MustBeAbsent show ?thesis
      by (simp add: manage_child_def delete_ignoring_not_found_def delete_ignoring_no_match_def
          IgnoreNoMatchNotFound_def)
  next
    case (Some e)
    with del k delete_succeeds [of kd ns name s e] served
    have "k_is_not_found K e \<or> (k_is_no_match K e \<and> nm)" by auto
    with del Some MustBeAbsent show ?thesis
      by (auto simp: manage_child_def delete_ignoring_not_found_def delete_ignoring_no_match_def
          IgnoreNoMatchNotFound_def)
  qed
next
  case (MustExist sp)
  obtain kd ns name where k: "k = (kd, ns, name)" by (cases k)
  have "fst (k_create_or_update K (new_object kd ns name) (write_child K w version sp) s) = None"
    unfolding write_child_def [abs_def]
    by (rule owned_write_succeeds) (use free served MustExist k in \<open>auto simp: key_of_def\<close>)
  with MustExist show ?thesis by (simp add: manage_child_def k)
qed

lemma namespace_succeeds:
  assumes "served NamespaceKind"
    and "\<And>x. view s (namespace_key w) = Some x \<Longrightarrow> \<not> foreign_namespace w x
      \<and> \<not> controlled_by_other (workspace_owner w) (obj_meta x)"
  shows "fst (ReconcileNamespace K w version istio s) = None"
proof -
  let ?b = "base_of view s (new_object NamespaceKind '''' (w_namespace w))"
  let ?b' = "set_labels (Some (namespace_labels w version istio (meta_labels (obj_meta ?b)))) ?b"
  have b: "\<not> foreign_namespace w ?b" "\<not> controlled_by_other (workspace_owner w) (obj_meta ?b')"
    using assms(2) by (auto simp: base_of_def namespace_key_def foreign_namespace_def
        controlled_by_other_def split: option.splits)
  then obtain m' where "k_set_controller_reference K (workspace_owner w) (obj_meta ?b') = Inr m'"
    using set_controller_reference_succeeds by blast
  then have own: "own_by K (workspace_owner w) ?b' = Inr (set_meta m' ?b')" by (simp add: own_by_def)
  with b(1) have f: "mutate_namespace K w version istio ?b = Inr (set_meta m' ?b')"
    by (auto simp: mutate_namespace_def foreign_namespace_def)
  have "key_of ?b = (NamespaceKind, '''', w_namespace w)"
    using view_key by (auto simp: base_of_def split: option.splits)
  then have "key_of (set_meta m' ?b') = key_of (new_object NamespaceKind '''' (w_namespace w))"
    using own_by_ok(1) [OF own] by (simp add: key_of_def)
  with create_or_update_succeeds [of "new_object NamespaceKind '''' (w_namespace w)"
      "mutate_namespace K w version istio" s] f assms(1)
  show ?thesis by (simp add: ReconcileNamespace_def)
qed

end

end
