(* ===== verification/Workspace_Convergence.thy ===== *)
theory Workspace_Convergence
  imports Workspace_Store
begin

text \<open>
  Liveness of the Workspace reconciler: when nothing fails on the way and no object stands in
  the way, one reconciliation succeeds. The contract is again composed step by step: what a
  step needs of the objects under its own footprint cannot be disturbed by the steps before it.
\<close>

definition succeeds_on ::
  "('s \<Rightarrow> 'k \<Rightarrow> 'o option) \<Rightarrow> 's step \<Rightarrow> 'k set \<Rightarrow> ('k \<Rightarrow> 'o option \<Rightarrow> bool) \<Rightarrow> bool" where
  "succeeds_on view f F P \<longleftrightarrow> (\<forall>s. (\<forall>k \<in> F. P k (view s k)) \<longrightarrow> fst (f s) = None)"

lemma succeeds_on_then:
  assumes f: "succeeds_on view f F P" and step: "reconcile_step view f F Q"
    and g: "succeeds_on view g G P" and disjoint: "F \<inter> G = {}"
  shows "succeeds_on view (then_ok f g) (F \<union> G) P"
  unfolding succeeds_on_def
proof (intro allI impI)
  fix s
  assume P: "\<forall>k \<in> F \<union> G. P k (view s k)"
  obtain r t where run: "f s = (r, t)" by force
  have "fst (f s) = None" using f P by (simp add: succeeds_on_def)
  with run have r: "r = None" by simp
  have "\<forall>k \<in> G. P k (view t k)"
    using reconcile_step.frame_set [OF step run disjoint] P by simp
  then have "fst (g t) = None" using g by (simp add: succeeds_on_def)
  with run r show "fst (then_ok f g s) = None" by (simp add: then_ok_def)
qed

lemma succeeds_on_run:
  assumes "\<And>x. x \<in> set xs \<Longrightarrow> succeeds_on view (f x) (F x) P"
    and "\<And>x. x \<in> set xs \<Longrightarrow> reconcile_step view (f x) (F x) (Q x)"
    and "distinct xs"
    and "\<And>x y. x \<in> set xs \<Longrightarrow> y \<in> set xs \<Longrightarrow> x \<noteq> y \<Longrightarrow> F x \<inter> F y = {}"
  shows "succeeds_on view (run_steps (map f xs)) (\<Union>x \<in> set xs. F x) P"
  using assms
proof (induction xs)
  case Nil
  show ?case by (simp add: succeeds_on_def)
next
  case (Cons x xs)
  have "F x \<inter> (\<Union>x \<in> set xs. F x) = {}" using Cons.prems(3,4) by fastforce
  with Cons show ?case
    unfolding list.map run_steps_Cons by (auto intro: succeeds_on_then)
qed

text \<open>An object that stands in the way: controlled by somebody else, or a foreign namespace.\<close>

definition clear_for :: "workspace \<Rightarrow> key \<Rightarrow> kobject option \<Rightarrow> bool" where
  "clear_for w k x \<longleftrightarrow>
     (case x of None \<Rightarrow> True
      | Some ob \<Rightarrow> \<not> controlled_by_other (workspace_owner w) (obj_meta ob)
          \<and> (k = namespace_key w \<longrightarrow> \<not> foreign_namespace w ob))"

definition unobstructed :: "workspace \<Rightarrow> (key \<Rightarrow> kobject option) \<Rightarrow> bool" where
  "unobstructed w v \<longleftrightarrow> (\<forall>k \<in> workspace_keys w. clear_for w k (v k))"

definition core_kinds :: "kind set" where
  "core_kinds = {NamespaceKind, RoleBindingKind, ResourceQuotaKind, LimitRangeKind, NetworkPolicyKind}"

definition istio_kinds :: "kind set" where
  "istio_kinds = {PeerAuthenticationKind, AuthorizationPolicyKind}"

context reliable_kube_api
begin

lemma child_succeeds_on:
  assumes "served (fst k) \<or> (nm \<and> d = MustBeAbsent)"
  shows "succeeds_on view (manage_child K nm w version k d) {k} (clear_for w)"
  unfolding succeeds_on_def
proof (intro allI impI)
  fix s
  assume "\<forall>j \<in> {k}. clear_for w j (view s j)"
  then have "\<And>x. view s k = Some x \<Longrightarrow> \<not> controlled_by_other (workspace_owner w) (obj_meta x)"
    by (simp add: clear_for_def)
  from manage_child_succeeds [OF this assms] show "fst (manage_child K nm w version k d s) = None" .
qed

lemma namespace_succeeds_on:
  assumes "served NamespaceKind"
  shows "succeeds_on view (ReconcileNamespace K w version istio) {namespace_key w} (clear_for w)"
  unfolding succeeds_on_def
proof (intro allI impI)
  fix s
  assume "\<forall>j \<in> {namespace_key w}. clear_for w j (view s j)"
  then show "fst (ReconcileNamespace K w version istio s) = None"
    by (intro namespace_succeeds assms) (simp add: clear_for_def)
qed

lemma isolation_succeeds_on:
  assumes "served NetworkPolicyKind" and "istio \<Longrightarrow> \<forall>kd \<in> istio_kinds. served kd"
  shows "succeeds_on view (ReconcileNetworkIsolation K w version istio)
      (network_isolation_keys w) (clear_for w)"
proof -
  have absent: "\<not> istio \<Longrightarrow> desired_peer_authentication w istio = MustBeAbsent"
    "\<not> istio \<Longrightarrow> desired_authorization_policy w istio = MustBeAbsent"
    by (simp_all add: desired_peer_authentication_def desired_authorization_policy_def)
  have pa: "succeeds_on view (manage_child K True w version (peer_authentication_key w)
      (desired_peer_authentication w istio)) {peer_authentication_key w} (clear_for w)"
    by (rule child_succeeds_on, cases istio)
      (use assms(2) absent in \<open>auto simp: peer_authentication_key_def istio_kinds_def\<close>)
  have ap: "succeeds_on view (manage_child K True w version (authorization_policy_key w)
      (desired_authorization_policy w istio)) {authorization_policy_key w} (clear_for w)"
    by (rule child_succeeds_on, cases istio)
      (use assms(2) absent in \<open>auto simp: authorization_policy_key_def istio_kinds_def\<close>)
  have np: "succeeds_on view (manage_child K False w version (network_policy_key w)
      (desired_network_policy w istio)) {network_policy_key w} (clear_for w)"
    by (rule child_succeeds_on) (simp add: network_policy_key_def assms(1))
  have keys: "network_isolation_keys w =
      {network_policy_key w} \<union> ({peer_authentication_key w} \<union> {authorization_policy_key w})"
    by (auto simp: network_isolation_keys_def)
  show ?thesis
    unfolding ReconcileNetworkIsolation_def network_isolation_manage keys
    by (rule succeeds_on_then [OF np manage_child_step succeeds_on_then [OF pa manage_child_step ap]])
      (auto simp: child_keys)
qed

lemma role_bindings_succeed_on:
  assumes "served RoleBindingKind"
  shows "succeeds_on view (ReconcileRoleBindings K w version)
      (role_binding_key w ` set orderedRoles) (clear_for w)"
proof -
  have "succeeds_on view (ReconcileRoleBindings K w version)
      (\<Union>role \<in> set orderedRoles. {role_binding_key w role}) (clear_for w)"
    unfolding ReconcileRoleBindings_manage
    by (rule succeeds_on_run [OF child_succeeds_on manage_child_step distinct_orderedRoles])
      (auto simp: role_binding_key_def assms)
  then show ?thesis by (simp add: UNION_singleton_eq_range)
qed

lemma resources_succeed:
  assumes "\<forall>kd \<in> core_kinds. served kd" and "istio \<Longrightarrow> \<forall>kd \<in> istio_kinds. served kd"
    and "unobstructed w (view s)"
  shows "fst (reconcileResources K w version istio s) = None"
proof -
  have quota: "succeeds_on view (ReconcileResourceQuota K w version) {quota_key w} (clear_for w)"
    and limits: "succeeds_on view (ReconcileLimitRange K w version) {limits_key w} (clear_for w)"
    unfolding ReconcileResourceQuota_manage ReconcileLimitRange_manage
    using assms(1) by (auto intro!: child_succeeds_on simp: quota_key_def limits_key_def core_kinds_def)
  have "succeeds_on view (reconcileResources K w version istio) (workspace_keys w) (clear_for w)"
    unfolding reconcileResources_def workspace_keys_split
    by (rule succeeds_on_then [OF namespace_succeeds_on namespace_step
          succeeds_on_then [OF role_bindings_succeed_on role_bindings_step
            succeeds_on_then [OF quota quota.reconcile_step_axioms
              succeeds_on_then [OF limits limits.reconcile_step_axioms isolation_succeeds_on]]]])
      (use assms(1,2) in \<open>auto simp: core_kinds_def network_isolation_keys_def child_keys\<close>)
  with assms(3) show ?thesis by (simp add: succeeds_on_def unobstructed_def)
qed

end

context reliable_workspace_store
begin

text \<open>One reconciliation of an unobstructed Workspace succeeds.\<close>

lemma reconcile_succeeds:
  assumes rec: "rec_recorder R = Some emit" and w: "ws_view s name = Some w"
    and name: "w_name w = name"
    and served: "\<forall>kd \<in> core_kinds. served kd" "istio \<Longrightarrow> \<forall>kd \<in> istio_kinds. served kd"
    and free: "unobstructed w (view s)"
  shows "\<exists>s'. Reconcile K W R istio istio2 name s = (Returns None, s')
    \<and> workspace_ready K dflt w (rec_version R) istio (view s')
    \<and> ws_view s' name = Some (w\<lparr> w_status := updated_status K w istio2 \<rparr>)"
proof -
  obtain t where res: "reconcileResources K w (rec_version R) istio s = (None, t)"
    using resources_succeed [OF served free, where version = "rec_version R"] by (metis prod.collapse)
  have t: "ws_view t (w_name w) = Some w" using resources_workspaces [OF res] w name by simp
  obtain out s' where upd: "updateStatus K W R w istio2 t = (out, s')" by force
  have out: "out = Returns None"
    using upd ws_patch_succeeds [OF t]
    by (auto simp: updateStatus_def Let_def event_then_recorder [OF rec]
        split: if_splits prod.splits option.splits)
      (metis fst_conv option.distinct(1))
  have "Reconcile K W R istio istio2 name s = (Returns None, s')"
    using ws_get_succeeds [OF w] res upd out by (simp add: Reconcile_def)
  moreover have "view s' = view t" using update_status_objects [OF rec upd] .
  ultimately show ?thesis
    using resources.step_goal [OF res] update_status_ok [OF rec t, of istio2 s'] upd out name by auto
qed

end

end
