(* ===== verification/Module_Types.thy ===== *)
theory Module_Types
  imports Kube_Types
begin

text \<open>
  The custom resources \<open>Module\<close> and \<open>ModuleTemplate\<close> (\<open>api/addons/v1alpha1\<close>). A template
  holds either a Flux HelmRelease spec or a Flux Kustomization spec; a Module instantiates a
  template.
\<close>

record addon_reference =
  ar_name :: string
  ar_namespace :: string

record module_spec =
  ms_template_ref :: string
  ms_namespace :: "string option"
  ms_values :: "json option"

record module_status =
  mst_observed_generation :: int
  mst_template_generation :: int
  mst_helm_release_ref :: "addon_reference option"
  mst_kustomization_ref :: "addon_reference option"
  mst_conditions :: "condition list"

record module =
  m_meta :: object_meta
  m_spec :: module_spec
  m_status :: module_status

record module_template_spec =
  mts_description :: string
  mts_namespace :: string
  mts_helm_release :: "helm_release_spec option"
  mts_kustomization :: "json option"

record module_template_status =
  mtst_observed_generation :: int
  mtst_conditions :: "condition list"

text \<open>The program neither reads nor writes the status of a template.\<close>

record module_template =
  mt_meta :: object_meta
  mt_spec :: module_template_spec

abbreviation m_name :: "module \<Rightarrow> string" where "m_name m \<equiv> meta_name (m_meta m)"
abbreviation m_uid :: "module \<Rightarrow> string" where "m_uid m \<equiv> meta_uid (m_meta m)"
abbreviation mt_name :: "module_template \<Rightarrow> string" where "mt_name mt \<equiv> meta_name (mt_meta mt)"

definition module_owner :: "module \<Rightarrow> owner" where
  "module_owner m = \<lparr> owner_kind = ''Module'', owner_name = m_name m, owner_uid = m_uid m \<rparr>"

lemma module_owner_simps [simp]:
  "owner_kind (module_owner m) = ''Module''" "owner_name (module_owner m) = m_name m"
  "owner_uid (module_owner m) = m_uid m"
  by (simp_all add: module_owner_def)

text \<open>The CRD's rule on a template: exactly one of the two specs is set.\<close>

definition valid_template_spec :: "module_template_spec \<Rightarrow> bool" where
  "valid_template_spec ts \<longleftrightarrow>
     (mts_helm_release ts \<noteq> None \<and> mts_kustomization ts = None)
     \<or> (mts_helm_release ts = None \<and> mts_kustomization ts \<noteq> None)"

text \<open>The CRD's rule on a Module: \<open>self == oldSelf\<close> on the template reference.\<close>

definition valid_module_update :: "module_spec \<Rightarrow> module_spec \<Rightarrow> bool" where
  "valid_module_update old new \<longleftrightarrow> ms_template_ref new = ms_template_ref old"

end
