(* ===== verification/Module_Core.thy ===== *)
theory Module_Core
  imports Module_Types Kube_Api Labels
begin

text \<open>
  The package \<open>internal/core/module\<close>: labels and target namespace of a Module's Flux resource
  (\<open>helpers.go\<close>), and its synchronisation with the template (\<open>helmrelease.go\<close>,
  \<open>kustomization.go\<close>).
\<close>

section \<open>helpers.go\<close>

definition ModuleFinalizer :: string where
  "ModuleFinalizer = ''addons.otterscale.io/module-cleanup''"

definition LabelModuleTemplate :: string where
  "LabelModuleTemplate = ''addons.otterscale.io/module-template''"

declare ModuleFinalizer_def [go_defs] LabelModuleTemplate_def [go_defs]

definition LabelsForModule :: "string \<Rightarrow> string \<Rightarrow> string \<Rightarrow> labels" where
  "LabelsForModule moduleName templateName version =
     (Standard '''' moduleName ''module'' version)(LabelModuleTemplate \<mapsto> templateName)"

definition TargetNamespace :: "module \<Rightarrow> module_template \<Rightarrow> string" where
  "TargetNamespace m mt =
     (case ms_namespace (m_spec m) of Some ns \<Rightarrow> ns | None \<Rightarrow> mts_namespace (mt_spec mt))"

lemma LabelModuleTemplate_fresh:
  "LabelModuleTemplate \<noteq> labels_Instance" "LabelModuleTemplate \<noteq> labels_Component"
  "LabelModuleTemplate \<noteq> labels_ManagedBy" "LabelModuleTemplate \<noteq> labels_PartOf"
  "LabelModuleTemplate \<noteq> labels_Version"
  by (simp_all add: label_keys LabelModuleTemplate_def)

interpretation mod_labels: label_scheme "\<lambda>m. LabelsForModule m template version" "''module''"
  by unfold_locales (simp_all add: LabelsForModule_def LabelModuleTemplate_fresh [symmetric])

section \<open>helmrelease.go\<close>

definition helm_spec_for :: "module \<Rightarrow> helm_release_spec \<Rightarrow> helm_release_spec" where
  "helm_spec_for m templateSpec =
     (case ms_values (m_spec m) of
        Some v \<Rightarrow> templateSpec\<lparr> hr_values := Some v \<rparr>
      | None \<Rightarrow> templateSpec)"

definition mutate_helm_release ::
  "'s kube \<Rightarrow> module \<Rightarrow> module_template \<Rightarrow> string \<Rightarrow> helm_release_spec \<Rightarrow> kobject
     \<Rightarrow> go_error + kobject" where
  "mutate_helm_release K m mt version templateSpec ob =
     (let ob1 = ob\<lparr> obj_spec := HelmReleaseSpec (helm_spec_for m templateSpec) \<rparr>;
          l = (case meta_labels (obj_meta ob1) of None \<Rightarrow> Map.empty | Some l \<Rightarrow> l);
          ob2 = set_labels (Some (maps_copy l (LabelsForModule (m_name m) (mt_name mt) version))) ob1
      in own_by K (module_owner m) ob2)"

definition ReconcileHelmRelease :: "'s kube \<Rightarrow> module \<Rightarrow> module_template \<Rightarrow> string \<Rightarrow> 's step" where
  "ReconcileHelmRelease K m mt version s =
     (case mts_helm_release (mt_spec mt) of
        None \<Rightarrow> (Some (TemplateInvalidError (mt_name mt)
                   ''helmRelease spec is nil but Module expects a HelmRelease template''), s)
      | Some templateSpec \<Rightarrow>
          k_create_or_update K (new_object HelmReleaseKind (TargetNamespace m mt) (m_name m))
            (mutate_helm_release K m mt version templateSpec) s)"

definition DeleteHelmRelease :: "'s kube \<Rightarrow> module \<Rightarrow> string \<Rightarrow> 's step" where
  "DeleteHelmRelease K m namespace s =
     (case k_delete K (HelmReleaseKind, namespace, m_name m) s of
        (Some err, s') \<Rightarrow> (k_ignore_not_found K (Some err), s')
      | (None, s') \<Rightarrow> (None, s'))"

section \<open>kustomization.go\<close>

definition mutate_kustomization ::
  "'s kube \<Rightarrow> module \<Rightarrow> module_template \<Rightarrow> string \<Rightarrow> json \<Rightarrow> kobject \<Rightarrow> go_error + kobject" where
  "mutate_kustomization K m mt version templateSpec ob =
     (let ob1 = ob\<lparr> obj_spec := KustomizationSpec templateSpec \<rparr>;
          l = (case meta_labels (obj_meta ob1) of None \<Rightarrow> Map.empty | Some l \<Rightarrow> l);
          ob2 = set_labels (Some (maps_copy l (LabelsForModule (m_name m) (mt_name mt) version))) ob1
      in own_by K (module_owner m) ob2)"

definition ReconcileKustomization :: "'s kube \<Rightarrow> module \<Rightarrow> module_template \<Rightarrow> string \<Rightarrow> 's step" where
  "ReconcileKustomization K m mt version s =
     (case mts_kustomization (mt_spec mt) of
        None \<Rightarrow> (Some (TemplateInvalidError (mt_name mt)
                   ''kustomization spec is nil but Module expects a Kustomization template''), s)
      | Some templateSpec \<Rightarrow>
          k_create_or_update K (new_object KustomizationKind (TargetNamespace m mt) (m_name m))
            (mutate_kustomization K m mt version templateSpec) s)"

definition DeleteKustomization :: "'s kube \<Rightarrow> module \<Rightarrow> string \<Rightarrow> 's step" where
  "DeleteKustomization K m namespace s =
     (case k_delete K (KustomizationKind, namespace, m_name m) s of
        (Some err, s') \<Rightarrow> (k_ignore_not_found K (Some err), s')
      | (None, s') \<Rightarrow> (None, s'))"

section \<open>The Flux resource a Module should have\<close>

text \<open>
  The abstract specification: the kind and the spec of the Flux resource, if the template has
  one. A HelmRelease wins when both are set (which the CRD forbids).
\<close>

definition desired_flux :: "module \<Rightarrow> module_template \<Rightarrow> (kind \<times> obj_spec) option" where
  "desired_flux m mt =
     (case (mts_helm_release (mt_spec mt), mts_kustomization (mt_spec mt)) of
        (Some h, _) \<Rightarrow> Some (HelmReleaseKind, HelmReleaseSpec (helm_spec_for m h))
      | (None, Some k) \<Rightarrow> Some (KustomizationKind, KustomizationSpec k)
      | (None, None) \<Rightarrow> None)"

definition flux_ready ::
  "'s kube \<Rightarrow> (obj_spec \<Rightarrow> obj_spec) \<Rightarrow> module \<Rightarrow> module_template \<Rightarrow> string \<Rightarrow> obj_spec
     \<Rightarrow> kobject option \<Rightarrow> bool" where
  "flux_ready K dflt m mt version sp x =
     (case x of None \<Rightarrow> False
      | Some ob \<Rightarrow> obj_spec ob = dflt sp
          \<and> settled_owner K (module_owner m) (obj_meta ob)
          \<and> creation_timestamp (obj_meta ob) \<noteq> None
          \<and> (\<exists>l. obj_labels ob = Some l
               \<and> maps_copy l (LabelsForModule (m_name m) (mt_name mt) version) = l))"

text \<open>What both mutate functions come down to.\<close>

definition write_flux ::
  "'s kube \<Rightarrow> module \<Rightarrow> module_template \<Rightarrow> string \<Rightarrow> obj_spec \<Rightarrow> kobject \<Rightarrow> go_error + kobject" where
  "write_flux K m mt version sp ob =
     own_by K (module_owner m)
       (set_labels (Some (maps_copy (labels_or_empty (meta_labels (obj_meta ob)))
           (LabelsForModule (m_name m) (mt_name mt) version))) (ob\<lparr> obj_spec := sp \<rparr>))"

lemma mutate_helm_release_write:
  "mutate_helm_release K m mt version h = write_flux K m mt version (HelmReleaseSpec (helm_spec_for m h))"
  by (simp add: fun_eq_iff mutate_helm_release_def write_flux_def Let_def labels_or_empty_def)

lemma mutate_kustomization_write:
  "mutate_kustomization K m mt version k = write_flux K m mt version (KustomizationSpec k)"
  by (simp add: fun_eq_iff mutate_kustomization_def write_flux_def Let_def labels_or_empty_def)

context kube_api
begin

lemma DeleteHelmRelease_eq:
  "DeleteHelmRelease K m ns = delete_ignoring_not_found K (HelmReleaseKind, ns, m_name m)"
  by (auto simp: fun_eq_iff DeleteHelmRelease_def delete_ignoring_not_found_def
      split: prod.splits option.splits)

lemma DeleteKustomization_eq:
  "DeleteKustomization K m ns = delete_ignoring_not_found K (KustomizationKind, ns, m_name m)"
  by (auto simp: fun_eq_iff DeleteKustomization_def delete_ignoring_not_found_def
      split: prod.splits option.splits)

lemma name_label_fresh_flux [simp]: "LabelsForModule n template version name_label = None"
proof -
  have "name_label \<notin> dom (LabelsForModule n template version)"
    unfolding LabelsForModule_def by (simp add: dom_Standard label_keys name_label_def LabelModuleTemplate_def)
  then show ?thesis by blast
qed

lemma write_flux_ok:
  assumes "write_flux K m mt version sp b = Inr ob'" and "written dflt ob' x"
  shows "flux_ready K dflt m mt version sp (Some x)"
  using own_by_ok [OF assms(1) [unfolded write_flux_def]] assms(2) 
    served_labels_copy [of "LabelsForModule (m_name m) (mt_name mt) version"] name_label_fresh_flux
  by (auto simp: flux_ready_def written_def obj_labels_def)

lemma write_flux_settled:
  assumes key: "key_of x = (kd, ns, n)" and kd: "kd \<noteq> NamespaceKind"
    and "flux_ready K dflt m mt version sp (Some x)"
  shows "\<exists>ob'. write_flux K m mt version sp x = Inr ob' \<and> written dflt ob' x"
proof -
  let ?L = "LabelsForModule (m_name m) (mt_name mt) version"
  obtain l where x: "obj_spec x = dflt sp" "settled_owner K (module_owner m) (obj_meta x)"
    "creation_timestamp (obj_meta x) \<noteq> None" "meta_labels (obj_meta x) = Some l" "maps_copy l ?L = l"
    using assms(3) by (auto simp: flux_ready_def obj_labels_def)
  let ?b = "set_labels (Some (maps_copy (labels_or_empty (meta_labels (obj_meta x))) ?L))
      (x\<lparr> obj_spec := sp \<rparr>)"
  have meta: "obj_meta ?b = obj_meta x" using x(4,5) by simp
  with x(2) have "write_flux K m mt version sp x = Inr ?b"
    unfolding write_flux_def by (intro own_by_settled) metis
  moreover have "written dflt ?b x"
    using x meta key kd by (simp add: written_def key_of_def)
  ultimately show ?thesis by blast
qed

lemma flux_goal_eq:
  "(\<lambda>v. \<exists>x. v k = Some x \<and> flux_ready K dflt m mt version sp (Some x))
     = (\<lambda>v. flux_ready K dflt m mt version sp (v k))"
  by (auto simp: fun_eq_iff flux_ready_def split: option.splits)

lemma write_flux_step:
  "reconcile_step view (k_create_or_update K (new_object kd ns name) (write_flux K m mt version sp))
     {(kd, ns, name)} (\<lambda>v. flux_ready K dflt m mt version sp (v (kd, ns, name)))"
proof -
  have "reconcile_step view (k_create_or_update K (new_object kd ns name) (write_flux K m mt version sp))
      {key_of (new_object kd ns name)}
      (\<lambda>v. \<exists>x. v (key_of (new_object kd ns name)) = Some x
         \<and> flux_ready K dflt m mt version sp (Some x))"
    by (rule create_or_update_step) (rule write_flux_ok)
  then show ?thesis by (simp add: flux_goal_eq)
qed

lemma write_flux_quiet:
  assumes "kd \<noteq> NamespaceKind"
  shows "quiet_on view (k_create_or_update K (new_object kd ns name) (write_flux K m mt version sp))
     (\<lambda>v. flux_ready K dflt m mt version sp (v (kd, ns, name)))"
proof -
  have "quiet_on view (k_create_or_update K (new_object kd ns name) (write_flux K m mt version sp))
      (\<lambda>v. \<exists>x. v (key_of (new_object kd ns name)) = Some x
         \<and> flux_ready K dflt m mt version sp (Some x))"
    by (rule create_or_update_quiet) (rule write_flux_settled [OF _ assms], simp_all)
  then show ?thesis by (simp add: flux_goal_eq)
qed

lemma write_flux_external:
  "k_create_or_update K ob (write_flux K m mt version sp) s = (Some e, s') \<Longrightarrow> external e"
  by (rule create_or_update_external) (auto simp: write_flux_def own_by_external)

end

end
