(* ===== verification/Module_Controller.thy ===== *)
theory Module_Controller
  imports Module_Core Reconciler
begin

text \<open>
  \<open>internal/controller/addons/module_controller.go\<close>: the reconciler of Modules. It keeps a
  finalizer on the Module, writes the Flux resource the template asks for, mirrors the
  readiness of that resource in the status, and deletes it before the Module goes away. The
  methods that share a name with one of the Workspace reconciler carry the suffix \<open>_module\<close>.
\<close>

section \<open>The client\<close>

record 's module_client =
  mc_get :: "string \<Rightarrow> 's \<Rightarrow> go_error + module"
  mc_get_template :: "string \<Rightarrow> 's \<Rightarrow> go_error + module_template"
  mc_list :: "'s \<Rightarrow> go_error + module list"
  mc_patch :: "module \<Rightarrow> module \<Rightarrow> 's \<Rightarrow> (go_error + module) \<times> 's"
  mc_patch_status :: "module \<Rightarrow> module \<Rightarrow> 's step"
  mc_status_equal :: "module_status \<Rightarrow> module_status \<Rightarrow> bool"

section \<open>Template and resources\<close>

definition fetchModuleTemplate ::
  "'s kube \<Rightarrow> 's module_client \<Rightarrow> string \<Rightarrow> 's \<Rightarrow> go_error + module_template" where
  "fetchModuleTemplate K M name s =
     (case mc_get_template M name s of
        Inl err \<Rightarrow> if k_is_not_found K err then Inl (TemplateNotFoundError name) else Inl err
      | Inr mt \<Rightarrow> Inr mt)"

definition reconcileResources_module ::
  "'s kube \<Rightarrow> module \<Rightarrow> module_template \<Rightarrow> string \<Rightarrow> 's step" where
  "reconcileResources_module K m mt version s =
     (if mts_helm_release (mt_spec mt) \<noteq> None then ReconcileHelmRelease K m mt version s
      else if mts_kustomization (mt_spec mt) \<noteq> None then ReconcileKustomization K m mt version s
      else (Some (TemplateInvalidError (mt_name mt)
              ''neither helmRelease nor kustomization is defined''), s))"

section \<open>Status\<close>

definition ready_false_status_module ::
  "'s kube \<Rightarrow> module \<Rightarrow> string \<Rightarrow> string \<Rightarrow> module_status" where
  "ready_false_status_module K m reason message =
     (m_status m)\<lparr>
       mst_conditions := k_set_status_condition K
         (ready_condition ConditionFalse reason message (meta_generation (m_meta m)))
         (mst_conditions (m_status m)),
       mst_observed_generation := meta_generation (m_meta m) \<rparr>"

definition setReadyConditionFalse_module ::
  "'s kube \<Rightarrow> 's module_client \<Rightarrow> module \<Rightarrow> string \<Rightarrow> string \<Rightarrow> 's \<Rightarrow> 's" where
  "setReadyConditionFalse_module K M m reason message s =
     (let m' = m\<lparr> m_status := ready_false_status_module K m reason message \<rparr>
      in case mc_patch_status M m m' s of (_, s') \<Rightarrow> s')"

definition handleReconcileError_module ::
  "'s kube \<Rightarrow> 's module_client \<Rightarrow> 's reconciler \<Rightarrow> module \<Rightarrow> go_error \<Rightarrow> 's
     \<Rightarrow> go_error option go_result \<times> 's" where
  "handleReconcileError_module K M R m err s =
     (case as_TemplateNotFoundError err of
        Some _ \<Rightarrow>
          (let s' = setReadyConditionFalse_module K M m ''TemplateNotFound'' (error_text err) s
           in event_then R (warning_event ''TemplateNotFound'' (error_text err)) None s')
      | None \<Rightarrow>
          (case as_TemplateInvalidError err of
             Some _ \<Rightarrow>
               (let s' = setReadyConditionFalse_module K M m ''TemplateInvalid'' (error_text err) s
                in event_then R (warning_event ''TemplateInvalid'' (error_text err)) None s')
           | None \<Rightarrow>
               (let s' = setReadyConditionFalse_module K M m ''ReconcileError'' (error_text err) s
                in event_then R (warning_event ''ReconcileError'' (error_text err)) (Some err) s')))"

text \<open>Reading the Ready condition of a Flux resource.\<close>

definition observeHelmReleaseStatus ::
  "'s kube \<Rightarrow> string \<Rightarrow> string \<Rightarrow> 's \<Rightarrow> condition_status \<times> string \<times> string" where
  "observeHelmReleaseStatus K name namespace s =
     (case k_get K (HelmReleaseKind, namespace, name) s of
        Inl err \<Rightarrow>
          if k_is_not_found K err
          then (ConditionFalse, ''HelmReleaseNotFound'', ''waiting for HelmRelease to be created'')
          else (ConditionUnknown, ''HelmReleaseGetError'', error_text err)
      | Inr hr \<Rightarrow>
          (case k_find_status_condition K (obj_conditions hr) ''Ready'' of
             None \<Rightarrow> (ConditionUnknown, ''HelmReleasePending'',
                       ''HelmRelease has no Ready condition yet'')
           | Some c \<Rightarrow> (cond_status c, ''HelmRelease'' @ cond_reason c, cond_message c)))"

definition observeKustomizationStatus ::
  "'s kube \<Rightarrow> string \<Rightarrow> string \<Rightarrow> 's \<Rightarrow> condition_status \<times> string \<times> string" where
  "observeKustomizationStatus K name namespace s =
     (case k_get K (KustomizationKind, namespace, name) s of
        Inl err \<Rightarrow>
          if k_is_not_found K err
          then (ConditionFalse, ''KustomizationNotFound'', ''waiting for Kustomization to be created'')
          else (ConditionUnknown, ''KustomizationGetError'', error_text err)
      | Inr ks \<Rightarrow>
          (case k_find_status_condition K (obj_conditions ks) ''Ready'' of
             None \<Rightarrow> (ConditionUnknown, ''KustomizationPending'',
                       ''Kustomization has no Ready condition yet'')
           | Some c \<Rightarrow> (cond_status c, ''Kustomization'' @ cond_reason c, cond_message c)))"

definition observeFluxResourceStatus ::
  "'s kube \<Rightarrow> module \<Rightarrow> module_template \<Rightarrow> string \<Rightarrow> 's \<Rightarrow> condition_status \<times> string \<times> string" where
  "observeFluxResourceStatus K m mt namespace s =
     (if mts_helm_release (mt_spec mt) \<noteq> None then observeHelmReleaseStatus K (m_name m) namespace s
      else if mts_kustomization (mt_spec mt) \<noteq> None
        then observeKustomizationStatus K (m_name m) namespace s
      else (ConditionFalse, ''TemplateInvalid'', ''no flux resource type defined''))"

definition updated_status_module ::
  "'s kube \<Rightarrow> module \<Rightarrow> module_template \<Rightarrow> 's \<Rightarrow> module_status" where
  "updated_status_module K m mt s =
     (let st1 = (m_status m)\<lparr> mst_observed_generation := meta_generation (m_meta m),
                              mst_template_generation := meta_generation (mt_meta mt) \<rparr>;
          targetNS = TargetNamespace m mt;
          st2 = (if mts_helm_release (mt_spec mt) \<noteq> None then
                   st1\<lparr> mst_helm_release_ref := Some \<lparr> ar_name = m_name m, ar_namespace = targetNS \<rparr>,
                        mst_kustomization_ref := None \<rparr>
                 else if mts_kustomization (mt_spec mt) \<noteq> None then
                   st1\<lparr> mst_kustomization_ref := Some \<lparr> ar_name = m_name m, ar_namespace = targetNS \<rparr>,
                        mst_helm_release_ref := None \<rparr>
                 else st1)
      in case observeFluxResourceStatus K m mt targetNS s of
           (readyStatus, readyReason, readyMessage) \<Rightarrow>
             st2\<lparr> mst_conditions := sort_conditions (k_set_status_condition K
               (ready_condition readyStatus readyReason readyMessage (meta_generation (m_meta m)))
               (mst_conditions st2)) \<rparr>)"

definition updateStatus_module ::
  "'s kube \<Rightarrow> 's module_client \<Rightarrow> 's reconciler \<Rightarrow> module \<Rightarrow> module_template \<Rightarrow> 's
     \<Rightarrow> go_error option go_result \<times> 's" where
  "updateStatus_module K M R m mt s =
     (let newStatus = updated_status_module K m mt s in
      if \<not> mc_status_equal M (m_status m) newStatus then
        (case mc_patch_status M m (m\<lparr> m_status := newStatus \<rparr>) s of
           (Some err, s') \<Rightarrow> (Returns (Some err), s')
         | (None, s') \<Rightarrow>
             event_then R (reconciled_event ''Module resources reconciled for template %s''
               (ms_template_ref (m_spec m))) None s')
      else (Returns None, s))"

section \<open>Deletion\<close>

definition resolveCleanupNamespace ::
  "'s kube \<Rightarrow> 's module_client \<Rightarrow> module \<Rightarrow> 's \<Rightarrow> string" where
  "resolveCleanupNamespace K M m s =
     (let helm = mst_helm_release_ref (m_status m); kust = mst_kustomization_ref (m_status m) in
      if helm \<noteq> None \<and> ar_namespace (the helm) \<noteq> '''' then ar_namespace (the helm)
      else if kust \<noteq> None \<and> ar_namespace (the kust) \<noteq> '''' then ar_namespace (the kust)
      else (case ms_namespace (m_spec m) of
              Some ns \<Rightarrow> ns
            | None \<Rightarrow> (case fetchModuleTemplate K M (ms_template_ref (m_spec m)) s of
                Inl err \<Rightarrow> ''''
              | Inr mt \<Rightarrow> mts_namespace (mt_spec mt))))"

definition cleanup_flux :: "'s kube \<Rightarrow> module \<Rightarrow> string \<Rightarrow> 's step" where
  "cleanup_flux K m namespace =
     (if namespace \<noteq> '''' then
        then_ok
          (if mst_helm_release_ref (m_status m) \<noteq> None then DeleteHelmRelease K m namespace
           else (\<lambda>s. (None, s)))
          (if mst_kustomization_ref (m_status m) \<noteq> None then DeleteKustomization K m namespace
           else (\<lambda>s. (None, s)))
      else (\<lambda>s. (None, s)))"

definition reconcileDelete ::
  "'s kube \<Rightarrow> 's module_client \<Rightarrow> module \<Rightarrow> 's step" where
  "reconcileDelete K M m s =
     (if k_contains_finalizer K (m_meta m) ModuleFinalizer then
        (case cleanup_flux K m (resolveCleanupNamespace K M m s) s of
           (Some err, s') \<Rightarrow> (Some err, s')
         | (None, s') \<Rightarrow>
             (case mc_patch M m (m\<lparr> m_meta := k_remove_finalizer K (m_meta m) ModuleFinalizer \<rparr>) s' of
                (Inl err, s'') \<Rightarrow> (Some err, s'')
              | (Inr _, s'') \<Rightarrow> (None, s'')))
      else (None, s))"

section \<open>The reconciler\<close>

text \<open>Step 3 of \<open>Reconcile\<close>: the finalizer is persisted before anything else is done.\<close>

definition ensure_finalizer ::
  "'s kube \<Rightarrow> 's module_client \<Rightarrow> module \<Rightarrow> 's \<Rightarrow> (go_error + module) \<times> 's" where
  "ensure_finalizer K M m s =
     (if \<not> k_contains_finalizer K (m_meta m) ModuleFinalizer
      then mc_patch M m (m\<lparr> m_meta := k_add_finalizer K (m_meta m) ModuleFinalizer \<rparr>) s
      else (Inr m, s))"

text \<open>Steps 4 to 6: the template, the Flux resource, the status.\<close>

definition sync_module ::
  "'s kube \<Rightarrow> 's module_client \<Rightarrow> 's reconciler \<Rightarrow> module \<Rightarrow> 's
     \<Rightarrow> go_error option go_result \<times> 's" where
  "sync_module K M R m s =
     (case fetchModuleTemplate K M (ms_template_ref (m_spec m)) s of
        Inl err \<Rightarrow> handleReconcileError_module K M R m err s
      | Inr mt \<Rightarrow>
          (case reconcileResources_module K m mt (rec_version R) s of
             (Some err, s') \<Rightarrow> handleReconcileError_module K M R m err s'
           | (None, s') \<Rightarrow> updateStatus_module K M R m mt s'))"

definition Reconcile_module ::
  "'s kube \<Rightarrow> 's module_client \<Rightarrow> 's reconciler \<Rightarrow> string \<Rightarrow> 's
     \<Rightarrow> go_error option go_result \<times> 's" where
  "Reconcile_module K M R name s =
     (case mc_get M name s of
        Inl err \<Rightarrow> (Returns (k_ignore_not_found K (Some err)), s)
      | Inr m \<Rightarrow>
          if deletion_timestamp (m_meta m) \<noteq> None then
            (case reconcileDelete K M m s of (err, s') \<Rightarrow> (Returns err, s'))
          else
            (case ensure_finalizer K M m s of
               (Inl err, s') \<Rightarrow> (Returns (Some err), s')
             | (Inr m', s') \<Rightarrow> sync_module K M R m' s'))"

section \<open>Watches\<close>

definition mapModuleTemplateToModules ::
  "'s module_client \<Rightarrow> string \<Rightarrow> 's \<Rightarrow> string list" where
  "mapModuleTemplateToModules M templateName s =
     (case mc_list M s of
        Inl err \<Rightarrow> []
      | Inr items \<Rightarrow> map m_name (filter (\<lambda>m. ms_template_ref (m_spec m) = templateName) items))"

definition mapFluxResourceToModule :: "labels option \<Rightarrow> string list" where
  "mapFluxResourceToModule objLabels =
     (case objLabels of
        None \<Rightarrow> []
      | Some l \<Rightarrow>
          if l labels_ManagedBy \<noteq> Some ''otterscale-operator'' \<or> l labels_Component \<noteq> Some ''module''
          then []
          else (case l labels_Instance of None \<Rightarrow> [] | Some moduleName \<Rightarrow> [moduleName]))"

datatype module_watch =
    ForModule_GenerationChanged
  | WatchModuleTemplates
  | WatchHelmReleases
  | WatchKustomizations

definition SetupWithManager_module_watches :: "module_watch list" where
  "SetupWithManager_module_watches =
     [ForModule_GenerationChanged, WatchModuleTemplates, WatchHelmReleases, WatchKustomizations]"

section \<open>What the operations do to the objects\<close>

lemma desired_flux_helm:
  "mts_helm_release (mt_spec mt) = Some h \<Longrightarrow>
     desired_flux m mt = Some (HelmReleaseKind, HelmReleaseSpec (helm_spec_for m h))"
  by (simp add: desired_flux_def)

lemma desired_flux_kustomization:
  "mts_helm_release (mt_spec mt) = None \<Longrightarrow> mts_kustomization (mt_spec mt) = Some k \<Longrightarrow>
     desired_flux m mt = Some (KustomizationKind, KustomizationSpec k)"
  by (simp add: desired_flux_def)

definition flux_key :: "module \<Rightarrow> module_template \<Rightarrow> kind \<Rightarrow> key" where
  "flux_key m mt kd = (kd, TargetNamespace m mt, m_name m)"

text \<open>The dispatch on the template type is one reference definition.\<close>

lemma reconcileResources_module_cases:
  obtains
    (none) "desired_flux m mt = None"
      "reconcileResources_module K m mt version = (\<lambda>s. (Some (TemplateInvalidError (mt_name mt)
              ''neither helmRelease nor kustomization is defined''), s))"
  | (some) kd sp where "desired_flux m mt = Some (kd, sp)"
      "kd = HelmReleaseKind \<or> kd = KustomizationKind"
      "reconcileResources_module K m mt version =
         k_create_or_update K (new_object kd (TargetNamespace m mt) (m_name m))
           (write_flux K m mt version sp)"
proof (cases "mts_helm_release (mt_spec mt)")
  case (Some h)
  then show ?thesis
    by (intro some [of HelmReleaseKind "HelmReleaseSpec (helm_spec_for m h)"])
      (simp_all add: desired_flux_helm reconcileResources_module_def [abs_def]
        ReconcileHelmRelease_def [abs_def] mutate_helm_release_write)
next
  case None
  note helm = this
  show ?thesis
  proof (cases "mts_kustomization (mt_spec mt)")
    case (Some k)
    with helm show ?thesis
      by (intro some [of KustomizationKind "KustomizationSpec k"])
        (simp_all add: desired_flux_kustomization reconcileResources_module_def [abs_def]
          ReconcileKustomization_def [abs_def] mutate_kustomization_write)
  next
    case None
    with helm show ?thesis
      by (intro none) (simp_all add: desired_flux_def reconcileResources_module_def fun_eq_iff)
  qed
qed

context kube_api
begin

lemma flux_step:
  assumes "desired_flux m mt = Some (kd, sp)"
  shows "reconcile_step view (reconcileResources_module K m mt version) {flux_key m mt kd}
      (\<lambda>v. flux_ready K dflt m mt version sp (v (flux_key m mt kd)))"
  using assms write_flux_step
  by (cases rule: reconcileResources_module_cases [of m mt K version]) (simp_all add: flux_key_def)

lemma flux_quiet:
  assumes "desired_flux m mt = Some (kd, sp)"
  shows "quiet_on view (reconcileResources_module K m mt version)
      (\<lambda>v. flux_ready K dflt m mt version sp (v (flux_key m mt kd)))"
  using assms write_flux_quiet
  by (cases rule: reconcileResources_module_cases [of m mt K version]) (auto simp: flux_key_def)

lemma flux_external:
  assumes "desired_flux m mt = Some (kd, sp)"
    and "reconcileResources_module K m mt version s = (Some e, s')"
  shows "external e"
  using assms write_flux_external
  by (cases rule: reconcileResources_module_cases [of m mt K version]) auto

lemma flux_frame:
  assumes "reconcileResources_module K m mt version s = (r, s')"
    and "k \<noteq> flux_key m mt HelmReleaseKind" and "k \<noteq> flux_key m mt KustomizationKind"
  shows "view s' k = view s k"
proof (cases rule: reconcileResources_module_cases [of m mt K version])
  case none
  with assms show ?thesis by simp
next
  case (some kd sp)
  with assms have "k \<notin> {flux_key m mt kd}" by auto
  with reconcile_step.step_frame [OF flux_step [OF some(1)] assms(1)] show ?thesis by blast
qed

text \<open>The clean-up touches at most the two Flux objects of the Module in the namespace given.\<close>

lemma cleanup_flux_step:
  "reconcile_step view (cleanup_flux K m ns)
     {(HelmReleaseKind, ns, m_name m), (KustomizationKind, ns, m_name m)}
     (\<lambda>v. ns \<noteq> '''' \<longrightarrow>
        (mst_helm_release_ref (m_status m) \<noteq> None \<longrightarrow> gone_or_terminating v (HelmReleaseKind, ns, m_name m))
        \<and> (mst_kustomization_ref (m_status m) \<noteq> None \<longrightarrow> gone_or_terminating v (KustomizationKind, ns, m_name m)))"
proof (cases "ns = ''''")
  case True
  then show ?thesis by unfold_locales (auto simp: cleanup_flux_def)
next
  case False
  have one: "reconcile_step view (if c then delete_ignoring_not_found K k else (\<lambda>s. (None, s))) {k}
      (\<lambda>v. c \<longrightarrow> gone_or_terminating v k)" for c k
    using delete_step by (cases c) (auto intro: reconcile_step.intro)
  have "reconcile_step view
      (then_ok (if mst_helm_release_ref (m_status m) \<noteq> None
                then delete_ignoring_not_found K (HelmReleaseKind, ns, m_name m) else (\<lambda>s. (None, s)))
               (if mst_kustomization_ref (m_status m) \<noteq> None
                then delete_ignoring_not_found K (KustomizationKind, ns, m_name m) else (\<lambda>s. (None, s))))
      ({(HelmReleaseKind, ns, m_name m)} \<union> {(KustomizationKind, ns, m_name m)})
      (\<lambda>v. (mst_helm_release_ref (m_status m) \<noteq> None \<longrightarrow> gone_or_terminating v (HelmReleaseKind, ns, m_name m))
        \<and> (mst_kustomization_ref (m_status m) \<noteq> None \<longrightarrow> gone_or_terminating v (KustomizationKind, ns, m_name m)))"
    by (rule reconcile_step_then [OF one one]) simp
  then show ?thesis
    by (simp only: cleanup_flux_def DeleteHelmRelease_eq DeleteKustomization_eq False simp_thms
        if_True not_False_eq_True insert_is_Un [symmetric])
qed

end

sublocale kube_api \<subseteq> cleanup: reconcile_step view "cleanup_flux K m ns"
  "{(HelmReleaseKind, ns, m_name m), (KustomizationKind, ns, m_name m)}"
  "\<lambda>v. ns \<noteq> '''' \<longrightarrow>
     (mst_helm_release_ref (m_status m) \<noteq> None \<longrightarrow> gone_or_terminating v (HelmReleaseKind, ns, m_name m))
     \<and> (mst_kustomization_ref (m_status m) \<noteq> None \<longrightarrow> gone_or_terminating v (KustomizationKind, ns, m_name m))"
  for m ns
  by (rule cleanup_flux_step)

end
