(* ===== verification/Module_Store.thy ===== *)
theory Module_Store
  imports Module_Controller
begin

text \<open>
  What the Module reconciler relies on beyond the object client: the stored Modules and
  templates, a metadata patch that returns the stored result and deletes a terminating Module
  whose last finalizer it removes, and a status patch that replaces the status. The lemmas
  follow a reconciliation through its steps.
\<close>

definition same_but_finalizers :: "module \<Rightarrow> module \<Rightarrow> bool" where
  "same_but_finalizers m m' \<longleftrightarrow>
     (\<exists>fs. m' = m\<lparr> m_meta := (m_meta m)\<lparr> meta_finalizers := fs \<rparr> \<rparr>)"

definition has_module_finalizer :: "module \<Rightarrow> bool" where
  "has_module_finalizer m \<longleftrightarrow> ModuleFinalizer \<in> set (meta_finalizers (m_meta m))"

locale module_store = kube_api K view dflt + condition_api K + finalizer_api K
  for K :: "'s kube"
    and view :: "'s \<Rightarrow> key \<Rightarrow> kobject option"
    and dflt :: "obj_spec \<Rightarrow> obj_spec" +
  fixes M :: "'s module_client"
    and mod_view :: "'s \<Rightarrow> string \<Rightarrow> module option"
    and tmpl_view :: "'s \<Rightarrow> string \<Rightarrow> module_template option"
    and emit :: "event \<Rightarrow> 's \<Rightarrow> 's"
  assumes mod_get_ok: "mc_get M n s = Inr m \<Longrightarrow> mod_view s n = Some m \<and> m_name m = n"
    and mod_get_external: "mc_get M n s = Inl e \<Longrightarrow> external e"
    and tmpl_get_ok: "mc_get_template M n s = Inr mt \<Longrightarrow> tmpl_view s n = Some mt \<and> mt_name mt = n"
    and tmpl_get_external: "mc_get_template M n s = Inl e \<Longrightarrow> external e"
    and tmpl_get_missing:
      "mc_get_template M n s = Inl e \<Longrightarrow> k_is_not_found K e \<longleftrightarrow> tmpl_view s n = None"
    and mod_status_equal: "mc_status_equal M a b \<longleftrightarrow> a = b"
    and mod_patch_objects: "mc_patch M m m' s = (q, s') \<Longrightarrow> view s' = view s"
    and mod_patch_ok:
      "mc_patch M m (m\<lparr> m_meta := (m_meta m)\<lparr> meta_finalizers := fs \<rparr> \<rparr>) s = (Inr m2, s') \<Longrightarrow>
         mod_view s (m_name m) = Some m \<Longrightarrow>
         m2 = m\<lparr> m_meta := (m_meta m)\<lparr> meta_finalizers := fs \<rparr> \<rparr>
         \<and> mod_view s' = (mod_view s)(m_name m :=
             (if deletion_timestamp (m_meta m) \<noteq> None \<and> fs = [] then None else Some m2))"
    and mod_patch_error:
      "mc_patch M m (m\<lparr> m_meta := (m_meta m)\<lparr> meta_finalizers := fs \<rparr> \<rparr>) s = (Inl e, s') \<Longrightarrow>
         mod_view s (m_name m) = Some m \<Longrightarrow>
         external e \<and> (mod_view s' = mod_view s
           \<or> mod_view s' = (mod_view s)(m_name m :=
               (if deletion_timestamp (m_meta m) \<noteq> None \<and> fs = [] then None
                else Some (m\<lparr> m_meta := (m_meta m)\<lparr> meta_finalizers := fs \<rparr> \<rparr>))))"
    and mod_patch_templates: "mc_patch M m m' s = (q, s') \<Longrightarrow> tmpl_view s' = tmpl_view s"
    and mod_patch_status_objects: "mc_patch_status M m m' s = (r, s') \<Longrightarrow> view s' = view s"
    and mod_patch_status_ok:
      "mc_patch_status M m (m\<lparr> m_status := st \<rparr>) s = (None, s') \<Longrightarrow>
         mod_view s (m_name m) = Some m \<Longrightarrow>
         mod_view s' = (mod_view s)(m_name m \<mapsto> m\<lparr> m_status := st \<rparr>)"
    and mod_patch_status_error:
      "mc_patch_status M m (m\<lparr> m_status := st \<rparr>) s = (Some e, s') \<Longrightarrow>
         mod_view s (m_name m) = Some m \<Longrightarrow>
         external e \<and> (mod_view s' = mod_view s
           \<or> mod_view s' = (mod_view s)(m_name m \<mapsto> m\<lparr> m_status := st \<rparr>))"
    and mod_create_or_update: "k_create_or_update K ob f s = (r, s') \<Longrightarrow> mod_view s' = mod_view s"
    and mod_delete: "k_delete K k s = (r, s') \<Longrightarrow> mod_view s' = mod_view s"
    and mod_emit_objects: "view (emit ev s) = view s"
    and mod_emit_modules: "mod_view (emit ev s) = mod_view s"
begin

lemma contains_has: "k_contains_finalizer K (m_meta m) ModuleFinalizer \<longleftrightarrow> has_module_finalizer m"
  by (simp add: contains_finalizer has_module_finalizer_def)

lemma flux_modules:
  "reconcileResources_module K m mt version s = (r, s') \<Longrightarrow> mod_view s' = mod_view s"
  by (cases rule: reconcileResources_module_cases [of m mt K version])
    (auto dest: mod_create_or_update)

lemma delete_ignoring_modules:
  "delete_ignoring_not_found K k s = (r, s') \<Longrightarrow> mod_view s' = mod_view s"
  by (auto simp: delete_ignoring_not_found_def dest: mod_delete split: prod.splits)

lemma cleanup_modules:
  assumes "cleanup_flux K m ns s = (r, s')"
  shows "mod_view s' = mod_view s"
proof -
  have one: "(if c then delete_ignoring_not_found K k else (\<lambda>s. (None, s))) s = (r, s') \<Longrightarrow>
      mod_view s' = mod_view s" for c k s r s'
    by (cases c) (auto dest: delete_ignoring_modules)
  show ?thesis
  proof (cases "ns = ''''")
    case True
    with assms show ?thesis by (simp add: cleanup_flux_def)
  next
    case False
    let ?f = "if mst_helm_release_ref (m_status m) \<noteq> None
      then delete_ignoring_not_found K (HelmReleaseKind, ns, m_name m) else (\<lambda>s. (None, s))"
    let ?g = "if mst_kustomization_ref (m_status m) \<noteq> None
      then delete_ignoring_not_found K (KustomizationKind, ns, m_name m) else (\<lambda>s. (None, s))"
    have run: "then_ok ?f ?g s = (r, s')"
      using assms False by (simp only: cleanup_flux_def DeleteHelmRelease_eq DeleteKustomization_eq
          simp_thms if_True not_False_eq_True)
    obtain r1 t where f: "?f s = (r1, t)" by force
    from one [OF this] have t: "mod_view t = mod_view s" .
    show ?thesis
    proof (cases r1)
      case None
      have "then_ok ?f ?g s = ?g t" unfolding then_ok_def f None by simp
      with run one [of _ _ t r s'] t show ?thesis by simp
    next
      case (Some e)
      have "then_ok ?f ?g s = (Some e, t)" unfolding then_ok_def f Some by simp
      with run t show ?thesis by simp
    qed
  qed
qed

text \<open>The status steps keep every object and the metadata of the Module.\<close>

definition keeps_meta :: "string \<Rightarrow> 's \<Rightarrow> 's \<Rightarrow> bool" where
  "keeps_meta n s s' \<longleftrightarrow> map_option m_meta (mod_view s' n) = map_option m_meta (mod_view s n)"

lemma patch_status_keeps:
  assumes "mod_view s (m_name m) = Some m"
    and "mc_patch_status M m (m\<lparr> m_status := st \<rparr>) s = (r, s')"
  shows "keeps_meta (m_name m) s s' \<and> view s' = view s"
proof (cases r)
  case None
  with assms mod_patch_status_ok [of m st s s'] mod_patch_status_objects show ?thesis
    by (auto simp: keeps_meta_def)
next
  case (Some e)
  with assms mod_patch_status_error [of m st s e s'] mod_patch_status_objects show ?thesis
    by (auto simp: keeps_meta_def)
qed

lemma set_ready_false_keeps:
  assumes "mod_view s (m_name m) = Some m"
  shows "keeps_meta (m_name m) s (setReadyConditionFalse_module K M m reason message s)
    \<and> view (setReadyConditionFalse_module K M m reason message s) = view s"
  using patch_status_keeps [OF assms]
  by (auto simp: setReadyConditionFalse_module_def Let_def split: prod.splits)

lemma event_then_keeps:
  assumes "rec_recorder R = Some emit" and "event_then R ev res t = (out, s')"
    and "keeps_meta n s t \<and> view t = view s"
  shows "keeps_meta n s s' \<and> view s' = view s \<and> out = Returns res"
  using assms by (auto simp: event_then_recorder keeps_meta_def mod_emit_objects mod_emit_modules)

lemma handle_error_module:
  assumes rec: "rec_recorder R = Some emit" and m: "mod_view s (m_name m) = Some m"
    and run: "handleReconcileError_module K M R m err s = (out, s')"
  shows "keeps_meta (m_name m) s s' \<and> view s' = view s
    \<and> out = Returns (if external err then Some err else
        if as_TemplateNotFoundError err \<noteq> None \<or> as_TemplateInvalidError err \<noteq> None then None
        else Some err)"
  using run set_ready_false_keeps [OF m]
  by (auto simp: handleReconcileError_module_def Let_def external_not_template_missing
      external_not_template_invalid split: option.splits
      dest!: event_then_keeps [OF rec])

lemma update_status_module_keeps:
  assumes rec: "rec_recorder R = Some emit" and m: "mod_view s (m_name m) = Some m"
    and run: "updateStatus_module K M R m mt s = (out, s')"
  shows "keeps_meta (m_name m) s s' \<and> view s' = view s"
proof (cases "m_status m = updated_status_module K m mt s")
  case True
  with run show ?thesis by (simp add: updateStatus_module_def mod_status_equal keeps_meta_def)
next
  case False
  obtain r t where p: "mc_patch_status M m (m\<lparr> m_status := updated_status_module K m mt s \<rparr>) s = (r, t)"
    by force
  with patch_status_keeps [OF m] have keep: "keeps_meta (m_name m) s t \<and> view t = view s" by blast
  show ?thesis
  proof (cases r)
    case None
    with run False p have "event_then R (reconciled_event ''Module resources reconciled for template %s''
        (ms_template_ref (m_spec m))) None t = (out, s')"
      by (simp add: updateStatus_module_def Let_def mod_status_equal)
    from event_then_keeps [OF rec this keep] show ?thesis by blast
  next
    case (Some e)
    with run False p keep show ?thesis by (simp add: updateStatus_module_def Let_def mod_status_equal)
  qed
qed

lemma update_status_module_ok:
  assumes rec: "rec_recorder R = Some emit" and m: "mod_view s (m_name m) = Some m"
    and run: "updateStatus_module K M R m mt s = (Returns None, s')"
  shows "mod_view s' (m_name m) = Some (m\<lparr> m_status := updated_status_module K m mt s \<rparr>)"
proof (cases "m_status m = updated_status_module K m mt s")
  case True
  with run have "s' = s" by (simp add: updateStatus_module_def mod_status_equal)
  with m True show ?thesis by simp
next
  case False
  then obtain t ev where
    p: "mc_patch_status M m (m\<lparr> m_status := updated_status_module K m mt s \<rparr>) s = (None, t)"
    and s': "s' = emit ev t"
    using run by (auto simp: updateStatus_module_def Let_def mod_status_equal
        event_then_recorder [OF rec] split: prod.splits option.splits)
  from mod_patch_status_ok [OF p m] show ?thesis by (simp add: s' mod_emit_modules)
qed

text \<open>The finalizer step: on success the stored Module has the finalizer.\<close>

lemma ensure_finalizer_ok:
  assumes m: "mod_view s (m_name m) = Some m" and live: "deletion_timestamp (m_meta m) = None"
    and run: "ensure_finalizer K M m s = (Inr m', s')"
  shows "same_but_finalizers m m'" and "has_module_finalizer m'"
    and "mod_view s' (m_name m') = Some m'" and "view s' = view s"
proof -
  have "same_but_finalizers m m' \<and> has_module_finalizer m' \<and> mod_view s' (m_name m') = Some m'
    \<and> view s' = view s"
  proof (cases "has_module_finalizer m")
    case True
    with run have "m' = m" "s' = s" by (simp_all add: ensure_finalizer_def contains_has)
    moreover have "same_but_finalizers m m"
      by (auto simp: same_but_finalizers_def intro!: exI [of _ "meta_finalizers (m_meta m)"])
    ultimately show ?thesis using True m by simp
  next
    case False
    define fs where "fs = meta_finalizers (k_add_finalizer K (m_meta m) ModuleFinalizer)"
    have add: "k_add_finalizer K (m_meta m) ModuleFinalizer = (m_meta m)\<lparr> meta_finalizers := fs \<rparr>"
      unfolding fs_def by (rule add_finalizer(1))
    have p: "mc_patch M m (m\<lparr> m_meta := (m_meta m)\<lparr> meta_finalizers := fs \<rparr> \<rparr>) s = (Inr m', s')"
      using run False by (simp add: ensure_finalizer_def contains_has add)
    have fs: "ModuleFinalizer \<in> set fs"
      using add_finalizer(2) [of "m_meta m" ModuleFinalizer] by (simp add: fs_def)
    from mod_patch_ok [OF p m]
    have m': "m' = m\<lparr> m_meta := (m_meta m)\<lparr> meta_finalizers := fs \<rparr> \<rparr>"
      and s': "mod_view s' (m_name m) = Some m'"
      using live by auto
    then show ?thesis
      using fs mod_patch_objects [OF p]
      by (auto simp: same_but_finalizers_def has_module_finalizer_def)
  qed
  then show "same_but_finalizers m m'" "has_module_finalizer m'"
    "mod_view s' (m_name m') = Some m'" "view s' = view s" by blast+
qed

lemma ensure_finalizer_objects: "ensure_finalizer K M m s = (r, s') \<Longrightarrow> view s' = view s"
  by (auto simp: ensure_finalizer_def dest: mod_patch_objects split: if_splits)

text \<open>The synchronisation of a live Module: which objects it may touch, what it keeps.\<close>

lemma sync_keeps:
  assumes rec: "rec_recorder R = Some emit" and m: "mod_view s (m_name m) = Some m"
    and run: "sync_module K M R m s = (out, s')"
  shows "keeps_meta (m_name m) s s'"
    and "\<exists>t. view s' = view t
      \<and> (t = s \<or> (\<exists>mt e. fetchModuleTemplate K M (ms_template_ref (m_spec m)) s = Inr mt
            \<and> reconcileResources_module K m mt (rec_version R) s = (e, t)))"
proof -
  have "keeps_meta (m_name m) s s' \<and> (\<exists>t. view s' = view t
      \<and> (t = s \<or> (\<exists>mt e. fetchModuleTemplate K M (ms_template_ref (m_spec m)) s = Inr mt
            \<and> reconcileResources_module K m mt (rec_version R) s = (e, t))))"
  proof (cases "fetchModuleTemplate K M (ms_template_ref (m_spec m)) s")
    case (Inl err)
    with run have "handleReconcileError_module K M R m err s = (out, s')" by (simp add: sync_module_def)
    from handle_error_module [OF rec m this] show ?thesis by blast
  next
    case (Inr mt)
    obtain e t where res: "reconcileResources_module K m mt (rec_version R) s = (e, t)" by force
    then have mt: "mod_view t = mod_view s" by (rule flux_modules)
    with m have m': "mod_view t (m_name m) = Some m" by simp
    have "keeps_meta (m_name m) t s' \<and> view s' = view t"
    proof (cases e)
      case None
      with run Inr res have "updateStatus_module K M R m mt t = (out, s')" by (simp add: sync_module_def)
      from update_status_module_keeps [OF rec m' this] show ?thesis .
    next
      case (Some err)
      with run Inr res have "handleReconcileError_module K M R m err t = (out, s')"
        by (simp add: sync_module_def)
      from handle_error_module [OF rec m' this] show ?thesis by blast
    qed
    with mt Inr res show ?thesis by (auto simp: keeps_meta_def)
  qed
  then show "keeps_meta (m_name m) s s'" and "\<exists>t. view s' = view t
      \<and> (t = s \<or> (\<exists>mt e. fetchModuleTemplate K M (ms_template_ref (m_spec m)) s = Inr mt
            \<and> reconcileResources_module K m mt (rec_version R) s = (e, t)))"
    by blast+
qed

end

end
