(* ===== verification/Module_Guarantees.thy ===== *)
theory Module_Guarantees
  imports Module_Store
begin

text \<open>
  What a reconciliation of a Module guarantees, proved in the locale \<open>module_store\<close>: how each
  run splits into its stages, what is stored of the Module after it, and when the finalizer
  goes. The properties of the development are instances of these lemmas.
\<close>

section \<open>Only the finalizers differ\<close>

lemma same_but_finalizers_simps:
  assumes "same_but_finalizers m m'"
  shows "m_name m' = m_name m" "m_spec m' = m_spec m" "m_status m' = m_status m"
    "module_owner m' = module_owner m" "deletion_timestamp (m_meta m') = deletion_timestamp (m_meta m)"
    "meta_generation (m_meta m') = meta_generation (m_meta m)"
  using assms by (auto simp: same_but_finalizers_def module_owner_def)

lemma desired_flux_same: "same_but_finalizers m m' \<Longrightarrow> desired_flux m' mt = desired_flux m mt"
  by (simp add: desired_flux_def helm_spec_for_def same_but_finalizers_simps split: option.split)

lemma flux_key_same: "same_but_finalizers m m' \<Longrightarrow> flux_key m' mt kd = flux_key m mt kd"
  by (simp add: flux_key_def TargetNamespace_def same_but_finalizers_simps)

lemma flux_ready_same:
  "same_but_finalizers m m' \<Longrightarrow> flux_ready K dflt m' mt version sp x = flux_ready K dflt m mt version sp x"
  by (simp add: flux_ready_def same_but_finalizers_simps split: option.split)

definition flux_keys :: "string \<Rightarrow> key set" where
  "flux_keys name = {(kd, ns, n). (kd = HelmReleaseKind \<or> kd = KustomizationKind) \<and> n = name}"

definition at_most_one_ref :: "module_status \<Rightarrow> bool" where
  "at_most_one_ref st \<longleftrightarrow> mst_helm_release_ref st = None \<or> mst_kustomization_ref st = None"

lemma at_most_one_ready_false:
  "at_most_one_ref (ready_false_status_module K m reason message) = at_most_one_ref (m_status m)"
  by (simp add: at_most_one_ref_def ready_false_status_module_def)

lemma at_most_one_updated:
  "desired_flux m mt \<noteq> None \<Longrightarrow> at_most_one_ref (updated_status_module K m mt s)"
  by (auto simp: at_most_one_ref_def updated_status_module_def desired_flux_def Let_def
      split: prod.splits option.splits)

text \<open>The references of an updated status, and the observed readiness in its Ready condition.\<close>

lemma updated_status_refs:
  assumes "desired_flux m mt = Some (kd, sp)"
  shows "mst_helm_release_ref (updated_status_module K m mt s) =
      (if kd = HelmReleaseKind then Some \<lparr> ar_name = m_name m, ar_namespace = TargetNamespace m mt \<rparr> else None)
    \<and> mst_kustomization_ref (updated_status_module K m mt s) =
      (if kd = KustomizationKind then Some \<lparr> ar_name = m_name m, ar_namespace = TargetNamespace m mt \<rparr> else None)"
  using assms
  by (auto simp: updated_status_module_def desired_flux_def Let_def split: prod.splits option.splits)

context condition_api
begin

lemma updated_status_module_ready:
  assumes "observeFluxResourceStatus K m mt (TargetNamespace m mt) s = (st, reason, message)"
  shows "\<exists>c. ready_of (mst_conditions (updated_status_module K m mt s)) = Some c
    \<and> cond_status c = st \<and> cond_reason c = reason \<and> cond_message c = message"
  using ready_of_set [of st reason message "meta_generation (m_meta m)" "mst_conditions (m_status m)"] assms
  by (auto simp: updated_status_module_def Let_def same_condition_def)

lemma observe_true_iff:
  assumes "desired_flux m mt = Some (kd, sp)"
  shows "fst (observeFluxResourceStatus K m mt (TargetNamespace m mt) s) = ConditionTrue \<longleftrightarrow>
    (\<exists>ob c. k_get K (flux_key m mt kd) s = Inr ob \<and> ready_of (obj_conditions ob) = Some c
       \<and> cond_status c = ConditionTrue)"
  using assms
  by (auto simp: desired_flux_def observeFluxResourceStatus_def observeHelmReleaseStatus_def
      observeKustomizationStatus_def flux_key_def ready_of_def find_status_condition
      split: option.splits sum.splits)

lemma module_ready_iff:
  assumes "desired_flux m mt = Some (kd, sp)"
  shows "(\<exists>c. ready_of (mst_conditions (updated_status_module K m mt s)) = Some c
      \<and> cond_status c = ConditionTrue) \<longleftrightarrow>
    (\<exists>ob c. k_get K (flux_key m mt kd) s = Inr ob \<and> ready_of (obj_conditions ob) = Some c
       \<and> cond_status c = ConditionTrue)"
proof -
  obtain st reason message where obs:
    "observeFluxResourceStatus K m mt (TargetNamespace m mt) s = (st, reason, message)"
    by (metis prod_cases3)
  from updated_status_module_ready [OF this] observe_true_iff [OF assms, of s] obs
  show ?thesis by auto
qed

end

section \<open>The stages of a run\<close>

context module_store
begin

lemma reconcile_module_cases:
  assumes "Reconcile_module K M R name s = (out, s')" and "mc_get M name s = Inr m"
  obtains
    (deleting) r where "deletion_timestamp (m_meta m) \<noteq> None" "reconcileDelete K M m s = (r, s')"
      "out = Returns r"
  | (refused) e where "deletion_timestamp (m_meta m) = None" "ensure_finalizer K M m s = (Inl e, s')"
      "out = Returns (Some e)"
  | (syncing) m1 s1 where "deletion_timestamp (m_meta m) = None"
      "ensure_finalizer K M m s = (Inr m1, s1)" "sync_module K M R m1 s1 = (out, s')"
  using assms by (auto simp: Reconcile_module_def split: if_splits prod.splits sum.splits)

lemma ensure_finalizer_templates: "ensure_finalizer K M m s = (r, s') \<Longrightarrow> tmpl_view s' = tmpl_view s"
  by (auto simp: ensure_finalizer_def dest: mod_patch_templates split: if_splits)

lemma ensure_finalizer_error:
  assumes "mod_view s (m_name m) = Some m" and "ensure_finalizer K M m s = (Inl e, s')"
  shows "external e \<and> (mod_view s' = mod_view s
    \<or> (\<exists>m1. same_but_finalizers m m1 \<and> mod_view s' = (mod_view s)(m_name m := Some m1)
         \<and> has_module_finalizer m1)
    \<or> mod_view s' (m_name m) = None)"
proof -
  define fs where "fs = meta_finalizers (k_add_finalizer K (m_meta m) ModuleFinalizer)"
  have add: "k_add_finalizer K (m_meta m) ModuleFinalizer = (m_meta m)\<lparr> meta_finalizers := fs \<rparr>"
    unfolding fs_def by (rule add_finalizer(1))
  have fin: "ModuleFinalizer \<in> set fs"
    using add_finalizer(2) [of "m_meta m" ModuleFinalizer] by (simp add: fs_def)
  have "mc_patch M m (m\<lparr> m_meta := (m_meta m)\<lparr> meta_finalizers := fs \<rparr> \<rparr>) s = (Inl e, s')"
    using assms(2) by (simp add: ensure_finalizer_def add split: if_splits)
  note err = mod_patch_error [OF this assms(1)]
  let ?m1 = "m\<lparr> m_meta := (m_meta m)\<lparr> meta_finalizers := fs \<rparr> \<rparr>"
  have "same_but_finalizers m ?m1" "has_module_finalizer ?m1"
    using fin by (auto simp: same_but_finalizers_def has_module_finalizer_def)
  moreover have "fs \<noteq> []" using fin by auto
  ultimately show ?thesis using err by auto
qed

lemma fetch_cases:
  assumes "fetchModuleTemplate K M n s = r"
  obtains
    (missing) "tmpl_view s n = None" "r = Inl (TemplateNotFoundError n)"
  | (failed) e where "external e" "tmpl_view s n \<noteq> None" "r = Inl e"
  | (found) mt where "tmpl_view s n = Some mt" "mt_name mt = n" "r = Inr mt"
proof (cases "mc_get_template M n s")
  case (Inl e)
  show ?thesis
  proof (cases "k_is_not_found K e")
    case True
    with assms Inl tmpl_get_missing [OF Inl] missing show ?thesis by (simp add: fetchModuleTemplate_def)
  next
    case False
    with tmpl_get_missing [OF Inl] have "tmpl_view s n \<noteq> None" by simp
    with assms Inl False tmpl_get_external [OF Inl] show ?thesis
      by (intro failed [of e]) (auto simp: fetchModuleTemplate_def)
  qed
next
  case (Inr mt)
  with assms tmpl_get_ok [OF Inr] found [of mt] show ?thesis by (simp add: fetchModuleTemplate_def)
qed

text \<open>The ways the synchronisation of a Module can go.\<close>

lemma sync_cases:
  assumes rec: "rec_recorder R = Some emit" and m: "mod_view s (m_name m) = Some m"
    and run: "sync_module K M R m s = (out, s')"
  obtains
    (permanent) "out = Returns None" "view s' = view s"
      "case tmpl_view s (ms_template_ref (m_spec m)) of None \<Rightarrow> True | Some mt \<Rightarrow> desired_flux m mt = None"
  | (transient) e where "out = Returns (Some e)" "external e"
      "tmpl_view s (ms_template_ref (m_spec m)) \<noteq> None"
  | (synced) mt kd sp t where "tmpl_view s (ms_template_ref (m_spec m)) = Some mt"
      "desired_flux m mt = Some (kd, sp)"
      "reconcileResources_module K m mt (rec_version R) s = (None, t)"
      "updateStatus_module K M R m mt t = (out, s')" "mod_view t (m_name m) = Some m"
proof (cases rule: fetch_cases [OF refl, where n = "ms_template_ref (m_spec m)" and s = s])
  case 1
  with run have h: "handleReconcileError_module K M R m
      (TemplateNotFoundError (ms_template_ref (m_spec m))) s = (out, s')"
    by (simp add: sync_module_def)
  from handle_error_module [OF rec m h] 1 permanent show ?thesis by simp
next
  case (2 e)
  with run have h: "handleReconcileError_module K M R m e s = (out, s')" by (simp add: sync_module_def)
  from handle_error_module [OF rec m h] 2 transient [of e] show ?thesis by simp
next
  case (3 mt)
  show ?thesis
  proof (cases rule: reconcileResources_module_cases [of m mt K "rec_version R"])
    case none
    with 3 run have h: "handleReconcileError_module K M R m (TemplateInvalidError (mt_name mt)
        ''neither helmRelease nor kustomization is defined'') s = (out, s')"
      by (simp add: sync_module_def)
    from handle_error_module [OF rec m h] 3 none permanent show ?thesis by simp
  next
    case (some kd sp)
    obtain r t where res: "reconcileResources_module K m mt (rec_version R) s = (r, t)" by force
    then have t: "mod_view t (m_name m) = Some m" using flux_modules m by simp
    show ?thesis
    proof (cases r)
      case None
      with 3 run res some t show ?thesis by (intro synced [of mt kd sp t]) (simp_all add: sync_module_def)
    next
      case (Some e)
      with flux_external [OF some(1)] res have ext: "external e" by blast
      from 3 run res Some have h: "handleReconcileError_module K M R m e t = (out, s')"
        by (simp add: sync_module_def)
      from handle_error_module [OF rec t h] ext 3 transient [of e] show ?thesis by simp
    qed
  qed
qed

section \<open>The outcome of a run\<close>

lemma reconcile_module_ok:
  assumes rec: "rec_recorder R = Some emit" and m: "mc_get M name s = Inr m"
    and live: "deletion_timestamp (m_meta m) = None"
    and run: "Reconcile_module K M R name s = (Returns None, s')"
  shows "(\<exists>m'. mod_view s' name = Some m' \<and> has_module_finalizer m')
    \<and> (case tmpl_view s (ms_template_ref (m_spec m)) of
         None \<Rightarrow> view s' = view s
       | Some mt \<Rightarrow>
           (case desired_flux m mt of
              None \<Rightarrow> view s' = view s
            | Some (kd, sp) \<Rightarrow> flux_ready K dflt m mt (rec_version R) sp (view s' (flux_key m mt kd))))"
  using run m
proof (cases rule: reconcile_module_cases)
  case (syncing m1 s1)
  have stored: "mod_view s (m_name m) = Some m" and name: "m_name m = name" using mod_get_ok [OF m] by auto
  note fin = ensure_finalizer_ok [OF stored live syncing(2)]
  note same = same_but_finalizers_simps [OF fin(1)]
  have tv: "tmpl_view s1 = tmpl_view s" using ensure_finalizer_templates [OF syncing(2)] .
  have keep: "keeps_meta (m_name m1) s1 s'" using sync_keeps(1) [OF rec fin(3) syncing(3)] .
  have "\<exists>m'. mod_view s' name = Some m' \<and> has_module_finalizer m'"
    using keep fin(2,3) same(1) name
    by (auto simp: keeps_meta_def has_module_finalizer_def)
  moreover
  from rec fin(3) syncing(3)
  have "case tmpl_view s (ms_template_ref (m_spec m)) of
         None \<Rightarrow> view s' = view s
       | Some mt \<Rightarrow>
           (case desired_flux m mt of
              None \<Rightarrow> view s' = view s
            | Some (kd, sp) \<Rightarrow> flux_ready K dflt m mt (rec_version R) sp (view s' (flux_key m mt kd)))"
  proof (cases rule: sync_cases)
    case permanent
    then show ?thesis
      using tv same(2) fin(4) desired_flux_same [OF fin(1)] by (auto split: option.splits)
  next
    case (transient e)
    then show ?thesis by simp
  next
    case (synced mt kd sp t)
    have "view s' = view t"
      using update_status_module_keeps [OF rec synced(5,4)] by blast
    moreover have "flux_ready K dflt m1 mt (rec_version R) sp (view t (flux_key m1 mt kd))"
      using reconcile_step.step_goal [OF flux_step [OF synced(2)] synced(3)] .
    ultimately show ?thesis
      using synced(1,2) tv same(2)
      by (simp add: desired_flux_same [OF fin(1)] flux_key_same [OF fin(1)] flux_ready_same [OF fin(1)])
  qed
  ultimately show ?thesis by blast
qed (use live in auto)

lemma reconcile_module_errors:
  assumes rec: "rec_recorder R = Some emit"
    and run: "Reconcile_module K M R name s = (out, s')"
    and m: "mc_get M name s = Inr m" and live: "deletion_timestamp (m_meta m) = None"
  shows "\<exists>r. out = Returns r \<and> (\<forall>e. r = Some e \<longrightarrow> external e)"
  using run m
proof (cases rule: reconcile_module_cases)
  case (refused e)
  have "mod_view s (m_name m) = Some m" using mod_get_ok [OF m] by auto
  with ensure_finalizer_error refused show ?thesis by auto
next
  case (syncing m1 s1)
  have stored: "mod_view s (m_name m) = Some m" using mod_get_ok [OF m] by auto
  note fin = ensure_finalizer_ok [OF stored live syncing(2)]
  from rec fin(3) syncing(3) show ?thesis
  proof (cases rule: sync_cases)
    case (synced mt kd sp t)
    show ?thesis
    proof (cases "m_status m1 = updated_status_module K m1 mt t")
      case True
      with synced(4) show ?thesis by (auto simp: updateStatus_module_def mod_status_equal)
    next
      case False
      obtain r u where p: "mc_patch_status M m1 (m1\<lparr> m_status := updated_status_module K m1 mt t \<rparr>) t = (r, u)"
        by force
      with synced(4) False have "out = Returns r"
        by (auto simp: updateStatus_module_def Let_def mod_status_equal event_then_recorder [OF rec]
            split: option.splits)
      moreover have "\<forall>e. r = Some e \<longrightarrow> external e"
        using p mod_patch_status_error [OF _ synced(5)] by blast
      ultimately show ?thesis by blast
    qed
  qed auto
qed (use live in auto)

section \<open>The stored status\<close>

text \<open>The statuses a run may leave behind: the old one, a failure, or an updated one.\<close>

definition next_status :: "module \<Rightarrow> module_status \<Rightarrow> bool" where
  "next_status m st \<longleftrightarrow> st = m_status m
     \<or> (\<exists>m1 reason message. same_but_finalizers m m1 \<and> st = ready_false_status_module K m1 reason message)
     \<or> (\<exists>m1 mt t. same_but_finalizers m m1 \<and> desired_flux m1 mt \<noteq> None
          \<and> st = updated_status_module K m1 mt t)"

definition stores_status :: "string \<Rightarrow> module \<Rightarrow> 's \<Rightarrow> bool" where
  "stores_status n m s \<longleftrightarrow> (\<forall>m'. mod_view s n = Some m' \<longrightarrow> next_status m (m_status m'))"

lemma patch_status_stores:
  assumes "mod_view s (m_name m) = Some m"
    and "mc_patch_status M m (m\<lparr> m_status := st \<rparr>) s = (r, s')"
  shows "mod_view s' (m_name m) = Some m \<or> mod_view s' (m_name m) = Some (m\<lparr> m_status := st \<rparr>)"
proof (cases r)
  case None
  with assms mod_patch_status_ok [of m st s s'] show ?thesis by simp
next
  case (Some e)
  with assms mod_patch_status_error [of m st s e s'] show ?thesis by auto
qed

lemma set_ready_false_stores:
  assumes "mod_view s (m_name m) = Some m"
  shows "mod_view (setReadyConditionFalse_module K M m reason message s) (m_name m) = Some m
    \<or> mod_view (setReadyConditionFalse_module K M m reason message s) (m_name m) =
        Some (m\<lparr> m_status := ready_false_status_module K m reason message \<rparr>)"
  using patch_status_stores [OF assms]
  by (auto simp: setReadyConditionFalse_module_def Let_def split: prod.splits)

lemma handle_error_stores:
  assumes rec: "rec_recorder R = Some emit" and m: "mod_view s (m_name m) = Some m"
    and run: "handleReconcileError_module K M R m err s = (out, s')"
  shows "\<exists>reason. mod_view s' (m_name m) = Some m \<or> mod_view s' (m_name m) =
      Some (m\<lparr> m_status := ready_false_status_module K m reason (error_text err) \<rparr>)"
proof -
  obtain reason ev where
    "s' = emit ev (setReadyConditionFalse_module K M m reason (error_text err) s)"
    using run by (auto simp: handleReconcileError_module_def Let_def event_then_recorder [OF rec]
        split: option.splits)
  with set_ready_false_stores [OF m, of reason "error_text err"] show ?thesis
    by (auto simp: mod_emit_modules)
qed

lemma update_status_stores:
  assumes rec: "rec_recorder R = Some emit" and m: "mod_view s (m_name m) = Some m"
    and run: "updateStatus_module K M R m mt s = (out, s')"
  shows "mod_view s' (m_name m) = Some m
    \<or> mod_view s' (m_name m) = Some (m\<lparr> m_status := updated_status_module K m mt s \<rparr>)"
proof (cases "m_status m = updated_status_module K m mt s")
  case True
  with run m show ?thesis by (auto simp: updateStatus_module_def mod_status_equal)
next
  case False
  obtain r t where p: "mc_patch_status M m (m\<lparr> m_status := updated_status_module K m mt s \<rparr>) s = (r, t)"
    by force
  with run False have "s' = t \<or> (\<exists>ev. s' = emit ev t)"
    by (auto simp: updateStatus_module_def Let_def mod_status_equal event_then_recorder [OF rec]
        split: option.splits)
  with patch_status_stores [OF m p] show ?thesis by (auto simp: mod_emit_modules)
qed

lemma next_status_ready_false:
  "same_but_finalizers m m1 \<Longrightarrow> next_status m (ready_false_status_module K m1 reason message)"
  unfolding next_status_def by blast

lemma next_status_updated:
  "same_but_finalizers m m1 \<Longrightarrow> desired_flux m1 mt \<noteq> None \<Longrightarrow> next_status m (updated_status_module K m1 mt t)"
  unfolding next_status_def by blast

lemma next_status_same: "same_but_finalizers m m1 \<Longrightarrow> next_status m (m_status m1)"
  by (simp add: next_status_def same_but_finalizers_simps)

lemma sync_stores:
  assumes rec: "rec_recorder R = Some emit" and m: "mod_view s (m_name m1) = Some m1"
    and same: "same_but_finalizers m m1"
    and run: "sync_module K M R m1 s = (out, s')"
  shows "stores_status (m_name m1) m s'"
proof (cases "fetchModuleTemplate K M (ms_template_ref (m_spec m1)) s")
  case (Inl err)
  with run have "handleReconcileError_module K M R m1 err s = (out, s')" by (simp add: sync_module_def)
  from handle_error_stores [OF rec m this] show ?thesis
    using same by (auto simp: stores_status_def next_status_same next_status_ready_false)
next
  case (Inr mt)
  obtain e t where res: "reconcileResources_module K m1 mt (rec_version R) s = (e, t)" by force
  then have t: "mod_view t (m_name m1) = Some m1" using flux_modules m by simp
  show ?thesis
  proof (cases e)
    case (Some err)
    with run Inr res have "handleReconcileError_module K M R m1 err t = (out, s')"
      by (simp add: sync_module_def)
    from handle_error_stores [OF rec t this] show ?thesis
      using same by (auto simp: stores_status_def next_status_same next_status_ready_false)
  next
    case None
    then have "desired_flux m1 mt \<noteq> None"
      using res by (cases rule: reconcileResources_module_cases [of m1 mt K "rec_version R"]) auto
    moreover from run Inr res None have "updateStatus_module K M R m1 mt t = (out, s')"
      by (simp add: sync_module_def)
    ultimately show ?thesis
      using same update_status_stores [OF rec t, of mt out s'] next_status_updated [OF same]
      by (fastforce simp: stores_status_def next_status_same)
  qed
qed

section \<open>Deletion\<close>

text \<open>The Module is gone, or stored without the finalizer and otherwise as it was.\<close>

definition released :: "module \<Rightarrow> 's \<Rightarrow> bool" where
  "released m s \<longleftrightarrow>
     (\<forall>m'. mod_view s (m_name m) = Some m' \<longrightarrow> same_but_finalizers m m' \<and> \<not> has_module_finalizer m')"

lemma remove_finalizer_patch:
  assumes m: "mod_view s (m_name m) = Some m"
    and run: "mc_patch M m (m\<lparr> m_meta := k_remove_finalizer K (m_meta m) ModuleFinalizer \<rparr>) s = (q, s')"
  shows "view s' = view s"
    and "case q of Inl e \<Rightarrow> external e \<and> (mod_view s' = mod_view s \<or> released m s') | Inr _ \<Rightarrow> released m s'"
proof -
  define fs where "fs = meta_finalizers (k_remove_finalizer K (m_meta m) ModuleFinalizer)"
  have rm: "k_remove_finalizer K (m_meta m) ModuleFinalizer = (m_meta m)\<lparr> meta_finalizers := fs \<rparr>"
    unfolding fs_def by (rule remove_finalizer(1))
  have fs: "ModuleFinalizer \<notin> set fs"
    using remove_finalizer(2) [of "m_meta m" ModuleFinalizer] by (simp add: fs_def)
  let ?m1 = "m\<lparr> m_meta := (m_meta m)\<lparr> meta_finalizers := fs \<rparr> \<rparr>"
  have m1: "same_but_finalizers m ?m1" "\<not> has_module_finalizer ?m1"
    using fs by (auto simp: same_but_finalizers_def has_module_finalizer_def)
  have rel: "released m t" if "mod_view t = (mod_view s)(m_name m := (if c then None else Some ?m1))" for c t
    using m1 that by (simp add: released_def split: if_splits)
  have p: "mc_patch M m ?m1 s = (q, s')" using run by (simp add: rm)
  show "view s' = view s" using mod_patch_objects [OF p] .
  show "case q of Inl e \<Rightarrow> external e \<and> (mod_view s' = mod_view s \<or> released m s') | Inr _ \<Rightarrow> released m s'"
  proof (cases q)
    case (Inl e)
    with mod_patch_error [OF p [unfolded Inl] m] rel [of s'] show ?thesis by auto
  next
    case (Inr m2)
    with mod_patch_ok [OF p [unfolded Inr] m] rel [of s'] show ?thesis by auto
  qed
qed

lemma reconcile_delete_cases:
  assumes m: "mod_view s (m_name m) = Some m" and run: "reconcileDelete K M m s = (r, s')"
    and fin: "has_module_finalizer m"
  obtains
    (kept) e where "r = Some e" "mod_view s' = mod_view s"
  | (cleaned) t where "cleanup_flux K m (resolveCleanupNamespace K M m s) s = (None, t)"
      "view s' = view t" "released m s'"
proof -
  obtain c t where clean: "cleanup_flux K m (resolveCleanupNamespace K M m s) s = (c, t)" by force
  then have mt: "mod_view t = mod_view s" by (rule cleanup_modules)
  show ?thesis
  proof (cases c)
    case (Some e)
    with run clean fin mt show ?thesis
      by (intro kept [of e]) (simp_all add: reconcileDelete_def contains_has)
  next
    case None
    obtain q u where p: "mc_patch M m (m\<lparr> m_meta := k_remove_finalizer K (m_meta m) ModuleFinalizer \<rparr>) t
        = (q, u)" by force
    have out: "s' = u" "r = (case q of Inl e \<Rightarrow> Some e | Inr _ \<Rightarrow> None)"
      using run clean fin None p by (auto simp: reconcileDelete_def contains_has split: sum.splits)
    have mt': "mod_view t (m_name m) = Some m" using mt m by simp
    note patched = remove_finalizer_patch [OF mt' p]
    show ?thesis
    proof (cases "released m u")
      case True
      with clean None patched(1) out show ?thesis by (intro cleaned [of t]) simp_all
    next
      case False
      with patched(2) obtain e where "q = Inl e" "mod_view u = mod_view t"
        by (auto split: sum.splits)
      with out mt show ?thesis by (intro kept [of e]) simp_all
    qed
  qed
qed

lemma reconcile_module_stores:
  assumes rec: "rec_recorder R = Some emit" and m: "mc_get M name s = Inr m"
    and run: "Reconcile_module K M R name s = (out, s')"
  shows "stores_status name m s'"
proof -
  have stored: "mod_view s (m_name m) = Some m" and name: "m_name m = name" using mod_get_ok [OF m] by auto
  have old: "mod_view t = mod_view s \<Longrightarrow> stores_status name m t" for t
    using stored name by (simp add: stores_status_def next_status_def)
  from run m show ?thesis
  proof (cases rule: reconcile_module_cases)
    case (deleting r)
    show ?thesis
    proof (cases "has_module_finalizer m")
      case True
      from stored deleting(2) True show ?thesis
      proof (cases rule: reconcile_delete_cases)
        case (kept e)
        then show ?thesis by (simp add: old)
      next
        case (cleaned t)
        then show ?thesis by (auto simp: stores_status_def released_def name intro: next_status_same)
      qed
    next
      case False
      with deleting(2) have "s' = s" by (simp add: reconcileDelete_def contains_has)
      then show ?thesis by (simp add: old)
    qed
  next
    case (refused e)
    from ensure_finalizer_error [OF stored refused(2)] show ?thesis
      using old name by (auto simp: stores_status_def next_status_same)
  next
    case (syncing m1 s1)
    note fin = ensure_finalizer_ok [OF stored syncing(1,2)]
    from sync_stores [OF rec fin(3,1) syncing(3)] show ?thesis
      using same_but_finalizers_simps(1) [OF fin(1)] name by simp
  qed
qed

lemma reconcile_module_one_ref:
  assumes rec: "rec_recorder R = Some emit" and m: "mc_get M name s = Inr m"
    and run: "Reconcile_module K M R name s = (out, s')"
    and one: "at_most_one_ref (m_status m)" and m': "mod_view s' name = Some m'"
  shows "at_most_one_ref (m_status m')"
  using reconcile_module_stores [OF rec m run] m' one
  by (auto simp: stores_status_def next_status_def at_most_one_ready_false at_most_one_updated
      same_but_finalizers_simps)

text \<open>The finalizer goes only after the referenced Flux objects are absent or terminating.\<close>

lemma reconcile_module_guard:
  assumes rec: "rec_recorder R = Some emit" and m: "mc_get M name s = Inr m"
    and run: "Reconcile_module K M R name s = (out, s')"
    and fin: "has_module_finalizer m"
    and lost: "\<not> (\<exists>m'. mod_view s' name = Some m' \<and> has_module_finalizer m')"
  shows "deletion_timestamp (m_meta m) \<noteq> None
    \<and> (\<exists>t. cleanup_flux K m (resolveCleanupNamespace K M m s) s = (None, t) \<and> view s' = view t)"
proof -
  have stored: "mod_view s (m_name m) = Some m" and name: "m_name m = name" using mod_get_ok [OF m] by auto
  from run m show ?thesis
  proof (cases rule: reconcile_module_cases)
    case (deleting r)
    from stored deleting(2) fin show ?thesis
    proof (cases rule: reconcile_delete_cases)
      case (kept e)
      with lost stored fin name show ?thesis by simp
    next
      case (cleaned t)
      with deleting(1) show ?thesis by blast
    qed
  next
    case (refused e)
    with fin show ?thesis by (simp add: ensure_finalizer_def contains_has)
  next
    case (syncing m1 s1)
    note f = ensure_finalizer_ok [OF stored syncing(1,2)]
    have "keeps_meta (m_name m1) s1 s'" by (rule sync_keeps(1) [OF rec f(3) syncing(3)])
    then have "\<exists>m'. mod_view s' name = Some m' \<and> has_module_finalizer m'"
      using f(2,3) same_but_finalizers_simps(1) [OF f(1)] name
      by (auto simp: keeps_meta_def has_module_finalizer_def)
    with lost show ?thesis by blast
  qed
qed

text \<open>Objects change in a live Module's run only once the finalizer is stored.\<close>

lemma reconcile_module_finalizer_first:
  assumes rec: "rec_recorder R = Some emit" and m: "mc_get M name s = Inr m"
    and live: "deletion_timestamp (m_meta m) = None"
    and run: "Reconcile_module K M R name s = (out, s')" and changed: "view s' \<noteq> view s"
  shows "\<exists>m1 s1. ensure_finalizer K M m s = (Inr m1, s1) \<and> view s1 = view s
    \<and> mod_view s1 name = Some m1 \<and> has_module_finalizer m1
    \<and> (\<exists>m2. mod_view s' name = Some m2 \<and> has_module_finalizer m2)"
proof -
  have stored: "mod_view s (m_name m) = Some m" and name: "m_name m = name" using mod_get_ok [OF m] by auto
  from run m show ?thesis
  proof (cases rule: reconcile_module_cases)
    case (refused e)
    with ensure_finalizer_objects changed show ?thesis by metis
  next
    case (syncing m1 s1)
    note f = ensure_finalizer_ok [OF stored live syncing(2)]
    have n1: "m_name m1 = name" using same_but_finalizers_simps(1) [OF f(1)] name by simp
    have "keeps_meta (m_name m1) s1 s'" by (rule sync_keeps(1) [OF rec f(3) syncing(3)])
    then have "\<exists>m2. mod_view s' name = Some m2 \<and> has_module_finalizer m2"
      using f(2,3) n1 by (auto simp: keeps_meta_def has_module_finalizer_def)
    with syncing(2) f n1 show ?thesis by blast
  qed (use live in auto)
qed

text \<open>A second successful run leaves the objects as they are.\<close>

lemma reconcile_module_quiet:
  assumes rec: "rec_recorder R = Some emit" and m: "mc_get M name s = Inr m"
    and live: "deletion_timestamp (m_meta m) = None" and fin: "has_module_finalizer m"
    and mt: "tmpl_view s (ms_template_ref (m_spec m)) = Some mt" "desired_flux m mt = Some (kd, sp)"
    and ready: "flux_ready K dflt m mt (rec_version R) sp (view s (flux_key m mt kd))"
    and run: "Reconcile_module K M R name s = (Returns None, s')"
  shows "view s' = view s"
proof -
  have stored: "mod_view s (m_name m) = Some m" using mod_get_ok [OF m] by auto
  have "ensure_finalizer K M m s = (Inr m, s)" using fin by (simp add: ensure_finalizer_def contains_has)
  with m live run have sync: "sync_module K M R m s = (Returns None, s')"
    by (simp add: Reconcile_module_def)
  from rec stored sync show ?thesis
  proof (cases rule: sync_cases)
    case permanent
    then show ?thesis by simp
  next
    case (transient e)
    then show ?thesis by simp
  next
    case (synced mt' kd' sp' t)
    with mt have eq: "mt' = mt" "kd' = kd" "sp' = sp" by auto
    have "view t = view s" using flux_quiet [OF mt(2)] ready synced(3) unfolding eq by (rule quiet_onD)
    moreover have "view s' = view t" using update_status_module_keeps [OF rec synced(5,4)] by blast
    ultimately show ?thesis by simp
  qed
qed

end

end
