(* ===== verification/Module_Frame.thy ===== *)
theory Module_Frame
  imports Module_Guarantees
begin

text \<open>
  What a pass over a Module cannot disturb. The pass is a sequence of five kinds of writes (two
  patches of the Module itself, a create-or-update and deletes of Flux objects with its name, an
  event); a relation between states that each of them keeps is kept by the pass, whatever fails
  and whether or not there is a recorder. The frame conditions of the Module controller are the
  instances of this one induction.
\<close>

definition flux_kinds :: "kind set" where
  "flux_kinds = {HelmReleaseKind, KustomizationKind}"

lemma flux_kinds_simps [simp]: "HelmReleaseKind \<in> flux_kinds" "KustomizationKind \<in> flux_kinds"
  by (simp_all add: flux_kinds_def)

lemma flux_keys_iff [simp]: "(kd, ns, n) \<in> flux_keys n' \<longleftrightarrow> kd \<in> flux_kinds \<and> n = n'"
  by (auto simp: flux_keys_def flux_kinds_def)

lemma desired_flux_kind: "desired_flux m mt = Some (kd, sp) \<Longrightarrow> kd \<in> flux_kinds"
  by (auto simp: desired_flux_def flux_kinds_def split: option.splits)

locale module_frame = module_store K view dflt M mod_view tmpl_view emit
  for K :: "'s kube"
    and view :: "'s \<Rightarrow> key \<Rightarrow> kobject option"
    and dflt :: "obj_spec \<Rightarrow> obj_spec"
    and M :: "'s module_client"
    and mod_view :: "'s \<Rightarrow> string \<Rightarrow> module option"
    and tmpl_view :: "'s \<Rightarrow> string \<Rightarrow> module_template option"
    and emit :: "event \<Rightarrow> 's \<Rightarrow> 's" +
  fixes rel :: "string \<Rightarrow> 's \<Rightarrow> 's \<Rightarrow> bool"
  assumes rel_refl: "rel n s s"
    and rel_trans: "rel n s t \<Longrightarrow> rel n t u \<Longrightarrow> rel n s u"
    and rel_patch:
      "mod_view s (m_name m) = Some m \<Longrightarrow>
         mc_patch M m (m\<lparr> m_meta := (m_meta m)\<lparr> meta_finalizers := fs \<rparr> \<rparr>) s = (q, s') \<Longrightarrow>
         rel (m_name m) s s'"
    and rel_patch_status:
      "mod_view s (m_name m) = Some m \<Longrightarrow>
         mc_patch_status M m (m\<lparr> m_status := st \<rparr>) s = (r, s') \<Longrightarrow> rel (m_name m) s s'"
    and rel_create:
      "kd \<in> flux_kinds \<Longrightarrow> k_create_or_update K (new_object kd ns n) f s = (r, s') \<Longrightarrow> rel n s s'"
    and rel_delete: "kd \<in> flux_kinds \<Longrightarrow> k_delete K (kd, ns, n) s = (r, s') \<Longrightarrow> rel n s s'"
    and rel_emit: "rel n s (emit ev s)"
begin

lemma rel_event: "rec_recorder R \<in> {None, Some emit} \<Longrightarrow> rel n s (snd (event_then R ev res s))"
  by (auto simp: event_then_nil event_then_recorder rel_refl rel_emit)

lemma rel_set_ready_false:
  assumes "mod_view s (m_name m) = Some m"
  shows "rel (m_name m) s (setReadyConditionFalse_module K M m reason message s)"
  using rel_patch_status [OF assms]
  by (auto simp: setReadyConditionFalse_module_def Let_def split: prod.splits)

lemma rel_handle_error:
  assumes rec: "rec_recorder R \<in> {None, Some emit}" and m: "mod_view s (m_name m) = Some m"
  shows "rel (m_name m) s (snd (handleReconcileError_module K M R m err s))"
proof -
  have "rel (m_name m) s (snd (event_then R ev res (setReadyConditionFalse_module K M m reason msg s)))"
    for ev and res :: "go_error option" and reason msg
    using rel_trans [OF rel_set_ready_false [OF m] rel_event [OF rec]] .
  then show ?thesis by (simp add: handleReconcileError_module_def Let_def split: option.split)
qed

lemma rel_update_status:
  assumes rec: "rec_recorder R \<in> {None, Some emit}" and m: "mod_view s (m_name m) = Some m"
  shows "rel (m_name m) s (snd (updateStatus_module K M R m mt s))"
proof -
  obtain r t where p: "mc_patch_status M m (m\<lparr> m_status := updated_status_module K m mt s \<rparr>) s = (r, t)"
    by force
  have "rel (m_name m) s (snd (event_then R ev res t))" for ev and res :: "go_error option"
    using rel_trans [OF rel_patch_status [OF m p] rel_event [OF rec]] .
  with rel_patch_status [OF m p] show ?thesis
    by (simp add: updateStatus_module_def Let_def p rel_refl split: option.split)
qed

lemma rel_flux: "reconcileResources_module K m mt version s = (r, s') \<Longrightarrow> rel (m_name m) s s'"
  by (cases rule: reconcileResources_module_cases [of m mt K version])
    (auto simp: rel_refl dest: desired_flux_kind intro: rel_create)

lemma rel_delete_tolerant:
  "kd \<in> flux_kinds \<Longrightarrow> rel n s (snd (delete_ignoring_not_found K (kd, ns, n) s))"
  by (auto simp: delete_ignoring_not_found_def split: prod.splits intro: rel_delete)

lemma rel_then:
  assumes "\<And>s. rel n s (snd (f s))" and "\<And>s. rel n s (snd (g s))"
  shows "rel n s (snd (then_ok f g s))"
proof -
  obtain r t where f: "f s = (r, t)" by force
  with assms(1) [of s] have "rel n s t" by simp
  with rel_trans [OF this assms(2)] f show ?thesis by (simp add: then_ok_def split: option.split)
qed

lemma rel_cleanup: "rel (m_name m) s (snd (cleanup_flux K m ns s))"
  unfolding cleanup_flux_def DeleteHelmRelease_eq DeleteKustomization_eq
  by (cases "ns = ''''") (auto simp: rel_refl intro!: rel_then rel_delete_tolerant)

lemma rel_reconcile_delete:
  assumes m: "mod_view s (m_name m) = Some m"
  shows "rel (m_name m) s (snd (reconcileDelete K M m s))"
proof -
  obtain e t where c: "cleanup_flux K m (resolveCleanupNamespace K M m s) s = (e, t)" by force
  with rel_cleanup [of m s "resolveCleanupNamespace K M m s"] have st: "rel (m_name m) s t" by simp
  have mt: "mod_view t (m_name m) = Some m" using cleanup_modules [OF c] m by simp
  obtain q u where p: "mc_patch M m (m\<lparr> m_meta := k_remove_finalizer K (m_meta m) ModuleFinalizer \<rparr>) t
      = (q, u)" by force
  then have "rel (m_name m) t u"
    using rel_patch [OF mt] by (metis remove_finalizer(1))
  with st have "rel (m_name m) s u" by (rule rel_trans)
  with c p st show ?thesis
    by (auto simp: reconcileDelete_def rel_refl split: option.split sum.split)
qed

lemma rel_ensure_finalizer:
  assumes m: "mod_view s (m_name m) = Some m" and run: "ensure_finalizer K M m s = (q, s')"
  shows "rel (m_name m) s s'"
proof (cases "has_module_finalizer m")
  case True
  with run show ?thesis by (simp add: ensure_finalizer_def contains_has rel_refl)
next
  case False
  with run rel_patch [OF m] show ?thesis
    unfolding ensure_finalizer_def contains_has by (metis add_finalizer(1))
qed

lemma rel_sync:
  assumes rec: "rec_recorder R \<in> {None, Some emit}" and m: "mod_view s (m_name m) = Some m"
  shows "rel (m_name m) s (snd (sync_module K M R m s))"
proof (cases "fetchModuleTemplate K M (ms_template_ref (m_spec m)) s")
  case (Inl err)
  then show ?thesis by (simp add: sync_module_def rel_handle_error [OF rec m])
next
  case (Inr mt)
  obtain r t where flux: "reconcileResources_module K m mt (rec_version R) s = (r, t)" by force
  have t: "mod_view t (m_name m) = Some m" using flux_modules [OF flux] m by simp
  have "rel (m_name m) s (snd (handleReconcileError_module K M R m err t))"
    "rel (m_name m) s (snd (updateStatus_module K M R m mt t))" for err
    using rel_trans [OF rel_flux [OF flux]] rel_handle_error [OF rec t] rel_update_status [OF rec t]
    by blast+
  with Inr flux show ?thesis by (simp add: sync_module_def split: option.split)
qed

lemma pass_rel:
  assumes rec: "rec_recorder R \<in> {None, Some emit}" and run: "Reconcile_module K M R n s = (out, s')"
  shows "rel n s s'"
proof (cases "mc_get M n s")
  case (Inl e)
  with run show ?thesis by (simp add: Reconcile_module_def rel_refl)
next
  case (Inr m)
  have m: "mod_view s (m_name m) = Some m" and name: "m_name m = n" using mod_get_ok [OF Inr] by auto
  show ?thesis
    using run Inr
  proof (cases rule: reconcile_module_cases)
    case (deleting r)
    with rel_reconcile_delete [OF m] name show ?thesis by simp
  next
    case (refused e)
    with rel_ensure_finalizer [OF m] name show ?thesis by simp
  next
    case (syncing m1 s1)
    note fin = ensure_finalizer_ok [OF m syncing(1,2)]
    have n1: "m_name m1 = n" using same_but_finalizers_simps(1) [OF fin(1)] name by simp
    with rel_sync [OF rec fin(3)] syncing(3) have "rel n s1 s'" by simp
    with rel_ensure_finalizer [OF m syncing(2)] name show ?thesis using rel_trans by simp
  qed
qed

end

section \<open>The frame conditions\<close>

text \<open>Only Flux objects with the Module's name are written, and only this Module.\<close>

sublocale module_store \<subseteq> object_frame: module_frame K view dflt M mod_view tmpl_view emit
  "\<lambda>n s s'. \<forall>k. k \<notin> flux_keys n \<longrightarrow> view s' k = view s k"
proof unfold_locales
  fix kd ns n f s r s'
  assume "kd \<in> flux_kinds" "k_create_or_update K (new_object kd ns n) f s = (r, s')"
  then show "\<forall>k. k \<notin> flux_keys n \<longrightarrow> view s' k = view s k"
    using create_or_update_frame [of "new_object kd ns n" f s r s'] by fastforce
next
  fix kd ns n s r s'
  assume "kd \<in> flux_kinds" "k_delete K (kd, ns, n) s = (r, s')"
  then show "\<forall>k. k \<notin> flux_keys n \<longrightarrow> view s' k = view s k"
    using delete_frame [of "(kd, ns, n)" s r s'] by fastforce
qed (simp_all add: mod_patch_objects mod_patch_status_objects mod_emit_objects)

sublocale module_store \<subseteq> stored_frame: module_frame K view dflt M mod_view tmpl_view emit
  "\<lambda>n s s'. \<forall>j. j \<noteq> n \<longrightarrow> mod_view s' j = mod_view s j"
proof unfold_locales
  fix s m fs q s'
  assume m: "mod_view s (m_name m) = Some m"
    and p: "mc_patch M m (m\<lparr> m_meta := (m_meta m)\<lparr> meta_finalizers := fs \<rparr> \<rparr>) s = (q, s')"
  show "\<forall>j. j \<noteq> m_name m \<longrightarrow> mod_view s' j = mod_view s j"
    using p mod_patch_ok [OF _ m, of fs _ s'] mod_patch_error [OF _ m, of fs _ s'] by (cases q) fastforce+
next
  fix s m st r s'
  assume m: "mod_view s (m_name m) = Some m" and p: "mc_patch_status M m (m\<lparr> m_status := st \<rparr>) s = (r, s')"
  show "\<forall>j. j \<noteq> m_name m \<longrightarrow> mod_view s' j = mod_view s j"
    using p mod_patch_status_ok [of m st s s'] mod_patch_status_error [of m st s _ s'] m
    by (cases r) fastforce+
qed (simp_all add: mod_create_or_update mod_delete mod_emit_modules)

context module_store
begin

lemma reconcile_module_foot:
  assumes "rec_recorder R \<in> {None, Some emit}" and "Reconcile_module K M R name s = (out, s')"
    and "k \<notin> flux_keys name"
  shows "view s' k = view s k"
  using object_frame.pass_rel [OF assms(1,2)] assms(3) by blast

lemma reconcile_module_others:
  assumes "rec_recorder R \<in> {None, Some emit}" and "Reconcile_module K M R name s = (out, s')"
    and "n \<noteq> name"
  shows "mod_view s' n = mod_view s n"
  using stored_frame.pass_rel [OF assms(1,2)] assms(3) by blast

end

end
