(* ===== verification/Module_Convergence.thy ===== *)
theory Module_Convergence
  imports Module_Frame
begin

text \<open>
  Liveness of the Module reconciler: when nothing fails on the way and nobody else controls the
  Flux resource, one pass over a live Module writes the resource and the status, and one pass
  over a Module that is being deleted removes the resources and releases the Module. The
  recorder plays no role for what is written: a pass without one panics only after its writes.
\<close>

section \<open>A client without faults\<close>

locale reliable_module_store =
  module_store K view dflt M mod_view tmpl_view emit + reliable_kube_api K view dflt served
  for K :: "'s kube" and view dflt M mod_view tmpl_view emit and served :: "kind \<Rightarrow> bool" +
  assumes mod_get_succeeds: "mod_view s n = Some m \<Longrightarrow> mc_get M n s = Inr m"
    and tmpl_get_succeeds: "tmpl_view s n = Some mt \<Longrightarrow> mc_get_template M n s = Inr mt"
    and mod_patch_succeeds: "mod_view s (m_name m) = Some m \<Longrightarrow> \<exists>m2. fst (mc_patch M m m' s) = Inr m2"
    and mod_patch_status_succeeds:
      "mod_view s (m_name m) = Some m \<Longrightarrow> fst (mc_patch_status M m m' s) = None"
    and mod_list: "\<exists>items. mc_list M s = Inr items \<and> (\<forall>n m. mod_view s n = Some m \<longrightarrow> m \<in> set items)"
    and tmpl_patch_status: "mc_patch_status M m m' s = (r, s') \<Longrightarrow> tmpl_view s' = tmpl_view s"
    and tmpl_create_or_update: "k_create_or_update K ob f s = (r, s') \<Longrightarrow> tmpl_view s' = tmpl_view s"
    and tmpl_delete: "k_delete K k s = (r, s') \<Longrightarrow> tmpl_view s' = tmpl_view s"
    and tmpl_emit: "tmpl_view (emit ev s) = tmpl_view s"
    and delete_unserved:
      "\<not> served kd \<Longrightarrow> \<exists>e. fst (k_delete K (kd, ns, n) s) = Some e \<and> \<not> k_is_not_found K e"

sublocale reliable_module_store \<subseteq> template_frame: module_frame K view dflt M mod_view tmpl_view emit
  "\<lambda>n s s'. tmpl_view s' = tmpl_view s"
  by unfold_locales
    (auto dest: mod_patch_templates tmpl_patch_status tmpl_create_or_update tmpl_delete simp: tmpl_emit)

section \<open>A pass over a live Module\<close>

text \<open>Nobody else controls the Flux resource.\<close>

definition flux_free :: "module \<Rightarrow> kobject option \<Rightarrow> bool" where
  "flux_free m x \<longleftrightarrow>
     (case x of None \<Rightarrow> True | Some ob \<Rightarrow> \<not> controlled_by_other (module_owner m) (obj_meta ob))"

text \<open>What a successful pass leaves behind of the Module: the finalizer and the references.\<close>

definition synced_module :: "module \<Rightarrow> module_template \<Rightarrow> kind \<Rightarrow> module \<Rightarrow> bool" where
  "synced_module m mt kd m' \<longleftrightarrow>
     same_but_finalizers m (m'\<lparr> m_status := m_status m \<rparr>) \<and> has_module_finalizer m'
     \<and> mst_template_generation (m_status m') = meta_generation (mt_meta mt)
     \<and> mst_helm_release_ref (m_status m') = (if kd = HelmReleaseKind
          then Some \<lparr> ar_name = m_name m, ar_namespace = TargetNamespace m mt \<rparr> else None)
     \<and> mst_kustomization_ref (m_status m') = (if kd = KustomizationKind
          then Some \<lparr> ar_name = m_name m, ar_namespace = TargetNamespace m mt \<rparr> else None)"

lemma updated_status_generation:
  "mst_template_generation (updated_status_module K m mt s) = meta_generation (mt_meta mt)"
  by (simp add: updated_status_module_def Let_def split: prod.split)

lemma synced_simps:
  assumes "synced_module m mt kd m'"
  shows "m_name m' = m_name m" "m_spec m' = m_spec m" "module_owner m' = module_owner m"
    "deletion_timestamp (m_meta m') = deletion_timestamp (m_meta m)"
  using same_but_finalizers_simps [of m "m'\<lparr> m_status := m_status m \<rparr>"] assms
  by (simp_all add: synced_module_def module_owner_def)

context reliable_module_store
begin

lemma mod_named: "mod_view s n = Some m \<Longrightarrow> m_name m = n"
  using mod_get_succeeds mod_get_ok by blast

lemma flux_succeeds:
  assumes "desired_flux m mt = Some (kd, sp)" and "served kd"
    and "flux_free m (view s (flux_key m mt kd))"
  shows "fst (reconcileResources_module K m mt version s) = None"
proof (cases rule: reconcileResources_module_cases [of m mt K version])
  case none
  with assms(1) show ?thesis by simp
next
  case (some kd' sp')
  with assms(1) have eq: "kd' = kd" "sp' = sp" by simp_all
  show ?thesis
    unfolding some(3) eq write_flux_def [abs_def]
    by (rule owned_write_succeeds) (use assms in \<open>auto simp: flux_free_def flux_key_def key_of_def\<close>)
qed

lemma update_status_succeeds:
  assumes rec: "rec_recorder R \<in> {None, Some emit}" and m: "mod_view s (m_name m) = Some m"
    and run: "updateStatus_module K M R m mt s = (out, s')"
  shows "mod_view s' (m_name m) = Some (m\<lparr> m_status := updated_status_module K m mt s \<rparr>)"
    and "view s' = view s" and "rec_recorder R \<noteq> None \<Longrightarrow> out = Returns None"
proof -
  let ?m' = "m\<lparr> m_status := updated_status_module K m mt s \<rparr>"
  have "mod_view s' (m_name m) = Some ?m' \<and> view s' = view s \<and> (rec_recorder R \<noteq> None \<longrightarrow> out = Returns None)"
  proof (cases "m_status m = updated_status_module K m mt s")
    case True
    then have "?m' = m" by (metis module.surjective module.update_convs(3))
    with True m run show ?thesis by (simp add: updateStatus_module_def mod_status_equal)
  next
    case False
    obtain t where p: "mc_patch_status M m ?m' s = (None, t)"
      using mod_patch_status_succeeds [OF m] by (metis prod.collapse)
    have "mod_view t (m_name m) = Some ?m'" "view t = view s"
      using mod_patch_status_ok [OF p m] mod_patch_status_objects [OF p] by simp_all
    with run False p rec show ?thesis
      by (auto simp: updateStatus_module_def mod_status_equal event_then_nil event_then_recorder
          mod_emit_modules mod_emit_objects)
  qed
  then show "mod_view s' (m_name m) = Some ?m'" and "view s' = view s"
    and "rec_recorder R \<noteq> None \<Longrightarrow> out = Returns None" by blast+
qed

lemma ensure_finalizer_succeeds:
  assumes "mod_view s (m_name m) = Some m"
  obtains m1 s1 where "ensure_finalizer K M m s = (Inr m1, s1)"
  using mod_patch_succeeds [OF assms] unfolding ensure_finalizer_def by (metis prod.collapse)

lemma live_pass:
  assumes rec: "rec_recorder R \<in> {None, Some emit}"
    and m: "mod_view s n = Some m" and live: "deletion_timestamp (m_meta m) = None"
    and mt: "tmpl_view s (ms_template_ref (m_spec m)) = Some mt"
    and flux: "desired_flux m mt = Some (kd, sp)" and served: "served kd"
    and free: "flux_free m (view s (flux_key m mt kd))"
    and run: "Reconcile_module K M R n s = (out, s')"
  shows "\<exists>m'. mod_view s' n = Some m' \<and> synced_module m mt kd m'"
    and "flux_ready K dflt m mt (rec_version R) sp (view s' (flux_key m mt kd))"
    and "rec_recorder R \<noteq> None \<Longrightarrow> out = Returns None"
proof -
  have n: "m_name m = n" by (rule mod_named [OF m])
  have stored: "mod_view s (m_name m) = Some m" using m n by simp
  obtain m1 s1 where en: "ensure_finalizer K M m s = (Inr m1, s1)"
    by (rule ensure_finalizer_succeeds [OF stored])
  note fin = ensure_finalizer_ok [OF stored live en]
  note same = same_but_finalizers_simps [OF fin(1)]
  have flux1: "desired_flux m1 mt = Some (kd, sp)" using flux desired_flux_same [OF fin(1)] by simp
  have "fst (reconcileResources_module K m1 mt (rec_version R) s1) = None"
    by (rule flux_succeeds [OF flux1 served])
      (use free fin(4) same flux_key_same [OF fin(1)] in \<open>simp add: flux_free_def split: option.splits\<close>)
  then obtain t where res: "reconcileResources_module K m1 mt (rec_version R) s1 = (None, t)"
    by (metis prod.collapse)
  have t: "mod_view t (m_name m1) = Some m1" using flux_modules [OF res] fin(3) by simp
  have "fetchModuleTemplate K M (ms_template_ref (m_spec m1)) s1 = Inr mt"
    using tmpl_get_succeeds mt same(2) ensure_finalizer_templates [OF en] by (simp add: fetchModuleTemplate_def)
  with res run live en mod_get_succeeds [OF m] have upd: "updateStatus_module K M R m1 mt t = (out, s')"
    by (simp add: Reconcile_module_def sync_module_def)
  note done_status = update_status_succeeds [OF rec t upd]
  show "rec_recorder R \<noteq> None \<Longrightarrow> out = Returns None" by (rule done_status(3))
  have "flux_ready K dflt m1 mt (rec_version R) sp (view t (flux_key m1 mt kd))"
    by (rule reconcile_step.step_goal [OF flux_step [OF flux1] res])
  then show "flux_ready K dflt m mt (rec_version R) sp (view s' (flux_key m mt kd))"
    using done_status(2) flux_ready_same [OF fin(1)] flux_key_same [OF fin(1)] by metis
  let ?m' = "m1\<lparr> m_status := updated_status_module K m1 mt t \<rparr>"
  have "same_but_finalizers m (?m'\<lparr> m_status := m_status m \<rparr>)"
    using fin(1) by (auto simp: same_but_finalizers_def)
  moreover have "TargetNamespace m1 mt = TargetNamespace m mt" using same(2) by (simp add: TargetNamespace_def)
  ultimately have "synced_module m mt kd ?m'"
    using fin(2) same(1) updated_status_refs [OF flux1, of K t]
    by (simp add: synced_module_def has_module_finalizer_def updated_status_generation)
  with done_status(1) same(1) n show "\<exists>m'. mod_view s' n = Some m' \<and> synced_module m mt kd m'" by auto
qed

end

section \<open>A pass over a Module that is being deleted\<close>

text \<open>The kinds of Flux resource that the status refers to.\<close>

definition cleanup_kinds :: "module \<Rightarrow> kind set" where
  "cleanup_kinds m =
     (if mst_helm_release_ref (m_status m) \<noteq> None then {HelmReleaseKind} else {})
     \<union> (if mst_kustomization_ref (m_status m) \<noteq> None then {KustomizationKind} else {})"

text \<open>The Module without the finalizer, or gone when that was the last one.\<close>

definition module_released :: "module \<Rightarrow> module option \<Rightarrow> bool" where
  "module_released m x \<longleftrightarrow>
     (if set (meta_finalizers (m_meta m)) = {ModuleFinalizer} then x = None
      else (case x of None \<Rightarrow> False
        | Some m' \<Rightarrow> same_but_finalizers m m' \<and>
            set (meta_finalizers (m_meta m')) = set (meta_finalizers (m_meta m)) - {ModuleFinalizer}))"

context reliable_module_store
begin

lemma delete_tolerant_iff:
  "fst (delete_ignoring_not_found K (kd, ns, n) s) = None \<longleftrightarrow> served kd"
proof -
  obtain r t where del: "k_delete K (kd, ns, n) s = (r, t)" by force
  show ?thesis
    using delete_succeeds [of kd ns n s] delete_unserved [of kd ns n s] del
    by (cases r) (auto simp: delete_ignoring_not_found_def)
qed

lemma then_ok_None_iff:
  assumes "\<And>s. fst (f s) = None \<longleftrightarrow> A" and "\<And>s. fst (g s) = None \<longleftrightarrow> B"
  shows "fst (then_ok f g s) = None \<longleftrightarrow> A \<and> B"
proof -
  obtain r t where "f s = (r, t)" by force
  with assms(1) [of s] assms(2) [of t] show ?thesis by (cases r) (simp_all add: then_ok_def)
qed

lemma cleanup_iff:
  "fst (cleanup_flux K m ns s) = None \<longleftrightarrow> ns = '''' \<or> (\<forall>kd \<in> cleanup_kinds m. served kd)"
proof (cases "ns = ''''")
  case False
  have one: "fst ((if c then delete_ignoring_not_found K (kd, ns, m_name m) else (\<lambda>s. (None, s))) s) = None
      \<longleftrightarrow> (c \<longrightarrow> served kd)" for c kd s
    by (simp add: delete_tolerant_iff)
  have "fst (cleanup_flux K m ns s) = None \<longleftrightarrow>
      (mst_helm_release_ref (m_status m) \<noteq> None \<longrightarrow> served HelmReleaseKind)
      \<and> (mst_kustomization_ref (m_status m) \<noteq> None \<longrightarrow> served KustomizationKind)"
    unfolding cleanup_flux_def DeleteHelmRelease_eq DeleteKustomization_eq if_P [OF False]
    by (rule then_ok_None_iff) (rule one)+
  with False show ?thesis by (auto simp: cleanup_kinds_def)
qed (simp add: cleanup_flux_def)

lemma release_succeeds:
  assumes m: "mod_view s (m_name m) = Some m" and del: "deletion_timestamp (m_meta m) \<noteq> None"
    and fin: "has_module_finalizer m"
  shows "\<exists>m2 s'. mc_patch M m (m\<lparr> m_meta := k_remove_finalizer K (m_meta m) ModuleFinalizer \<rparr>) s = (Inr m2, s')
    \<and> module_released m (mod_view s' (m_name m)) \<and> view s' = view s"
proof -
  define fs where "fs = meta_finalizers (k_remove_finalizer K (m_meta m) ModuleFinalizer)"
  have rm: "k_remove_finalizer K (m_meta m) ModuleFinalizer = (m_meta m)\<lparr> meta_finalizers := fs \<rparr>"
    unfolding fs_def by (rule remove_finalizer(1))
  have fs: "set fs = set (meta_finalizers (m_meta m)) - {ModuleFinalizer}"
    using remove_finalizer(2) [of "m_meta m" ModuleFinalizer] by (simp add: fs_def)
  obtain m2 s' where p: "mc_patch M m (m\<lparr> m_meta := (m_meta m)\<lparr> meta_finalizers := fs \<rparr> \<rparr>) s = (Inr m2, s')"
    using mod_patch_succeeds [OF m] by (metis prod.collapse)
  have last: "set (meta_finalizers (m_meta m)) = {ModuleFinalizer} \<longleftrightarrow> fs = []"
    using fs fin by (auto simp: has_module_finalizer_def simp flip: set_empty)
  have "module_released m (mod_view s' (m_name m))"
    using mod_patch_ok [OF p m] del fs last
    by (auto simp: module_released_def same_but_finalizers_def)
  with p mod_patch_objects [OF p] show ?thesis by (auto simp: rm)
qed

lemma deleting_pass:
  assumes m: "mod_view s n = Some m" and del: "deletion_timestamp (m_meta m) \<noteq> None"
    and fin: "has_module_finalizer m" and run: "Reconcile_module K M R n s = (out, s')"
    and ns: "ns = resolveCleanupNamespace K M m s"
  shows "ns = '''' \<or> (\<forall>kd \<in> cleanup_kinds m. served kd) \<Longrightarrow>
      out = Returns None \<and> module_released m (mod_view s' n)
      \<and> (ns \<noteq> '''' \<longrightarrow> (\<forall>kd \<in> cleanup_kinds m. gone_or_terminating (view s') (kd, ns, n)))"
    and "\<not> (ns = '''' \<or> (\<forall>kd \<in> cleanup_kinds m. served kd)) \<Longrightarrow>
      (\<exists>e. out = Returns (Some e)) \<and> mod_view s' = mod_view s"
proof -
  have n: "m_name m = n" by (rule mod_named [OF m])
  obtain c t where clean: "cleanup_flux K m ns s = (c, t)" by force
  have t: "mod_view t (m_name m) = Some m" using cleanup_modules [OF clean] m n by simp
  have rd: "(case reconcileDelete K M m s of (err, s') \<Rightarrow> (Returns err, s')) = (out, s')"
    using run mod_get_succeeds [OF m] del by (simp add: Reconcile_module_def split: prod.splits)
  note unfolded = rd [unfolded reconcileDelete_def contains_has ns [symmetric] clean]
  {
    assume "ns = '''' \<or> (\<forall>kd \<in> cleanup_kinds m. served kd)"
    with cleanup_iff [of m ns s] clean have c: "c = None" by simp
    obtain m2 u where p: "mc_patch M m (m\<lparr> m_meta := k_remove_finalizer K (m_meta m) ModuleFinalizer \<rparr>) t = (Inr m2, u)"
      and rel: "module_released m (mod_view u (m_name m))" and u: "view u = view t"
      using release_succeeds [OF t del fin] by blast
    have "out = Returns None" "s' = u" using unfolded fin c p by simp_all
    moreover have "ns \<noteq> '''' \<longrightarrow> (\<forall>kd \<in> cleanup_kinds m. gone_or_terminating (view u) (kd, ns, n))"
      using cleanup.step_goal [OF clean [unfolded c]] u n by (auto simp: cleanup_kinds_def)
    ultimately show "out = Returns None \<and> module_released m (mod_view s' n)
      \<and> (ns \<noteq> '''' \<longrightarrow> (\<forall>kd \<in> cleanup_kinds m. gone_or_terminating (view s') (kd, ns, n)))"
      using rel n by simp
  next
    assume "\<not> (ns = '''' \<or> (\<forall>kd \<in> cleanup_kinds m. served kd))"
    with cleanup_iff [of m ns s] clean obtain e where c: "c = Some e" by auto
    with unfolded fin cleanup_modules [OF clean]
    show "(\<exists>e. out = Returns (Some e)) \<and> mod_view s' = mod_view s" by auto
  }
qed

end

end
