(* ===== verification/Mem_Cluster.thy ===== *)
theory Mem_Cluster
  imports Workspace_Convergence Module_Convergence
begin

text \<open>
  A concrete instance of the client parameter: an API server in memory, with the libraries'
  helper functions computed on its data. It shows that the laws of the interface locales can
  hold together, and it is the cluster on which the witnesses of the development run. It can be
  scripted to fail: each write takes the next entry of \<open>mem_faults\<close>, and an entry other than
  \<open>None\<close> makes it fail with that text. The functions here model no code of the operator.
\<close>

section \<open>Keyed lists\<close>

definition keyed :: "('a \<Rightarrow> 'k) \<Rightarrow> 'a list \<Rightarrow> 'k \<Rightarrow> 'a option" where
  "keyed key xs k = List.find (\<lambda>x. key x = k) xs"

fun put_keyed :: "('a \<Rightarrow> 'k) \<Rightarrow> 'a \<Rightarrow> 'a list \<Rightarrow> 'a list" where
  "put_keyed key y [] = [y]"
| "put_keyed key y (x # xs) = (if key x = key y then y # xs else x # put_keyed key y xs)"

definition drop_keyed :: "('a \<Rightarrow> 'k) \<Rightarrow> 'k \<Rightarrow> 'a list \<Rightarrow> 'a list" where
  "drop_keyed key k xs = filter (\<lambda>x. key x \<noteq> k) xs"

lemma keyed_key: "keyed key xs k = Some x \<Longrightarrow> key x = k"
  by (simp add: keyed_def find_Some_iff) blast

lemma keyed_put: "keyed key (put_keyed key y xs) k = (if k = key y then Some y else keyed key xs k)"
  by (induction xs) (auto simp: keyed_def)

lemma keyed_drop: "keyed key (drop_keyed key j xs) k = (if k = j then None else keyed key xs k)"
  by (induction xs) (auto simp: keyed_def drop_keyed_def)

section \<open>The cluster\<close>

record mem =
  mem_objects :: "kobject list"
  mem_workspaces :: "workspace list"
  mem_modules :: "module list"
  mem_templates :: "module_template list"
  mem_faults :: "string option list"
  mem_clock :: nat
  mem_events :: "event list"

definition mem_view :: "kind list \<Rightarrow> mem \<Rightarrow> key \<Rightarrow> kobject option" where
  "mem_view L s k = (if fst k \<in> set L then keyed key_of (mem_objects s) k else None)"

definition mem_ws :: "mem \<Rightarrow> string \<Rightarrow> workspace option" where
  "mem_ws s = keyed w_name (mem_workspaces s)"

definition mem_mod :: "mem \<Rightarrow> string \<Rightarrow> module option" where
  "mem_mod s = keyed m_name (mem_modules s)"

definition mem_tmpl :: "mem \<Rightarrow> string \<Rightarrow> module_template option" where
  "mem_tmpl s = keyed mt_name (mem_templates s)"

definition mem_emit :: "event \<Rightarrow> mem \<Rightarrow> mem" where
  "mem_emit ev s = s\<lparr> mem_events := mem_events s @ [ev] \<rparr>"

definition next_fault :: "mem \<Rightarrow> go_error option \<times> mem" where
  "next_fault s =
     (case mem_faults s of
        [] \<Rightarrow> (None, s)
      | f # fs \<Rightarrow> (map_option (ExternalError ''fault'') f, s\<lparr> mem_faults := fs \<rparr>))"

text \<open>Defaulting: an empty LimitRange document becomes an empty object.\<close>

fun mem_default :: "obj_spec \<Rightarrow> obj_spec" where
  "mem_default (LimitRangeSpec JNull) = LimitRangeSpec (JObject [])"
| "mem_default sp = sp"

fun external_class :: "go_error \<Rightarrow> string" where
  "external_class (ExternalError c m) = c"
| "external_class _ = ''''"

definition mem_get :: "kind list \<Rightarrow> key \<Rightarrow> mem \<Rightarrow> go_error + kobject" where
  "mem_get L k s =
     (case mem_view L s k of
        None \<Rightarrow> Inl (ExternalError ''NotFound'' ''the object is not found'')
      | Some ob \<Rightarrow> Inr ob)"

definition mem_store :: "nat \<Rightarrow> kobject option \<Rightarrow> kobject \<Rightarrow> kobject" where
  "mem_store clock old ob' =
     (let base = (case old of None \<Rightarrow> ob' | Some x \<Rightarrow> x);
          created = (case creation_timestamp (obj_meta base) of None \<Rightarrow> Some clock | t \<Rightarrow> t)
      in base\<lparr> obj_spec := mem_default (obj_spec ob'),
               obj_meta := (obj_meta base)\<lparr>
                 creation_timestamp := created,
                 meta_labels := served_labels (key_of ob') (meta_labels (obj_meta ob')),
                 owner_references := owner_references (obj_meta ob'),
                 meta_finalizers := meta_finalizers (obj_meta ob') \<rparr> \<rparr>)"

text \<open>The writes when nothing fails on the way, and the same behind a scripted fault.\<close>

definition mem_put :: "kind list \<Rightarrow> kobject \<Rightarrow> (kobject \<Rightarrow> go_error + kobject) \<Rightarrow> mem step" where
  "mem_put L ob f s =
     (if obj_kind ob \<notin> set L
      then (Some (ExternalError ''NoMatch'' ''the kind is not served''), s)
      else (case f (base_of (mem_view L) s ob) of
         Inl c \<Rightarrow> (Some c, s)
       | Inr ob' \<Rightarrow>
           if key_of ob' \<noteq> key_of ob
           then (Some (ExternalError ''Mutate'' ''the mutate function changed the name''), s)
           else (None, s\<lparr> mem_objects := put_keyed key_of
                   (mem_store (mem_clock s) (mem_view L s (key_of ob)) ob') (mem_objects s) \<rparr>)))"

definition mem_remove :: "kind list \<Rightarrow> key \<Rightarrow> mem step" where
  "mem_remove L k s =
     (if fst k \<notin> set L
      then (Some (ExternalError ''NoMatch'' ''the kind is not served''), s)
      else (case mem_view L s k of
         None \<Rightarrow> (Some (ExternalError ''NotFound'' ''the object is not found''), s)
       | Some x \<Rightarrow>
           if deletion_timestamp (obj_meta x) \<noteq> None then (None, s)
           else if meta_finalizers (obj_meta x) = []
             then (None, s\<lparr> mem_objects := drop_keyed key_of k (mem_objects s) \<rparr>)
           else (None, s\<lparr> mem_objects := put_keyed key_of
                   (x\<lparr> obj_meta := (obj_meta x)\<lparr> deletion_timestamp := Some (mem_clock s) \<rparr> \<rparr>)
                   (mem_objects s) \<rparr>)))"

definition faulty :: "mem step \<Rightarrow> mem step" where
  "faulty f s = (case next_fault s of (Some e, s1) \<Rightarrow> (Some e, s1) | (None, s1) \<Rightarrow> f s1)"

definition mem_is_not_found :: "go_error \<Rightarrow> bool" where
  "mem_is_not_found e \<longleftrightarrow> external_class e = ''NotFound''"

definition mem_is_no_match :: "go_error \<Rightarrow> bool" where
  "mem_is_no_match e \<longleftrightarrow> external_class e = ''NoMatch''"

definition mem_ignore_not_found :: "go_error option \<Rightarrow> go_error option" where
  "mem_ignore_not_found r =
     (case r of None \<Rightarrow> None | Some e \<Rightarrow> if mem_is_not_found e then None else Some e)"

definition owner_entry :: "owner \<Rightarrow> owner_reference" where
  "owner_entry ow =
     \<lparr> ref_kind = owner_kind ow, ref_name = owner_name ow, ref_uid = owner_uid ow,
       ref_controller = True \<rparr>"

definition mem_set_controller_reference :: "owner \<Rightarrow> object_meta \<Rightarrow> go_error + object_meta" where
  "mem_set_controller_reference ow m =
     (if list_ex (\<lambda>r. ref_controller r \<and> (ref_kind r, ref_name r) \<noteq> (owner_kind ow, owner_name ow))
           (owner_references m)
      then Inl (ExternalError ''AlreadyOwned'' ''the object has another controller'')
      else Inr (m\<lparr> owner_references :=
             filter (\<lambda>r. (ref_kind r, ref_name r) \<noteq> (owner_kind ow, owner_name ow)) (owner_references m)
             @ [owner_entry ow] \<rparr>))"

definition merge_condition :: "condition \<Rightarrow> condition \<Rightarrow> condition" where
  "merge_condition c d =
     d\<lparr> cond_status := cond_status c, cond_reason := cond_reason c, cond_message := cond_message c,
        cond_observed_generation := cond_observed_generation c,
        cond_last_transition :=
          (if cond_status c = cond_status d then cond_last_transition d else Some 0) \<rparr>"

fun mem_set_status_condition :: "condition \<Rightarrow> condition list \<Rightarrow> condition list" where
  "mem_set_status_condition c [] = [c\<lparr> cond_last_transition := Some 0 \<rparr>]"
| "mem_set_status_condition c (d # ds) =
     (if cond_type d = cond_type c then merge_condition c d # ds
      else d # mem_set_status_condition c ds)"

definition mem_find_status_condition :: "condition list \<Rightarrow> string \<Rightarrow> condition option" where
  "mem_find_status_condition cs t = List.find (\<lambda>c. cond_type c = t) cs"

definition mem_contains_finalizer :: "object_meta \<Rightarrow> string \<Rightarrow> bool" where
  "mem_contains_finalizer m f \<longleftrightarrow> f \<in> set (meta_finalizers m)"

definition mem_add_finalizer :: "object_meta \<Rightarrow> string \<Rightarrow> object_meta" where
  "mem_add_finalizer m f =
     (if f \<in> set (meta_finalizers m) then m
      else m\<lparr> meta_finalizers := meta_finalizers m @ [f] \<rparr>)"

definition mem_remove_finalizer :: "object_meta \<Rightarrow> string \<Rightarrow> object_meta" where
  "mem_remove_finalizer m f = m\<lparr> meta_finalizers := filter (\<lambda>g. g \<noteq> f) (meta_finalizers m) \<rparr>"

definition mem_kube :: "kind list \<Rightarrow> mem kube" where
  "mem_kube L =
     \<lparr> k_get = mem_get L, k_create_or_update = mem_put L, k_delete = mem_remove L,
       k_is_not_found = mem_is_not_found, k_is_no_match = mem_is_no_match,
       k_reason_for_error = external_class,
       k_ignore_not_found = mem_ignore_not_found,
       k_set_controller_reference = mem_set_controller_reference,
       k_set_status_condition = mem_set_status_condition,
       k_find_status_condition = mem_find_status_condition,
       k_contains_finalizer = mem_contains_finalizer, k_add_finalizer = mem_add_finalizer,
       k_remove_finalizer = mem_remove_finalizer \<rparr>"

definition faulty_kube :: "kind list \<Rightarrow> mem kube" where
  "faulty_kube L = (mem_kube L)\<lparr> k_create_or_update := (\<lambda>ob f. faulty (mem_put L ob f)),
     k_delete := (\<lambda>k. faulty (mem_remove L k)) \<rparr>"

lemma mem_kube_simps [simp]:
  "k_get (mem_kube L) = mem_get L" "k_create_or_update (mem_kube L) = mem_put L"
  "k_delete (mem_kube L) = mem_remove L" "k_is_not_found (mem_kube L) = mem_is_not_found"
  "k_is_no_match (mem_kube L) = mem_is_no_match" "k_reason_for_error (mem_kube L) = external_class"
  "k_ignore_not_found (mem_kube L) = mem_ignore_not_found"
  "k_set_controller_reference (mem_kube L) = mem_set_controller_reference"
  "k_set_status_condition (mem_kube L) = mem_set_status_condition"
  "k_find_status_condition (mem_kube L) = mem_find_status_condition"
  "k_contains_finalizer (mem_kube L) = mem_contains_finalizer"
  "k_add_finalizer (mem_kube L) = mem_add_finalizer"
  "k_remove_finalizer (mem_kube L) = mem_remove_finalizer"
  by (simp_all add: mem_kube_def)

lemma faulty_kube_simps [simp]:
  "k_get (faulty_kube L) = mem_get L"
  "k_create_or_update (faulty_kube L) = (\<lambda>ob f. faulty (mem_put L ob f))"
  "k_delete (faulty_kube L) = (\<lambda>k. faulty (mem_remove L k))"
  "k_is_not_found (faulty_kube L) = mem_is_not_found"
  "k_is_no_match (faulty_kube L) = mem_is_no_match" "k_reason_for_error (faulty_kube L) = external_class"
  "k_ignore_not_found (faulty_kube L) = mem_ignore_not_found"
  "k_set_controller_reference (faulty_kube L) = mem_set_controller_reference"
  "k_set_status_condition (faulty_kube L) = mem_set_status_condition"
  "k_find_status_condition (faulty_kube L) = mem_find_status_condition"
  "k_contains_finalizer (faulty_kube L) = mem_contains_finalizer"
  "k_add_finalizer (faulty_kube L) = mem_add_finalizer"
  "k_remove_finalizer (faulty_kube L) = mem_remove_finalizer"
  by (simp_all add: faulty_kube_def)

section \<open>The laws of the client hold\<close>

lemma next_fault_keeps:
  assumes "next_fault s = (r, s1)"
  shows "mem_view L s1 = mem_view L s" "mem_ws s1 = mem_ws s" "mem_mod s1 = mem_mod s"
    "mem_tmpl s1 = mem_tmpl s"
  using assms
  by (auto simp: next_fault_def mem_view_def mem_ws_def mem_mod_def mem_tmpl_def fun_eq_iff
      split: list.splits)

lemma next_fault_class: "next_fault s = (Some e, s1) \<Longrightarrow> \<exists>m. e = ExternalError ''fault'' m"
  by (auto simp: next_fault_def split: list.splits)

lemma faulty_cases:
  assumes "faulty f s = (r, s')"
  obtains
    (fault) m where "r = Some (ExternalError ''fault'' m)" "\<And>L. mem_view L s' = mem_view L s"
      "mem_ws s' = mem_ws s" "mem_mod s' = mem_mod s"
  | (through) s1 where "f s1 = (r, s')" "\<And>L. mem_view L s1 = mem_view L s" "mem_ws s1 = mem_ws s"
      "mem_mod s1 = mem_mod s"
proof -
  obtain q s1 where nf: "next_fault s = (q, s1)" by force
  note keep = next_fault_keeps [OF nf]
  show ?thesis
  proof (cases q)
    case None
    with assms nf have "f s1 = (r, s')" by (simp add: faulty_def)
    then show ?thesis using keep(1-3) by (rule through)
  next
    case (Some e)
    with nf next_fault_class obtain m where "e = ExternalError ''fault'' m" by blast
    with assms nf Some have "r = Some (ExternalError ''fault'' m)" "s' = s1"
      by (simp_all add: faulty_def)
    with keep(1-3) fault show ?thesis by blast
  qed
qed

lemma base_of_cong: "view s = view s' \<Longrightarrow> base_of view s ob = base_of view s' ob"
  by (simp add: base_of_def)

lemma key_of_mem_store:
  assumes "key_of ob' = k" and "\<And>x. old = Some x \<Longrightarrow> key_of x = k"
  shows "key_of (mem_store clock old ob') = k"
  using assms by (auto simp: mem_store_def Let_def key_of_def split: option.splits)

lemma mem_store_written:
  assumes "key_of ob' = k" and "\<And>x. old = Some x \<Longrightarrow> key_of x = k"
  shows "written mem_default ob' (mem_store clock old ob')"
  using key_of_mem_store [of ob' k old clock] assms
  by (auto simp: written_def mem_store_def Let_def split: option.splits)

lemma mem_store_unchanged:
  assumes "written mem_default ob' x"
  shows "mem_store clock (Some x) ob' = x"
  using assms by (auto simp: written_def mem_store_def Let_def split: option.splits)

lemma fst_key_of [simp]: "fst (key_of ob) = obj_kind ob"
  by (simp add: key_of_def)

lemma mem_view_put:
  assumes "key_of ob = k" and "fst k \<in> set L"
  shows "mem_view L (s\<lparr> mem_objects := put_keyed key_of ob (mem_objects s) \<rparr>) = (mem_view L s)(k \<mapsto> ob)"
proof
  fix j
  show "mem_view L (s\<lparr> mem_objects := put_keyed key_of ob (mem_objects s) \<rparr>) j = ((mem_view L s)(k \<mapsto> ob)) j"
    using assms by (cases "j = k") (simp_all add: mem_view_def keyed_put)
qed

lemma mem_view_drop:
  "mem_view L (s\<lparr> mem_objects := drop_keyed key_of k (mem_objects s) \<rparr>) = (mem_view L s)(k := None)"
proof
  fix j
  show "mem_view L (s\<lparr> mem_objects := drop_keyed key_of k (mem_objects s) \<rparr>) j = ((mem_view L s)(k := None)) j"
    by (cases "j = k") (simp_all add: mem_view_def keyed_drop)
qed

lemma mem_view_key: "mem_view L s k = Some x \<Longrightarrow> key_of x = k"
  unfolding mem_view_def by (metis keyed_key option.distinct(1))

lemma mem_view_served: "mem_view L s k = Some x \<Longrightarrow> fst k \<in> set L"
  by (simp add: mem_view_def split: if_splits)

lemma mem_put_cases:
  assumes "mem_put L ob f s = (r, s')"
  obtains
    (library) c m where "r = Some (ExternalError c m)" "c = ''NoMatch'' \<or> c = ''Mutate''"
      "mem_view L s' = mem_view L s"
  | (refused) c where "r = Some c" "f (base_of (mem_view L) s ob) = Inl c" "mem_view L s' = mem_view L s"
  | (stored) ob' clock where "r = None" "f (base_of (mem_view L) s ob) = Inr ob'" "key_of ob' = key_of ob"
      "mem_view L s' = (mem_view L s)(key_of ob \<mapsto> mem_store clock (mem_view L s (key_of ob)) ob')"
proof (cases "obj_kind ob \<in> set L")
  case False
  with assms show ?thesis
    by (intro library [of "''NoMatch''" "''the kind is not served''"]) (auto simp: mem_put_def)
next
  case served: True
  show ?thesis
  proof (cases "f (base_of (mem_view L) s ob)")
    case (Inl c)
    with assms served show ?thesis by (intro refused [of c]) (auto simp: mem_put_def)
  next
    case (Inr ob')
    show ?thesis
    proof (cases "key_of ob' = key_of ob")
      case False
      with assms served Inr show ?thesis
        by (intro library [of "''Mutate''" "''the mutate function changed the name''"])
          (auto simp: mem_put_def)
    next
      case True
      let ?x = "mem_store (mem_clock s) (mem_view L s (key_of ob)) ob'"
      have key: "key_of ?x = key_of ob"
        using True by (rule key_of_mem_store) (rule mem_view_key)
      from served have "fst (key_of ob) \<in> set L" by simp
      from mem_view_put [OF key this]
      have "mem_view L s' = (mem_view L s)(key_of ob \<mapsto> ?x)"
        using assms served Inr True by (auto simp: mem_put_def)
      moreover have "r = None" using assms served Inr True by (simp add: mem_put_def)
      ultimately show ?thesis using Inr True stored by blast
    qed
  qed
qed

lemma mem_remove_cases:
  assumes "mem_remove L k s = (r, s')"
  obtains
    (missing) c m where "r = Some (ExternalError c m)" "c = ''NotFound'' \<or> c = ''NoMatch''"
      "mem_view L s k = None" "s' = s" "c = ''NoMatch'' \<longrightarrow> fst k \<notin> set L"
  | (terminating) x where "r = None" "mem_view L s k = Some x" "deletion_timestamp (obj_meta x) \<noteq> None"
      "s' = s"
  | (removed) x where "r = None" "mem_view L s k = Some x" "deletion_timestamp (obj_meta x) = None"
      "mem_view L s' = (mem_view L s)(k := None)"
  | (marked) x y where "r = None" "mem_view L s k = Some x" "deletion_timestamp (obj_meta x) = None"
      "mem_view L s' = (mem_view L s)(k \<mapsto> y)" "deletion_timestamp (obj_meta y) \<noteq> None"
proof (cases "fst k \<in> set L")
  case False
  with assms show ?thesis
    by (intro missing [of "''NoMatch''" "''the kind is not served''"])
      (simp_all add: mem_remove_def mem_view_def)
next
  case served: True
  show ?thesis
  proof (cases "mem_view L s k")
    case None
    with assms served show ?thesis
      by (intro missing [of "''NotFound''" "''the object is not found''"])
        (simp_all add: mem_remove_def)
  next
    case x: (Some x)
    show ?thesis
    proof (cases "deletion_timestamp (obj_meta x)")
      case (Some t)
      with assms served x show ?thesis by (intro terminating [of x]) (simp_all add: mem_remove_def)
    next
      case live: None
      show ?thesis
      proof (cases "meta_finalizers (obj_meta x) = []")
        case True
        then have "r = None" "s' = s\<lparr> mem_objects := drop_keyed key_of k (mem_objects s) \<rparr>"
          using assms served x live by (simp_all add: mem_remove_def)
        with x live mem_view_drop show ?thesis by (intro removed [of x]) simp_all
      next
        case False
        let ?y = "x\<lparr> obj_meta := (obj_meta x)\<lparr> deletion_timestamp := Some (mem_clock s) \<rparr> \<rparr>"
        have "key_of ?y = k" using mem_view_key [OF x] by (simp add: key_of_def)
        from mem_view_put [OF this served]
        have view: "mem_view L (s\<lparr> mem_objects := put_keyed key_of ?y (mem_objects s) \<rparr>) = (mem_view L s)(k \<mapsto> ?y)" .
        have "r = None" "s' = s\<lparr> mem_objects := put_keyed key_of ?y (mem_objects s) \<rparr>"
          using assms served x live False by (simp_all add: mem_remove_def)
        with x live view show ?thesis by (intro marked [of x ?y]) simp_all
      qed
    qed
  qed
qed


lemma mem_default_idem: "mem_default (mem_default sp) = mem_default sp"
  by (cases sp rule: mem_default.cases) simp_all

lemma mem_get_error:
  "mem_get L k s = Inl e \<Longrightarrow> external e \<and> mem_view L s k = None"
  by (auto simp: mem_get_def split: option.splits)

lemma mem_set_controller_reference_ok:
  assumes "mem_set_controller_reference ow m = Inr m'"
  shows "controlled_by ow m'" and "m' = m\<lparr> owner_references := owner_references m' \<rparr>"
    and "owner_references m2 = owner_references m' \<Longrightarrow> mem_set_controller_reference ow m2 = Inr m2"
proof -
  let ?rest = "filter (\<lambda>r. (ref_kind r, ref_name r) \<noteq> (owner_kind ow, owner_name ow)) (owner_references m)"
  have free: "\<not> list_ex (\<lambda>r. ref_controller r \<and> (ref_kind r, ref_name r) \<noteq> (owner_kind ow, owner_name ow))
      (owner_references m)"
    and m': "m' = m\<lparr> owner_references := ?rest @ [owner_entry ow] \<rparr>"
    using assms by (auto simp: mem_set_controller_reference_def split: if_splits)
  then have refs: "owner_references m' = ?rest @ [owner_entry ow]" by simp
  then show "controlled_by ow m'" by (simp add: controlled_by_def owner_entry_def)
  show "m' = m\<lparr> owner_references := owner_references m' \<rparr>" using m' refs by simp
  assume m2: "owner_references m2 = owner_references m'"
  have "filter (\<lambda>r. (ref_kind r, ref_name r) \<noteq> (owner_kind ow, owner_name ow)) (owner_references m2)
      = ?rest"
    by (simp add: m2 refs owner_entry_def)
  moreover have "\<not> list_ex (\<lambda>r. ref_controller r \<and> (ref_kind r, ref_name r) \<noteq> (owner_kind ow, owner_name ow))
      (owner_references m2)"
    using free unfolding m2 refs list_ex_iff by (simp add: owner_entry_def) blast
  ultimately show "mem_set_controller_reference ow m2 = Inr m2"
    using m2 refs unfolding mem_set_controller_reference_def by simp
qed

lemma mem_set_controller_reference_taken:
  "(\<exists>e. mem_set_controller_reference ow m = Inl e) \<longleftrightarrow> controlled_by_other ow m"
  unfolding mem_set_controller_reference_def controlled_by_other_def list_ex_iff by auto

lemma mem_set_controller_reference_error:
  "mem_set_controller_reference ow m = Inl e \<Longrightarrow> external e"
  by (auto simp: mem_set_controller_reference_def split: if_splits)

lemma mem_put_unchanged:
  assumes "mem_put L ob f s = (None, s')" and x: "mem_view L s (key_of ob) = Some x"
    and "f x = Inr ob'" and "written mem_default ob' x"
  shows "mem_view L s' = mem_view L s"
  using assms(1)
proof (cases rule: mem_put_cases)
  case (stored ob2 clock)
  with assms have "ob2 = ob'" by (simp add: base_of_def)
  with stored(4) x mem_store_unchanged [OF assms(4)] show ?thesis
    by (simp add: fun_upd_idem)
qed simp_all

lemma mem_put_applied:
  assumes "mem_put L ob f s = (None, s')"
  shows "\<exists>ob'. f (base_of (mem_view L) s ob) = Inr ob' \<and> applied (mem_view L) mem_default (key_of ob) ob' s s'"
  using assms
proof (cases rule: mem_put_cases)
  case (stored ob' clock)
  have "written mem_default ob' (mem_store clock (mem_view L s (key_of ob)) ob')"
    using stored(3) by (rule mem_store_written) (rule mem_view_key)
  with stored show ?thesis by (auto simp: applied_def)
qed simp_all

lemma mem_put_error:
  assumes "mem_put L ob f s = (Some e, s')"
  shows "(f (base_of (mem_view L) s ob) = Inl e \<or> external e) \<and> mem_view L s' = mem_view L s"
  using assms by (cases rule: mem_put_cases) auto

lemma mem_remove_frame: "mem_remove L k s = (r, s') \<Longrightarrow> k' \<noteq> k \<Longrightarrow> mem_view L s' k' = mem_view L s k'"
  by (cases rule: mem_remove_cases) auto

lemma mem_remove_gone: "mem_remove L k s = (None, s') \<Longrightarrow> gone_or_terminating (mem_view L s') k"
  by (cases rule: mem_remove_cases) (auto simp: gone_or_terminating_def)

lemma mem_remove_error:
  "mem_remove L k s = (Some e, s') \<Longrightarrow> external e \<and> mem_view L s k = None \<and> s' = s"
  by (cases rule: mem_remove_cases) auto

lemma mem_remove_quiet:
  "gone_or_terminating (mem_view L s) k \<Longrightarrow> mem_remove L k s = (r, s') \<Longrightarrow> mem_view L s' = mem_view L s"
  by (cases rule: mem_remove_cases) (auto simp: gone_or_terminating_def)

lemma faulty_put_error:
  assumes "faulty (mem_put L ob f) s = (Some e, s')"
  shows "(f (base_of (mem_view L) s ob) = Inl e \<or> external e) \<and> mem_view L s' = mem_view L s"
  using assms
proof (cases rule: faulty_cases)
  case (through s1)
  then show ?thesis using mem_put_error [of L ob f s1 e s'] by (simp add: base_of_cong [of "mem_view L" s1 s])
qed auto

lemma faulty_put_ok:
  assumes "faulty (mem_put L ob f) s = (None, s')"
  shows "\<exists>s1. mem_put L ob f s1 = (None, s') \<and> mem_view L s1 = mem_view L s"
  using assms by (cases rule: faulty_cases) auto

lemma faulty_put_applied:
  assumes "faulty (mem_put L ob f) s = (None, s')"
  shows "\<exists>ob'. f (base_of (mem_view L) s ob) = Inr ob' \<and> applied (mem_view L) mem_default (key_of ob) ob' s s'"
proof -
  obtain s1 where s1: "mem_put L ob f s1 = (None, s')" "mem_view L s1 = mem_view L s"
    using faulty_put_ok [OF assms] by blast
  then show ?thesis
    using mem_put_applied [OF s1(1)] by (simp add: base_of_cong [of "mem_view L" s1 s] applied_def)
qed

lemma faulty_put_unchanged:
  assumes "faulty (mem_put L ob f) s = (None, s')" and "mem_view L s (key_of ob) = Some x"
    and "f x = Inr ob'" and "written mem_default ob' x"
  shows "mem_view L s' = mem_view L s"
  using faulty_put_ok [OF assms(1)] mem_put_unchanged [of L ob f _ s' x ob'] assms(2-4) by metis

lemma faulty_remove_frame:
  "faulty (mem_remove L k) s = (r, s') \<Longrightarrow> k' \<noteq> k \<Longrightarrow> mem_view L s' k' = mem_view L s k'"
  by (cases rule: faulty_cases) (auto dest: mem_remove_frame)

lemma faulty_remove_gone: "faulty (mem_remove L k) s = (None, s') \<Longrightarrow> gone_or_terminating (mem_view L s') k"
  by (cases rule: faulty_cases) (auto dest: mem_remove_gone)

lemma faulty_remove_error:
  "faulty (mem_remove L k) s = (Some e, s') \<Longrightarrow> external e
     \<and> (mem_is_not_found e \<or> mem_is_no_match e \<longrightarrow> mem_view L s k = None \<and> mem_view L s' k = None)"
  by (cases rule: faulty_cases)
    (auto dest: mem_remove_error simp: mem_is_not_found_def mem_is_no_match_def)

lemma faulty_remove_quiet:
  "gone_or_terminating (mem_view L s) k \<Longrightarrow> faulty (mem_remove L k) s = (r, s') \<Longrightarrow> mem_view L s' = mem_view L s"
  by (erule faulty_cases) (metis mem_remove_quiet)+

lemma mem_get_ok: "mem_get L k s = Inr ob \<Longrightarrow> mem_view L s k = Some ob"
  by (simp add: mem_get_def split: option.splits)

interpretation mem_api: kube_api "mem_kube L" "mem_view L" mem_default for L
  by (unfold_locales, unfold mem_kube_simps)
    (blast intro: mem_view_key mem_get_ok mem_default_idem mem_put_unchanged
      mem_remove_frame mem_remove_gone mem_remove_quiet
      dest: mem_get_error mem_put_applied mem_put_error mem_remove_error
        mem_set_controller_reference_ok mem_set_controller_reference_error
    | simp add: mem_ignore_not_found_def mem_set_controller_reference_taken)+

interpretation faulty_api: kube_api "faulty_kube L" "mem_view L" mem_default for L
  by (unfold_locales, unfold faulty_kube_simps)
    (blast intro: mem_view_key mem_get_ok mem_default_idem faulty_put_unchanged
      faulty_remove_frame faulty_remove_gone faulty_remove_quiet
      dest: mem_get_error faulty_put_applied faulty_put_error faulty_remove_error
        mem_set_controller_reference_ok mem_set_controller_reference_error
    | simp add: mem_ignore_not_found_def mem_set_controller_reference_taken)+

section \<open>Conditions and finalizers\<close>

lemma mem_set_status_condition_types:
  "map cond_type (mem_set_status_condition c cs) =
     (if cond_type c \<in> cond_type ` set cs then map cond_type cs
      else map cond_type cs @ [cond_type c])"
  by (induction cs) (auto simp: merge_condition_def)

lemma mem_set_status_condition_this:
  "\<exists>d. List.find (\<lambda>d. cond_type d = cond_type c) (mem_set_status_condition c cs) = Some d
     \<and> same_condition d c"
  by (induction cs) (auto simp: merge_condition_def same_condition_def)

lemma mem_set_status_condition_other:
  "t \<noteq> cond_type c \<Longrightarrow>
     List.find (\<lambda>d. cond_type d = t) (mem_set_status_condition c cs) =
     List.find (\<lambda>d. cond_type d = t) cs"
  by (induction cs) (auto simp: merge_condition_def)

lemma mem_set_status_condition_unchanged:
  "List.find (\<lambda>d. cond_type d = cond_type c) cs = Some d \<Longrightarrow> same_condition d c \<Longrightarrow>
     mem_set_status_condition c cs = cs"
  by (induction cs) (auto simp: merge_condition_def same_condition_def split: if_splits)

lemma mem_condition_api:
  assumes "k_find_status_condition K = mem_find_status_condition"
    and "k_set_status_condition K = mem_set_status_condition"
  shows "condition_api K"
  by unfold_locales
    (simp_all add: assms mem_find_status_condition_def mem_set_status_condition_types
      mem_set_status_condition_this mem_set_status_condition_other mem_set_status_condition_unchanged)

lemma mem_finalizer_api:
  assumes "k_contains_finalizer K = mem_contains_finalizer"
    and "k_add_finalizer K = mem_add_finalizer" and "k_remove_finalizer K = mem_remove_finalizer"
  shows "finalizer_api K"
  by unfold_locales
    (auto simp: assms mem_contains_finalizer_def mem_add_finalizer_def mem_remove_finalizer_def)

interpretation mem_conditions: condition_api "mem_kube L" for L
  by (rule mem_condition_api) simp_all

interpretation faulty_conditions: condition_api "faulty_kube L" for L
  by (rule mem_condition_api) simp_all

interpretation mem_finalizers: finalizer_api "mem_kube L" for L
  by (rule mem_finalizer_api) simp_all

interpretation faulty_finalizers: finalizer_api "faulty_kube L" for L
  by (rule mem_finalizer_api) simp_all

section \<open>The stored Workspaces\<close>

definition not_found :: "string \<Rightarrow> go_error" where
  "not_found n = ExternalError ''NotFound'' (n @ '' is not found'')"

definition mem_patch_ws_status :: "workspace \<Rightarrow> workspace \<Rightarrow> mem step" where
  "mem_patch_ws_status w w' s =
     (case mem_ws s (w_name w) of
        None \<Rightarrow> (Some (not_found (w_name w)), s)
      | Some x \<Rightarrow> (None, s\<lparr> mem_workspaces :=
            put_keyed w_name (x\<lparr> w_status := w_status w' \<rparr>) (mem_workspaces s) \<rparr>))"

definition mem_get_ws :: "string \<Rightarrow> mem \<Rightarrow> go_error + workspace" where
  "mem_get_ws n s = (case mem_ws s n of None \<Rightarrow> Inl (not_found n) | Some w \<Rightarrow> Inr w)"

definition mem_wc :: "mem workspace_client" where
  "mem_wc =
     \<lparr> wc_get = mem_get_ws,
       wc_list = (\<lambda>s. Inr (mem_workspaces s)),
       wc_patch_status = mem_patch_ws_status,
       wc_status_equal = (\<lambda>a b. a = b) \<rparr>"

definition faulty_wc :: "mem workspace_client" where
  "faulty_wc = mem_wc\<lparr> wc_patch_status := (\<lambda>w w'. faulty (mem_patch_ws_status w w')) \<rparr>"

lemma wc_simps [simp]:
  "wc_get mem_wc = mem_get_ws" "wc_get faulty_wc = mem_get_ws"
  "wc_list mem_wc = (\<lambda>s. Inr (mem_workspaces s))"
  "wc_list faulty_wc = (\<lambda>s. Inr (mem_workspaces s))"
  "wc_patch_status mem_wc = mem_patch_ws_status"
  "wc_patch_status faulty_wc = (\<lambda>w w'. faulty (mem_patch_ws_status w w'))"
  "wc_status_equal mem_wc = (\<lambda>a b. a = b)" "wc_status_equal faulty_wc = (\<lambda>a b. a = b)"
  by (simp_all add: mem_wc_def faulty_wc_def)

lemma mem_ws_name: "mem_ws s n = Some w \<Longrightarrow> w_name w = n"
  unfolding mem_ws_def by (rule keyed_key)

lemma mem_ws_get:
  "mem_get_ws n s = Inr w \<Longrightarrow> mem_ws s n = Some w \<and> w_name w = n"
  "mem_get_ws n s = Inl e \<Longrightarrow> mem_ws s n = None"
  by (auto simp: mem_get_ws_def dest: mem_ws_name split: option.splits)

lemma mem_patch_ws:
  assumes "mem_patch_ws_status w w' s = (r, s')"
  shows "mem_view L s' = mem_view L s"
    and "mem_ws s (w_name w) = Some w \<Longrightarrow> r = None
      \<and> mem_ws s' = (mem_ws s)(w_name w \<mapsto> w\<lparr> w_status := w_status w' \<rparr>)"
proof -
  show "mem_view L s' = mem_view L s"
    using assms by (auto simp: mem_patch_ws_status_def mem_view_def fun_eq_iff split: option.splits)
  assume "mem_ws s (w_name w) = Some w"
  with assms show "r = None \<and> mem_ws s' = (mem_ws s)(w_name w \<mapsto> w\<lparr> w_status := w_status w' \<rparr>)"
    by (auto simp: mem_patch_ws_status_def mem_ws_def fun_eq_iff keyed_put)
qed

lemma faulty_patch_ws:
  assumes "faulty (mem_patch_ws_status w w') s = (r, s')"
  shows "mem_view L s' = mem_view L s"
    and "mem_ws s (w_name w) = Some w \<Longrightarrow>
      (r \<noteq> None \<and> mem_ws s' = mem_ws s)
      \<or> (r = None \<and> mem_ws s' = (mem_ws s)(w_name w \<mapsto> w\<lparr> w_status := w_status w' \<rparr>))"
proof -
  have "mem_view L s' = mem_view L s \<and> (mem_ws s (w_name w) = Some w \<longrightarrow>
      (r \<noteq> None \<and> mem_ws s' = mem_ws s)
      \<or> (r = None \<and> mem_ws s' = (mem_ws s)(w_name w \<mapsto> w\<lparr> w_status := w_status w' \<rparr>)))"
    using assms
  proof (cases rule: faulty_cases)
    case (through s1)
    then show ?thesis using mem_patch_ws [OF through(1)] by simp
  qed simp
  then show "mem_view L s' = mem_view L s"
    and "mem_ws s (w_name w) = Some w \<Longrightarrow>
      (r \<noteq> None \<and> mem_ws s' = mem_ws s)
      \<or> (r = None \<and> mem_ws s' = (mem_ws s)(w_name w \<mapsto> w\<lparr> w_status := w_status w' \<rparr>))"
    by blast+
qed

lemma mem_put_stores:
  "mem_put L ob f s = (r, s') \<Longrightarrow> mem_ws s' = mem_ws s \<and> mem_mod s' = mem_mod s"
  by (auto simp: mem_put_def mem_ws_def mem_mod_def fun_eq_iff split: if_splits sum.splits)

lemma mem_remove_stores:
  "mem_remove L k s = (r, s') \<Longrightarrow> mem_ws s' = mem_ws s \<and> mem_mod s' = mem_mod s"
  by (auto simp: mem_remove_def mem_ws_def mem_mod_def fun_eq_iff split: if_splits option.splits)

lemma faulty_stores:
  assumes "\<And>t r t'. f t = (r, t') \<Longrightarrow> mem_ws t' = mem_ws t \<and> mem_mod t' = mem_mod t"
    and "faulty f s = (r, s')"
  shows "mem_ws s' = mem_ws s \<and> mem_mod s' = mem_mod s"
  using assms(2)
proof (cases rule: faulty_cases)
  case (through s1)
  then show ?thesis using assms(1) [of s1 r s'] by simp
qed simp

lemma faulty_put_stores:
  "faulty (mem_put L ob f) s = (r, s') \<Longrightarrow> mem_ws s' = mem_ws s \<and> mem_mod s' = mem_mod s"
  by (rule faulty_stores) (rule mem_put_stores)

lemma faulty_remove_stores:
  "faulty (mem_remove L k) s = (r, s') \<Longrightarrow> mem_ws s' = mem_ws s \<and> mem_mod s' = mem_mod s"
  by (rule faulty_stores) (rule mem_remove_stores)

lemma mem_emit_stores [simp]:
  "mem_view L (mem_emit ev s) = mem_view L s" "mem_ws (mem_emit ev s) = mem_ws s"
  "mem_mod (mem_emit ev s) = mem_mod s"
  by (simp_all add: mem_emit_def mem_view_def mem_ws_def mem_mod_def fun_eq_iff)

interpretation mem_workspace_store:
  workspace_store "mem_kube L" "mem_view L" mem_default mem_wc mem_ws mem_emit for L
  by (unfold_locales; force dest: mem_ws_get mem_patch_ws mem_put_stores mem_remove_stores)

interpretation faulty_workspace_store:
  workspace_store "faulty_kube L" "mem_view L" mem_default faulty_wc mem_ws mem_emit for L
  by (unfold_locales, unfold faulty_kube_simps wc_simps)
    (blast dest: mem_ws_get faulty_patch_ws(1) faulty_put_stores faulty_remove_stores
    | fastforce dest: faulty_patch_ws(2) | simp)+


section \<open>The stored Modules and templates\<close>

definition mem_get_module :: "string \<Rightarrow> mem \<Rightarrow> go_error + module" where
  "mem_get_module n s = (case mem_mod s n of None \<Rightarrow> Inl (not_found n) | Some m \<Rightarrow> Inr m)"

definition mem_get_template :: "string \<Rightarrow> mem \<Rightarrow> go_error + module_template" where
  "mem_get_template n s = (case mem_tmpl s n of None \<Rightarrow> Inl (not_found n) | Some mt \<Rightarrow> Inr mt)"

definition mem_patch_module :: "module \<Rightarrow> module \<Rightarrow> mem \<Rightarrow> (go_error + module) \<times> mem" where
  "mem_patch_module m m' s =
     (case mem_mod s (m_name m) of
        None \<Rightarrow> (Inl (not_found (m_name m)), s)
      | Some x \<Rightarrow>
          let y = x\<lparr> m_meta := (m_meta x)\<lparr> meta_finalizers := meta_finalizers (m_meta m') \<rparr> \<rparr>
          in (Inr y, s\<lparr> mem_modules :=
               (if deletion_timestamp (m_meta y) \<noteq> None \<and> meta_finalizers (m_meta y) = []
                then drop_keyed m_name (m_name m) (mem_modules s)
                else put_keyed m_name y (mem_modules s)) \<rparr>))"

definition mem_patch_module_status :: "module \<Rightarrow> module \<Rightarrow> mem step" where
  "mem_patch_module_status m m' s =
     (case mem_mod s (m_name m) of
        None \<Rightarrow> (Some (not_found (m_name m)), s)
      | Some x \<Rightarrow> (None, s\<lparr> mem_modules :=
            put_keyed m_name (x\<lparr> m_status := m_status m' \<rparr>) (mem_modules s) \<rparr>))"

definition mem_mc :: "mem module_client" where
  "mem_mc =
     \<lparr> mc_get = mem_get_module, mc_get_template = mem_get_template,
       mc_list = (\<lambda>s. Inr (mem_modules s)), mc_patch = mem_patch_module,
       mc_patch_status = mem_patch_module_status, mc_status_equal = (\<lambda>a b. a = b) \<rparr>"

definition faulty_mc :: "mem module_client" where
  "faulty_mc = mem_mc\<lparr> mc_patch_status := (\<lambda>m m'. faulty (mem_patch_module_status m m')) \<rparr>"

lemma mc_simps [simp]:
  "mc_get mem_mc = mem_get_module" "mc_get faulty_mc = mem_get_module"
  "mc_get_template mem_mc = mem_get_template" "mc_get_template faulty_mc = mem_get_template"
  "mc_list mem_mc = (\<lambda>s. Inr (mem_modules s))" "mc_list faulty_mc = (\<lambda>s. Inr (mem_modules s))"
  "mc_patch mem_mc = mem_patch_module" "mc_patch faulty_mc = mem_patch_module"
  "mc_patch_status mem_mc = mem_patch_module_status"
  "mc_patch_status faulty_mc = (\<lambda>m m'. faulty (mem_patch_module_status m m'))"
  "mc_status_equal mem_mc = (\<lambda>a b. a = b)" "mc_status_equal faulty_mc = (\<lambda>a b. a = b)"
  by (simp_all add: mem_mc_def faulty_mc_def)

lemma mem_mod_name: "mem_mod s n = Some m \<Longrightarrow> m_name m = n"
  unfolding mem_mod_def by (rule keyed_key)

lemma mem_get_module_ok: "mem_get_module n s = Inr m \<Longrightarrow> mem_mod s n = Some m \<and> m_name m = n"
  by (auto simp: mem_get_module_def dest: mem_mod_name split: option.splits)

lemma mem_tmpl_name: "mem_tmpl s n = Some mt \<Longrightarrow> mt_name mt = n"
  unfolding mem_tmpl_def by (rule keyed_key)

lemma mem_get_template_ok: "mem_get_template n s = Inr mt \<Longrightarrow> mem_tmpl s n = Some mt \<and> mt_name mt = n"
  by (auto simp: mem_get_template_def dest: mem_tmpl_name split: option.splits)

lemma mem_get_template_error:
  "mem_get_template n s = Inl e \<Longrightarrow> external e \<and> mem_is_not_found e \<and> mem_tmpl s n = None"
  by (auto simp: mem_get_template_def not_found_def mem_is_not_found_def split: option.splits)

lemma mem_view_modules [simp]: "mem_view L (s\<lparr> mem_modules := ms \<rparr>) = mem_view L s"
  by (simp add: mem_view_def fun_eq_iff)

lemma mem_patch_module_objects:
  "mem_patch_module m m' s = (q, s') \<Longrightarrow> mem_view L s' = mem_view L s"
  by (auto simp: mem_patch_module_def Let_def split: option.splits)

lemma mem_patch_module_ok:
  assumes "mem_patch_module m (m\<lparr> m_meta := (m_meta m)\<lparr> meta_finalizers := fs \<rparr> \<rparr>) s = (Inr m2, s')"
    and "mem_mod s (m_name m) = Some m"
  shows "m2 = m\<lparr> m_meta := (m_meta m)\<lparr> meta_finalizers := fs \<rparr> \<rparr>
    \<and> mem_mod s' = (mem_mod s)(m_name m :=
        (if deletion_timestamp (m_meta m) \<noteq> None \<and> fs = [] then None else Some m2))"
  using assms by (auto simp: mem_patch_module_def Let_def mem_mod_def fun_eq_iff keyed_put keyed_drop)

lemma mem_get_module_error: "mem_get_module n s = Inl e \<Longrightarrow> external e"
  by (auto simp: mem_get_module_def not_found_def split: option.splits)

lemma mem_patch_module_error:
  "mem_patch_module m m' s = (Inl e, s') \<Longrightarrow> mem_mod s (m_name m) \<noteq> Some x"
  by (auto simp: mem_patch_module_def Let_def split: option.splits)

lemma mem_patch_module_templates: "mem_patch_module m m' s = (q, s') \<Longrightarrow> mem_tmpl s' = mem_tmpl s"
  by (auto simp: mem_patch_module_def Let_def mem_tmpl_def fun_eq_iff split: option.splits)

lemma mem_patch_module_status_run:
  assumes "mem_patch_module_status m (m\<lparr> m_status := st \<rparr>) s = (r, s')"
  shows "mem_view L s' = mem_view L s"
    and "mem_mod s (m_name m) = Some m \<Longrightarrow>
      r = None \<and> mem_mod s' = (mem_mod s)(m_name m \<mapsto> m\<lparr> m_status := st \<rparr>)"
  using assms by (auto simp: mem_patch_module_status_def mem_mod_def fun_eq_iff keyed_put split: option.splits)

lemma mem_patch_module_status_objects:
  "mem_patch_module_status m m' s = (r, s') \<Longrightarrow> mem_view L s' = mem_view L s"
  by (auto simp: mem_patch_module_status_def split: option.splits)

lemma faulty_patch_module_status_objects:
  assumes "faulty (mem_patch_module_status m m') s = (r, s')"
  shows "mem_view L s' = mem_view L s"
  using assms
proof (cases rule: faulty_cases)
  case (through s1)
  then show ?thesis using mem_patch_module_status_objects [OF through(1), of L] by simp
qed simp

lemma faulty_patch_module_status_run:
  assumes "faulty (mem_patch_module_status m (m\<lparr> m_status := st \<rparr>)) s = (r, s')"
    and m: "mem_mod s (m_name m) = Some m"
  shows "(\<exists>e. r = Some e \<and> external e \<and> mem_mod s' = mem_mod s)
    \<or> (r = None \<and> mem_mod s' = (mem_mod s)(m_name m \<mapsto> m\<lparr> m_status := st \<rparr>))"
  using assms(1)
proof (cases rule: faulty_cases)
  case (through s1)
  then show ?thesis using mem_patch_module_status_run(2) [OF through(1)] m by simp
qed simp

interpretation mem_module_store:
  module_store "mem_kube L" "mem_view L" mem_default mem_mc mem_mod mem_tmpl mem_emit for L
  by (unfold_locales, unfold mem_kube_simps mc_simps)
    (blast dest: mem_get_module_ok mem_get_module_error mem_patch_module_error
      mem_patch_module_templates mem_get_template_ok mem_get_template_error
      mem_patch_module_objects mem_patch_module_status_objects mem_put_stores mem_remove_stores
      mem_patch_module_ok
    | fastforce dest: mem_patch_module_status_run(2) | simp)+

interpretation faulty_module_store:
  module_store "faulty_kube L" "mem_view L" mem_default faulty_mc mem_mod mem_tmpl mem_emit for L
  by (unfold_locales, unfold faulty_kube_simps mc_simps)
    (blast dest: mem_get_module_ok mem_get_module_error mem_patch_module_error
      mem_patch_module_templates mem_get_template_ok mem_get_template_error
      mem_patch_module_objects faulty_patch_module_status_objects faulty_put_stores
      faulty_remove_stores mem_patch_module_ok
    | fastforce dest: faulty_patch_module_status_run | simp)+

section \<open>Without faults\<close>

interpretation mem_reliable:
  reliable_workspace_store "mem_kube L" "mem_view L" mem_default mem_wc mem_ws mem_emit
    "\<lambda>kd. kd \<in> set L" for L
proof (unfold_locales, unfold mem_kube_simps wc_simps, goal_cases)
  case (1 ob f s ob')
  then show ?case by (simp add: mem_put_def)
next
  case (2 ob f s c)
  then show ?case by (simp add: mem_put_def)
next
  case (3 kd ns name s e)
  then obtain s' where "mem_remove L (kd, ns, name) s = (Some e, s')" by (metis prod.collapse)
  then show ?case
    by (cases rule: mem_remove_cases) (auto simp: mem_is_not_found_def mem_is_no_match_def)
next
  case (4 ow m)
  then show ?case using mem_set_controller_reference_taken [of ow m]
    by (cases "mem_set_controller_reference ow m") auto
next
  case (5 s n w)
  then show ?case by (simp add: mem_get_ws_def)
next
  case (6 s w w')
  then show ?case by (simp add: mem_patch_ws_status_def)
qed

interpretation mem_reliable_api: reliable_kube_api "mem_kube L" "mem_view L" mem_default
  "\<lambda>kd. kd \<in> set L" for L
  by (rule mem_reliable.reliable_kube_api_axioms)

lemma mem_tmpl_keeps:
  "mem_put L ob f s = (r, s') \<Longrightarrow> mem_tmpl s' = mem_tmpl s"
  "mem_remove L k s = (r, s') \<Longrightarrow> mem_tmpl s' = mem_tmpl s"
  "mem_patch_module_status m m' s = (r, s') \<Longrightarrow> mem_tmpl s' = mem_tmpl s"
  "mem_tmpl (mem_emit ev s) = mem_tmpl s"
  by (auto simp: mem_put_def mem_remove_def mem_patch_module_status_def mem_emit_def mem_tmpl_def
      fun_eq_iff split: if_splits sum.splits option.splits)

interpretation mem_reliable_modules:
  reliable_module_store "mem_kube L" "mem_view L" mem_default mem_mc mem_mod mem_tmpl mem_emit
    "\<lambda>kd. kd \<in> set L" for L
proof (unfold_locales, unfold mem_kube_simps mc_simps, goal_cases)
  case (1 s n m)
  then show ?case by (simp add: mem_get_module_def)
next
  case (2 s n mt)
  then show ?case by (simp add: mem_get_template_def)
next
  case (3 s m m')
  then show ?case by (simp add: mem_patch_module_def Let_def)
next
  case (4 s m m')
  then show ?case by (simp add: mem_patch_module_status_def)
next
  case (5 s)
  then show ?case by (auto simp: mem_mod_def keyed_def find_Some_iff)
next
  case (10 kd ns n s)
  then show ?case by (simp add: mem_remove_def mem_is_not_found_def)
qed (auto dest: mem_tmpl_keeps(1-3) simp: mem_tmpl_keeps(4))

end
