(* ===== verification/Workspace_Properties.thy ===== *)
theory Workspace_Properties
  imports Workspace_Samples Mem_Cluster
begin

text \<open>
  What a reconciliation of a Workspace guarantees: the children reach the desired state, only
  the Workspace's own objects are touched, foreign namespaces are left alone, a settled state
  is left alone, errors end where the controller can see them, and the status says what is
  there. The theorems hold for every client that keeps the laws of \<open>workspace_store\<close>; the
  witnesses run them on the cluster in memory.
\<close>

section \<open>A sample cluster\<close>

definition all_kinds :: "kind list" where
  "all_kinds = Enum.enum"

definition team_cluster :: mem where
  "team_cluster =
     \<lparr> mem_objects = [], mem_workspaces = [team], mem_modules = [], mem_templates = [],
       mem_faults = [], mem_clock = 5, mem_events = [] \<rparr>"

definition mem_rec :: "mem reconciler" where
  "mem_rec = \<lparr> rec_version = ''v1'', rec_recorder = Some mem_emit \<rparr>"

lemma mem_rec_simps [simp]: "rec_recorder mem_rec = Some mem_emit" "rec_version mem_rec = ''v1''"
  by (simp_all add: mem_rec_def)

lemma all_kinds_all [simp]: "kd \<in> set all_kinds"
  by (simp add: all_kinds_def enum_UNIV)

lemma team_cluster_simps [simp]:
  "mem_view L team_cluster = (\<lambda>k. None)" "mem_ws team_cluster ''team'' = Some team"
  "mem_get_ws ''team'' team_cluster = Inr team"
  by (auto simp: team_cluster_def mem_view_def mem_ws_def mem_get_ws_def keyed_def)

lemma team_unobstructed: "unobstructed team (mem_view L team_cluster)"
  by (simp add: unobstructed_def clear_for_def)

text \<open>The sample reconciliation, with the state it ends in.\<close>

lemma team_reconciled:
  "\<exists>s'. Reconcile (mem_kube all_kinds) mem_wc mem_rec istio istio ''team'' team_cluster = (Returns None, s')
     \<and> workspace_ready (mem_kube all_kinds) mem_default team ''v1'' istio (mem_view all_kinds s')
     \<and> mem_ws s' ''team'' = Some (team\<lparr> w_status := updated_status (mem_kube all_kinds) team istio \<rparr>)"
  using mem_reliable.reconcile_succeeds [of mem_rec team_cluster "''team''" team all_kinds istio istio]
    team_unobstructed
  by simp

lemma team_reconciles:
  obtains s' where
    "Reconcile (mem_kube all_kinds) mem_wc mem_rec istio istio ''team'' team_cluster = (Returns None, s')"
  using team_reconciled by blast

section \<open>Refinement of the desired state\<close>

context workspace_store
begin

lemma resources_conflict:
  assumes "reconcileResources K w version istio s = (Some err, s')"
    and "as_NamespaceConflictError err \<noteq> None"
  shows "view s' = view s \<and> (\<exists>x. view s (namespace_key w) = Some x \<and> foreign_namespace w x)"
proof -
  have ns: "ReconcileNamespace K w version istio s = (Some err, s')"
    using resources_error [OF assms(1)] assms(2) external_not_conflict by auto
  from assms(2) obtain n where "as_NamespaceConflictError err = Some n" by blast
  from namespace_conflict_only_foreign [OF ns this] obtain x
    where "view s (namespace_key w) = Some x" "foreign_namespace w x" by blast
  with namespace_refused(1) [OF this ns] show ?thesis by blast
qed

lemma reconcile_refines:
  assumes rec: "rec_recorder R = Some emit" and w: "wc_get W name s = Inr w"
    and run: "Reconcile K W R istio1 istio2 name s = (Returns None, s')"
  shows "(workspace_ready K dflt w (rec_version R) istio1 (view s')
        \<and> ws_view s' name = Some (w\<lparr> w_status := updated_status K w istio2 \<rparr>))
    \<or> (view s' = view s
        \<and> (\<exists>x. view s (namespace_key w) = Some x \<and> foreign_namespace w x))"
  using run w
proof (cases rule: reconcile_cases)
  case (synced t)
  have name: "w_name w = name" and "ws_view s name = Some w" using ws_get_ok [OF w] by auto
  then have t: "ws_view t (w_name w) = Some w" using resources_workspaces [OF synced(1)] by simp
  from resources.step_goal [OF synced(1)] update_status_objects [OF rec synced(2)]
    update_status_ok [OF rec t synced(2)] name
  show ?thesis by simp
next
  case (failed err t)
  have "as_NamespaceConflictError err \<noteq> None"
    using handle_error_cases(1) [OF rec failed(2)] by (auto split: if_splits)
  with resources_conflict [OF failed(1)] handle_error_cases(2) [OF rec failed(2)]
  show ?thesis by simp
qed

end

text \<open>
  C1: Refinement. When a reconciliation of a stored Workspace returns without an error, every
  child object conforms to the table of desired children (and the stored status is the one
  computed for it); the only other way to return without an error is a reported conflict over
  a namespace that the Workspace does not own, and then nothing was written to any child.
\<close>

theorem reconcile_refines_desired:
  assumes "workspace_store K view dflt W ws_view emit" and "rec_recorder R = Some emit"
    and "wc_get W name s = Inr w"
    and "Reconcile K W R istio1 istio2 name s = (Returns None, s')"
  shows "(workspace_ready K dflt w (rec_version R) istio1 (view s')
        \<and> ws_view s' name = Some (w\<lparr> w_status := updated_status K w istio2 \<rparr>))
    \<or> (view s' = view s
        \<and> (\<exists>x. view s (namespace_key w) = Some x \<and> foreign_namespace w x))"
  by (rule workspace_store.reconcile_refines [OF assms])

theorem reconcile_refines_desired_witness:
  "\<exists>s'. Reconcile (mem_kube all_kinds) mem_wc mem_rec True True ''team'' team_cluster = (Returns None, s')
     \<and> workspace_ready (mem_kube all_kinds) mem_default team ''v1'' True (mem_view all_kinds s')"
proof -
  obtain s' where run:
    "Reconcile (mem_kube all_kinds) mem_wc mem_rec True True ''team'' team_cluster = (Returns None, s')"
    by (rule team_reconciles)
  from reconcile_refines_desired [OF mem_workspace_store.workspace_store_axioms _ _ run]
  show ?thesis using run by simp
qed

section \<open>Liveness\<close>

text \<open>
  C2: Convergence. When the cluster serves the kinds, no write fails on the way and no object
  stands in the way (a foreign namespace, or a child another object controls), one
  reconciliation of a stored Workspace returns without an error, brings every child to its
  desired state and stores the status.
\<close>

theorem reconcile_converges:
  assumes "reliable_workspace_store K view dflt W ws_view emit served"
    and "rec_recorder R = Some emit" and "ws_view s name = Some w" and "w_name w = name"
    and "\<forall>kd \<in> core_kinds. served kd" and "istio \<Longrightarrow> \<forall>kd \<in> istio_kinds. served kd"
    and "unobstructed w (view s)"
  shows "\<exists>s'. Reconcile K W R istio istio2 name s = (Returns None, s')
    \<and> workspace_ready K dflt w (rec_version R) istio (view s')
    \<and> ws_view s' name = Some (w\<lparr> w_status := updated_status K w istio2 \<rparr>)"
  by (rule reliable_workspace_store.reconcile_succeeds [OF assms(1-5) _ assms(7)]) (rule assms(6))

theorem reconcile_converges_witness:
  "\<exists>s'. Reconcile (mem_kube all_kinds) mem_wc mem_rec False False ''team'' team_cluster = (Returns None, s')
     \<and> workspace_ready (mem_kube all_kinds) mem_default team ''v1'' False (mem_view all_kinds s')"
  using reconcile_converges [OF mem_reliable.reliable_workspace_store_axioms, of mem_rec team_cluster
      "''team''" team all_kinds False False] team_unobstructed
  by auto

section \<open>Safety\<close>

text \<open>
  Frame. A reconciliation, however it ends, changes no object but the namespace and the
  named children of its own Workspace.
\<close>

theorem reconcile_frame_objects:
  assumes "workspace_store K view dflt W ws_view emit" and "rec_recorder R = Some emit"
    and "Reconcile K W R istio1 istio2 name s = (out, s')" and "wc_get W name s = Inr w"
  shows "view s' |` (- workspace_keys w) = view s |` (- workspace_keys w)"
  using workspace_store.reconcile_frame [OF assms] by (auto simp: restrict_map_def fun_eq_iff)

theorem reconcile_frame_objects_witness:
  "\<exists>s'. Reconcile (mem_kube all_kinds) mem_wc mem_rec True True ''team'' team_cluster = (Returns None, s')
     \<and> mem_view all_kinds s' |` (- workspace_keys team) = Map.empty"
proof -
  obtain s' where run:
    "Reconcile (mem_kube all_kinds) mem_wc mem_rec True True ''team'' team_cluster = (Returns None, s')"
    by (rule team_reconciles)
  from reconcile_frame_objects [OF mem_workspace_store.workspace_store_axioms _ run, of team]
  show ?thesis using run by (simp add: restrict_map_def)
qed

context workspace_store
begin

lemma reconcile_keeps_others:
  assumes rec: "rec_recorder R = Some emit" and w: "wc_get W name s = Inr w"
    and run: "Reconcile K W R istio1 istio2 name s = (out, s')"
    and other: "w_namespace w' \<noteq> w_namespace w"
    and ready: "workspace_ready K dflt w' version istio (view s)"
  shows "workspace_ready K dflt w' version istio (view s')"
proof (rule resources.goal_local [OF _ ready])
  fix k
  assume "k \<in> workspace_keys w'"
  then have "k \<notin> workspace_keys w" using workspace_keys_disjoint [OF other] by blast
  then show "view s' k = view s k" by (rule reconcile_frame [OF rec run w])
qed

end

text \<open>
  Non-interference. A reconciliation of one Workspace, however it ends, never disturbs a
  Workspace with another namespace whose children are in their desired state.
\<close>

theorem reconcile_isolated:
  assumes "workspace_store K view dflt W ws_view emit" and "rec_recorder R = Some emit"
    and "wc_get W name s = Inr w"
    and "Reconcile K W R istio1 istio2 name s = (out, s')"
    and "w_namespace w' \<noteq> w_namespace w"
    and "workspace_ready K dflt w' version istio (view s)"
  shows "workspace_ready K dflt w' version istio (view s')"
  by (rule workspace_store.reconcile_keeps_others [OF assms])

definition other_team :: workspace where
  "other_team = team\<lparr> w_meta := team_meta\<lparr> meta_name := ''other'', meta_uid := ''uid-other'' \<rparr>,
     w_spec := team_spec\<lparr> ws_namespace := ''team-z'' \<rparr> \<rparr>"

lemma other_team_get [simp]:
  "mem_get_ws ''other'' (s\<lparr> mem_workspaces := [other_team] \<rparr>) = Inr other_team"
  by (simp add: mem_get_ws_def mem_ws_def keyed_def other_team_def)

lemma mem_view_workspaces [simp]: "mem_view L (s\<lparr> mem_workspaces := ws \<rparr>) = mem_view L s"
  by (simp add: mem_view_def fun_eq_iff)

theorem reconcile_isolated_witness:
  "\<exists>s out s'. Reconcile (mem_kube all_kinds) mem_wc mem_rec True True ''other'' s = (out, s')
     \<and> workspace_ready (mem_kube all_kinds) mem_default team ''v1'' True (mem_view all_kinds s')"
proof -
  obtain s1 where
    ready: "workspace_ready (mem_kube all_kinds) mem_default team ''v1'' True (mem_view all_kinds s1)"
    using team_reconciled [of True] by blast
  let ?s = "s1\<lparr> mem_workspaces := [other_team] \<rparr>"
  obtain out s' where run:
    "Reconcile (mem_kube all_kinds) mem_wc mem_rec True True ''other'' ?s = (out, s')" by force
  have "w_namespace team \<noteq> w_namespace other_team" by (simp add: other_team_def)
  from reconcile_isolated [OF mem_workspace_store.workspace_store_axioms _ _ run this, of "''v1''" True]
    ready run
  show ?thesis by auto
qed

subsection \<open>Foreign namespaces\<close>

context workspace_store
begin

lemma reconcile_foreign:
  assumes rec: "rec_recorder R = Some emit" and w: "wc_get W name s = Inr w"
    and run: "Reconcile K W R istio1 istio2 name s = (out, s')"
    and x: "view s (namespace_key w) = Some x" "foreign_namespace w x"
  shows "view s' = view s"
    and "ws_view s' = ws_view s \<or> (\<exists>c st. ws_view s' = (ws_view s)(name \<mapsto> w\<lparr> w_status := st \<rparr>)
      \<and> ready_of (st_conditions st) = Some c \<and> cond_status c = ConditionFalse)"
proof -
  obtain e t where ns: "ReconcileNamespace K w (rec_version R) istio1 s = (Some e, t)"
    and t: "view t = view s"
    using namespace_refused [OF x] by (metis prod.collapse)
  have res: "reconcileResources K w (rec_version R) istio1 s = (Some e, t)"
    unfolding reconcileResources_def by (rule then_ok_first_error) (rule ns)
  have handle: "handleReconcileError K W R w e t = (out, s')"
    using run w res by (simp add: Reconcile_def)
  show "view s' = view s" using handle_error_cases(2) [OF rec handle] t by simp
  have name: "w_name w = name" and "ws_view s name = Some w" using ws_get_ok [OF w] by auto
  then have "ws_view t (w_name w) = Some w" and same: "ws_view t = ws_view s"
    using resources_workspaces [OF res] by simp_all
  from handle_error_cases(3) [OF rec handle this(1)]
  show "ws_view s' = ws_view s \<or> (\<exists>c st. ws_view s' = (ws_view s)(name \<mapsto> w\<lparr> w_status := st \<rparr>)
      \<and> ready_of (st_conditions st) = Some c \<and> cond_status c = ConditionFalse)"
    using name same ready_false_status_ready [of w _ "error_text e"] by metis
qed

end

text \<open>
  C4: No take-over. When the namespace a Workspace asks for exists without being owned by the
  Workspace, a reconciliation changes no object at all, and the Workspace is either left as it
  was or its stored Ready condition is False.
\<close>

theorem foreign_namespace_untouched:
  assumes "workspace_store K view dflt W ws_view emit" and "rec_recorder R = Some emit"
    and "wc_get W name s = Inr w"
    and "Reconcile K W R istio1 istio2 name s = (out, s')"
    and "view s (namespace_key w) = Some x" and "foreign_namespace w x"
  shows "view s' = view s
    \<and> (ws_view s' = ws_view s \<or> (\<exists>c st. ws_view s' = (ws_view s)(name \<mapsto> w\<lparr> w_status := st \<rparr>)
        \<and> ready_of (st_conditions st) = Some c \<and> cond_status c = ConditionFalse))"
  using workspace_store.reconcile_foreign [OF assms] by blast

text \<open>The sample cluster with a namespace of that name that an administrator created by hand.\<close>

definition handmade_namespace :: kobject where
  "handmade_namespace =
     (new_object NamespaceKind '''' ''team-a'')\<lparr> obj_meta :=
        (object_meta_named '''' ''team-a'')\<lparr> creation_timestamp := Some 1 \<rparr> \<rparr>"

definition occupied_cluster :: mem where
  "occupied_cluster = team_cluster\<lparr> mem_objects := [handmade_namespace] \<rparr>"

lemma occupied_simps [simp]:
  "mem_view all_kinds occupied_cluster (NamespaceKind, '''', ''team-a'') = Some handmade_namespace"
  "mem_get_ws ''team'' occupied_cluster = Inr team"
  "foreign_namespace team handmade_namespace"
  by (simp_all add: occupied_cluster_def team_cluster_def mem_view_def keyed_def handmade_namespace_def
      key_of_def mem_get_ws_def mem_ws_def foreign_namespace_def)

theorem foreign_namespace_untouched_witness:
  "\<exists>out s'. Reconcile (mem_kube all_kinds) mem_wc mem_rec True True ''team'' occupied_cluster = (out, s')
     \<and> mem_view all_kinds s' = mem_view all_kinds occupied_cluster"
proof -
  obtain out s' where run:
    "Reconcile (mem_kube all_kinds) mem_wc mem_rec True True ''team'' occupied_cluster = (out, s')"
    by force
  from foreign_namespace_untouched [OF mem_workspace_store.workspace_store_axioms _ _ run,
      of team handmade_namespace] run
  show ?thesis by (auto simp: namespace_key_def)
qed

section \<open>Idempotence\<close>

context workspace_store
begin

lemma reconcile_again:
  assumes rec: "rec_recorder R = Some emit"
    and w: "ws_view s name = Some (w\<lparr> w_status := updated_status K w istio \<rparr>)"
    and ready: "workspace_ready K dflt w (rec_version R) istio (view s)"
    and run: "Reconcile K W R istio istio name s = (Returns None, s')"
    and got: "wc_get W name s = Inr w1"
  shows "view s' = view s \<and> ws_view s' = ws_view s"
proof -
  have w1: "w1 = w\<lparr> w_status := updated_status K w istio \<rparr>" using ws_get_ok [OF got] w by simp
  have ready1: "workspace_ready K dflt w1 (rec_version R) istio (view s)"
    using ready by (simp add: w1 workspace_ready_status)
  have status: "updated_status K w1 istio = w_status w1" by (simp add: w1 updated_status_again)
  from run got show ?thesis
  proof (cases rule: reconcile_cases)
    case (synced t)
    have "view t = view s" using resources_quiet ready1 synced(1) by (rule quiet_onD)
    moreover have "s' = t" using synced(2) status by (simp add: updateStatus_def ws_status_equal)
    ultimately show ?thesis using resources_workspaces [OF synced(1)] by simp
  next
    case (failed err t)
    have conflict: "as_NamespaceConflictError err \<noteq> None"
      using handle_error_cases(1) [OF rec failed(2)] by (auto split: if_splits)
    from resources_conflict [OF failed(1) this] obtain x
      where "view s (namespace_key w1) = Some x" "foreign_namespace w1 x" by blast
    with ready1 have False
      by (auto simp: workspace_ready_def namespace_ready_def foreign_namespace_def settled_owner_def
          dest: controlled_by_IsOwned)
    then show ?thesis ..
  qed
qed

end

context workspace_store
begin

lemma reconcile_twice:
  assumes rec: "rec_recorder R = Some emit" and w: "wc_get W name s = Inr w"
    and free: "\<And>x. view s (namespace_key w) = Some x \<Longrightarrow> \<not> foreign_namespace w x"
    and run1: "Reconcile K W R istio istio name s = (Returns None, s1)"
    and run2: "Reconcile K W R istio istio name s1 = (Returns None, s2)"
  shows "view s2 = view s1 \<and> ws_view s2 = ws_view s1"
proof -
  have ready: "workspace_ready K dflt w (rec_version R) istio (view s1)"
    and stored: "ws_view s1 name = Some (w\<lparr> w_status := updated_status K w istio \<rparr>)"
    using reconcile_refines [OF rec w run1] free by auto
  show ?thesis
  proof (cases "wc_get W name s1")
    case (Inl e)
    with reconcile_missing [OF run2] show ?thesis by simp
  next
    case (Inr w1)
    from reconcile_again [OF rec stored ready run2 this] show ?thesis .
  qed
qed

end

text \<open>
  C20: Idempotence. A second successful reconciliation with the same Istio flag changes no
  object and no stored Workspace: the reconciler does not fight with its own writes.
\<close>

theorem reconcile_idempotent:
  assumes "workspace_store K view dflt W ws_view emit" and "rec_recorder R = Some emit"
    and "wc_get W name s = Inr w"
    and "\<And>x. view s (namespace_key w) = Some x \<Longrightarrow> \<not> foreign_namespace w x"
    and "Reconcile K W R istio istio name s = (Returns None, s1)"
    and "Reconcile K W R istio istio name s1 = (Returns None, s2)"
  shows "view s2 = view s1 \<and> ws_view s2 = ws_view s1"
  by (rule workspace_store.reconcile_twice [OF assms(1-3) _ assms(5,6)]) (rule assms(4))

definition team_run :: "bool \<Rightarrow> mem \<Rightarrow> go_error option go_result \<times> mem" where
  "team_run istio = Reconcile (mem_kube all_kinds) mem_wc mem_rec istio istio ''team''"

lemma team_run_ok:
  "fst (team_run True team_cluster) = Returns None"
  "fst (team_run True (snd (team_run True team_cluster))) = Returns None"
  by code_simp+

lemma team_runs:
  "Reconcile (mem_kube all_kinds) mem_wc mem_rec True True ''team'' team_cluster =
     (Returns None, snd (team_run True team_cluster))"
  "Reconcile (mem_kube all_kinds) mem_wc mem_rec True True ''team'' (snd (team_run True team_cluster)) =
     (Returns None, snd (team_run True (snd (team_run True team_cluster))))"
  using team_run_ok by (metis prod.collapse team_run_def)+

theorem reconcile_idempotent_witness:
  "mem_view all_kinds (snd (team_run True (snd (team_run True team_cluster)))) =
     mem_view all_kinds (snd (team_run True team_cluster))"
  using reconcile_idempotent [OF mem_workspace_store.workspace_store_axioms _ _ _ team_runs, of team]
  by simp

section \<open>Errors\<close>

context workspace_store
begin

lemma reconcile_failed:
  assumes rec: "rec_recorder R = Some emit" and w: "wc_get W name s = Inr w"
    and run: "Reconcile K W R istio1 istio2 name s = (out, s')"
    and err: "reconcileResources K w (rec_version R) istio1 s = (Some err, t)"
  shows "out = Returns (if as_NamespaceConflictError err \<noteq> None then None else Some err)
    \<and> view s' = view t
    \<and> (ws_view s' = ws_view s
       \<or> ws_view s' = (ws_view s)(name \<mapsto> w\<lparr> w_status := ready_false_status K w
          (if as_NamespaceConflictError err \<noteq> None then ''NamespaceConflict'' else ''ReconcileError'')
          (error_text err) \<rparr>))"
proof -
  have handle: "handleReconcileError K W R w err t = (out, s')"
    using run w err by (simp add: Reconcile_def)
  have name: "w_name w = name" and "ws_view s name = Some w" using ws_get_ok [OF w] by auto
  then have t: "ws_view t (w_name w) = Some w" and same: "ws_view t = ws_view s"
    using resources_workspaces [OF err] by simp_all
  from handle_error_cases(1,2) [OF rec handle] handle_error_cases(3) [OF rec handle t] name same
  show ?thesis by simp
qed

lemma reconcile_honest:
  assumes rec: "rec_recorder R = Some emit" and w: "wc_get W name s = Inr w"
    and run: "Reconcile K W R istio1 istio2 name s = (out, s')"
    and w': "ws_view s' name = Some w'" "w' \<noteq> w"
    and c: "ready_of (st_conditions (w_status w')) = Some c" "cond_status c = ConditionTrue"
  shows "workspace_ready K dflt w (rec_version R) istio1 (view s')"
  using run w
proof (cases rule: reconcile_cases)
  case (synced t)
  from resources.step_goal [OF synced(1)] update_status_objects [OF rec synced(2)]
  show ?thesis by simp
next
  case (failed err t)
  have "ws_view s name = Some w" using ws_get_ok [OF w] by simp
  with reconcile_failed [OF rec w run failed(1)] w'
  obtain reason where "w' = w\<lparr> w_status := ready_false_status K w reason (error_text err) \<rparr>" by auto
  with ready_false_status_ready [of w reason "error_text err"] c have False by auto
  then show ?thesis ..
qed

end

text \<open>
  C32: Errors are reported. When the children cannot be reconciled, the objects stay as the
  failing step left them, the error is returned so that the request is retried (a namespace
  conflict alone is not), and the Workspace is either left as it was or stored with Ready
  False, the reason and the text of the error.
\<close>

theorem reconcile_error_reported:
  assumes "workspace_store K view dflt W ws_view emit" and "rec_recorder R = Some emit"
    and "wc_get W name s = Inr w"
    and "Reconcile K W R istio1 istio2 name s = (out, s')"
    and "reconcileResources K w (rec_version R) istio1 s = (Some err, t)"
  shows "out = Returns (if as_NamespaceConflictError err \<noteq> None then None else Some err)
    \<and> view s' = view t
    \<and> (ws_view s' = ws_view s
       \<or> ws_view s' = (ws_view s)(name \<mapsto> w\<lparr> w_status := ready_false_status K w
          (if as_NamespaceConflictError err \<noteq> None then ''NamespaceConflict'' else ''ReconcileError'')
          (error_text err) \<rparr>))"
  by (rule workspace_store.reconcile_failed [OF assms])

text \<open>A cluster whose third write fails.\<close>

definition broken_cluster :: mem where
  "broken_cluster = team_cluster\<lparr> mem_faults := [None, None, Some ''etcd is down''] \<rparr>"

definition broken_step :: "go_error option \<times> mem" where
  "broken_step = reconcileResources (faulty_kube all_kinds) team ''v1'' True broken_cluster"

lemma broken_step_error: "fst broken_step = Some (ExternalError ''fault'' ''etcd is down'')"
  by code_simp

lemma broken_cluster_get [simp]: "mem_get_ws ''team'' broken_cluster = Inr team"
  by (simp add: broken_cluster_def team_cluster_def mem_get_ws_def mem_ws_def keyed_def)

theorem reconcile_error_reported_witness:
  "fst (Reconcile (faulty_kube all_kinds) faulty_wc mem_rec True True ''team'' broken_cluster) =
     Returns (Some (ExternalError ''fault'' ''etcd is down''))"
proof -
  have err: "reconcileResources (faulty_kube all_kinds) team (rec_version mem_rec) True broken_cluster =
      (Some (ExternalError ''fault'' ''etcd is down''), snd broken_step)"
    using broken_step_error by (simp add: broken_step_def prod_eq_iff)
  obtain out s' where run:
    "Reconcile (faulty_kube all_kinds) faulty_wc mem_rec True True ''team'' broken_cluster = (out, s')"
    by force
  from reconcile_error_reported [OF faulty_workspace_store.workspace_store_axioms _ _ run err] run
  show ?thesis by simp
qed

text \<open>
  C22: The status is honest. If a reconciliation, however it ends, leaves the stored Workspace
  with a changed status whose Ready condition is True, then every child conforms to its desired
  state.
\<close>

theorem ready_status_honest:
  assumes "workspace_store K view dflt W ws_view emit" and "rec_recorder R = Some emit"
    and "wc_get W name s = Inr w"
    and "Reconcile K W R istio1 istio2 name s = (out, s')"
    and "ws_view s' name = Some w'" and "w' \<noteq> w"
    and "ready_of (st_conditions (w_status w')) = Some c" and "cond_status c = ConditionTrue"
  shows "workspace_ready K dflt w (rec_version R) istio1 (view s')"
  by (rule workspace_store.reconcile_honest [OF assms])

lemma team_stored:
  "mem_ws (snd (team_run True team_cluster)) ''team'' =
     Some (team\<lparr> w_status := updated_status (mem_kube all_kinds) team True \<rparr>)"
  using team_reconciled [of True] team_runs(1) by simp

theorem ready_status_honest_witness:
  "workspace_ready (mem_kube all_kinds) mem_default team ''v1'' True
     (mem_view all_kinds (snd (team_run True team_cluster)))"
proof -
  let ?w = "team\<lparr> w_status := updated_status (mem_kube all_kinds) team True \<rparr>"
  obtain c where c: "ready_of (st_conditions (w_status ?w)) = Some c" "cond_status c = ConditionTrue"
    using mem_workspace_store.updated_status_ready [of all_kinds team True] by auto
  have "w_status ?w \<noteq> w_status team"
    by (simp add: updated_status_def Let_def empty_status_def)
  then have "?w \<noteq> team" by metis
  from ready_status_honest [OF mem_workspace_store.workspace_store_axioms _ _ team_runs(1) team_stored this c]
  show ?thesis by simp
qed

definition silent_cluster :: mem where
  "silent_cluster = occupied_cluster\<lparr> mem_faults := [None, Some ''etcd is down''] \<rparr>"

text \<open>
  A conflict can go unreported. There is a cluster in which the namespace is occupied and
  the status patch fails, where the reconciliation returns no error (so it is not retried) and
  the stored Workspace does not mention the conflict.
\<close>

theorem conflict_can_go_unreported:
  "foreign_namespace team handmade_namespace
   \<and> fst (Reconcile (faulty_kube all_kinds) faulty_wc mem_rec False False ''team'' silent_cluster) =
       Returns None
   \<and> map_option w_status (mem_ws (snd (Reconcile (faulty_kube all_kinds) faulty_wc mem_rec False False
       ''team'' silent_cluster)) ''team'') = Some empty_status"
  by (intro conjI occupied_simps; code_simp)

end
