(* ===== verification/Workspace_Outcomes.thy ===== *)
theory Workspace_Outcomes
  imports Workspace_Properties
begin

text \<open>
  What the desired state of a Workspace means for its users: which references the status
  shows, who is granted which role, which isolation back end is active, and which labels the
  namespace carries.
\<close>

section \<open>The references of the status\<close>

definition ref_key :: "kind \<Rightarrow> resource_reference \<Rightarrow> key" where
  "ref_key kd r = (kd, rr_namespace r, rr_name r)"

definition status_keys :: "workspace_status \<Rightarrow> key list" where
  "status_keys st =
     (let opt = (\<lambda>kd r. case r of None \<Rightarrow> [] | Some x \<Rightarrow> [ref_key kd x])
      in opt NamespaceKind (st_namespace_ref st)
         @ map (ref_key RoleBindingKind) (st_role_binding_refs st)
         @ opt ResourceQuotaKind (st_resource_quota_ref st)
         @ opt LimitRangeKind (st_limit_range_ref st)
         @ opt NetworkPolicyKind (st_network_policy_ref st)
         @ opt PeerAuthenticationKind (st_peer_authentication_ref st)
         @ opt AuthorizationPolicyKind (st_authorization_policy_ref st))"

lemma role_in_use_iff: "role_in_use ms role \<longleftrightarrow> role \<in> wm_role ` set ms"
proof -
  have "fold (\<lambda>m f. f(wm_role m := True)) ms f role \<longleftrightarrow> f role \<or> role \<in> wm_role ` set ms" for f
    by (induction ms arbitrary: f) auto
  then show ?thesis by (simp add: role_in_use_def)
qed

lemma desired_role_binding_present:
  "desired_role_binding w role \<noteq> MustBeAbsent \<longleftrightarrow> role_in_use (w_members w) role"
proof -
  have "desired_role_binding w role \<noteq> MustBeAbsent \<longleftrightarrow> filter (\<lambda>m. wm_role m = role) (w_members w) \<noteq> []"
    by (simp add: desired_role_binding_def split: list.split)
  then show ?thesis by (auto simp: role_in_use_iff filter_empty_conv)
qed

lemma role_binding_refs_keys:
  "map (ref_key RoleBindingKind) (role_binding_refs w roles) =
     map fst (filter (\<lambda>(k, d). d \<noteq> MustBeAbsent)
       (map (\<lambda>role. (role_binding_key w role, desired_role_binding w role)) roles))"
proof (induction roles)
  case (Cons role roles)
  then show ?case
    using desired_role_binding_present [of w role]
    by (simp add: ref_key_def role_binding_key_def role_binding_name_def)
qed simp

text \<open>
  The references in the status of a successful reconciliation are exactly the namespace and
  the children that the Workspace should have, in order: none is missing, and none points to an
  object that the reconciler deletes.
\<close>

theorem status_refs_exact:
  "status_keys (updated_status K w istio) =
     namespace_key w # map fst (filter (\<lambda>(k, d). d \<noteq> MustBeAbsent) (desired_children w istio))"
proof -
  let ?rest = "[(quota_key w, desired_quota w), (limits_key w, desired_limits w),
        (network_policy_key w, desired_network_policy w istio),
        (peer_authentication_key w, desired_peer_authentication w istio),
        (authorization_policy_key w, desired_authorization_policy w istio)]"
  have "status_keys (updated_status K w istio) =
      namespace_key w # map (ref_key RoleBindingKind) (role_binding_refs w orderedRoles)
      @ map fst (filter (\<lambda>(k, d). d \<noteq> MustBeAbsent) ?rest)"
    by (simp add: status_keys_def updated_status_def Let_def ref_key_def child_ref_def
        namespace_key_def quota_key_def limits_key_def network_policy_key_def
        peer_authentication_key_def authorization_policy_key_def desired_quota_def
        desired_limits_def desired_network_policy_def desired_peer_authentication_def
        desired_authorization_policy_def split: option.split)
  then show ?thesis by (simp add: role_binding_refs_keys desired_children_def)
qed

section \<open>Isolation\<close>

text \<open>
  At most one isolation back end. After the children of a Workspace have been reconciled,
  the NetworkPolicy and the Istio policies are never active together, and none of them is when
  isolation is off; with isolation on, the policies of the back end that the Istio flag selects
  are stored as the Workspace asks.
\<close>

theorem isolation_exclusive:
  assumes "kube_api K view dflt"
    and "reconcileResources K w version istio s = (None, s')"
  shows "(gone_or_terminating (view s') (network_policy_key w)
      \<or> (gone_or_terminating (view s') (peer_authentication_key w) \<and> gone_or_terminating (view s') (authorization_policy_key w)))
    \<and> (w_isolated w
      \<or> (gone_or_terminating (view s') (network_policy_key w) \<and> gone_or_terminating (view s') (peer_authentication_key w)
         \<and> gone_or_terminating (view s') (authorization_policy_key w)))
    \<and> (if \<not> w_isolated w then True
       else if istio then
         map_option obj_spec (view s' (authorization_policy_key w)) =
           Some (dflt (AuthorizationPolicySpec (authorization_policy_for w)))
         \<and> map_option obj_spec (view s' (peer_authentication_key w)) =
           Some (dflt (PeerAuthenticationSpec peer_authentication_for))
       else map_option obj_spec (view s' (network_policy_key w)) =
           Some (dflt (NetworkPolicySpec (network_policy_for w))))"
proof -
  have "network_isolated K dflt w version istio (view s')"
    using reconcile_step.step_goal [OF kube_api.resources_step [OF assms(1)] assms(2)]
    by (simp add: workspace_ready_split)
  then show ?thesis
    by (auto simp: network_isolated_def desired_network_policy_def desired_peer_authentication_def
        desired_authorization_policy_def conforms_absent_iff conforms_exists_iff split: if_splits)
qed

definition team_resources :: "go_error option \<times> mem" where
  "team_resources = reconcileResources (mem_kube all_kinds) team ''v1'' True team_cluster"

lemma team_resources_ok:
  "reconcileResources (mem_kube all_kinds) team ''v1'' True team_cluster = (None, snd team_resources)"
proof -
  have "fst team_resources = None" by code_simp
  then show ?thesis by (simp add: team_resources_def prod_eq_iff)
qed

theorem isolation_exclusive_witness:
  "map_option obj_spec (mem_view all_kinds (snd team_resources) (authorization_policy_key team)) =
     Some (mem_default (AuthorizationPolicySpec (authorization_policy_for team)))"
  using isolation_exclusive [OF mem_api.kube_api_axioms team_resources_ok] by simp

section \<open>Roles\<close>

text \<open>
  What a RoleBinding object gives a user: the ClusterRole of the given name, when the user is
  among its subjects.
\<close>

definition binding_grants :: "kobject option \<Rightarrow> member_role \<Rightarrow> string \<Rightarrow> bool" where
  "binding_grants x role u \<longleftrightarrow>
     (case x of None \<Rightarrow> False
      | Some ob \<Rightarrow>
          (case obj_spec ob of
             RoleBindingSpec subs ref \<Rightarrow>
               role_ref_kind ref = ''ClusterRole'' \<and> role_ref_name ref = role
               \<and> list_ex (\<lambda>sub. subject_kind sub = ''User'' \<and> subject_name sub = u) subs
           | _ \<Rightarrow> False))"

text \<open>
  The API server fills in the API groups that a RoleBinding leaves empty, and nothing else; the
  operator sets them all.
\<close>

definition groups_set :: "rbac_subject list \<Rightarrow> role_ref \<Rightarrow> bool" where
  "groups_set subs ref \<longleftrightarrow> role_ref_api_group ref \<noteq> '''' \<and> list_all (\<lambda>sub. subject_api_group sub \<noteq> '''') subs"

lemma member_groups_set: "groups_set (map member_subject ms) (cluster_role_ref role)"
  by (simp add: groups_set_def cluster_role_ref_def member_subject_def list_all_iff)

lemma desired_role_binding_grants:
  assumes "conforms K dflt w version (desired_role_binding w role) x"
    and "\<And>subs ref. groups_set subs ref \<Longrightarrow> dflt (RoleBindingSpec subs ref) = RoleBindingSpec subs ref"
  shows "if role_in_use (w_members w) role
    then binding_grants x role u \<longleftrightarrow>
      (\<exists>m \<in> set (w_members w). wm_subject m = u \<and> wm_role m = role)
    else (case x of None \<Rightarrow> True | Some ob \<Rightarrow> deletion_timestamp (obj_meta ob) \<noteq> None)"
proof (cases "filter (\<lambda>m. wm_role m = role) (w_members w)")
  case Nil
  then have "desired_role_binding w role = MustBeAbsent" by (simp add: desired_role_binding_def)
  with assms(1) desired_role_binding_present [of w role] show ?thesis
    by (simp add: conforms_def)
next
  case (Cons m ms)
  then have d: "desired_role_binding w role = MustExist (RoleBindingSpec
      (map member_subject (filter (\<lambda>m. wm_role m = role) (w_members w))) (cluster_role_ref role))"
    by (simp add: desired_role_binding_def)
  with assms obtain ob where "x = Some ob" "obj_spec ob = RoleBindingSpec
      (map member_subject (filter (\<lambda>m. wm_role m = role) (w_members w))) (cluster_role_ref role)"
    using member_groups_set by (auto simp: conforms_exists_iff)
  then have "binding_grants x role u \<longleftrightarrow>
      (\<exists>m \<in> set (w_members w). wm_subject m = u \<and> wm_role m = role)"
    by (auto simp: binding_grants_def cluster_role_ref_def member_subject_def list_ex_iff)
  with d desired_role_binding_present [of w role] show ?thesis by simp
qed

text \<open>
  C23: Exact grants. After the children of a Workspace have been reconciled, the RoleBinding of
  a role that is in use grants the ClusterRole of that name to a user exactly when the user is
  a member with that role, and the RoleBinding of a role that nobody has is absent or
  terminating. (The API server keeps RoleBinding specs whose API groups are set as they are.)
\<close>

theorem role_bindings_exact:
  assumes "kube_api K view dflt"
    and "\<And>subs ref. groups_set subs ref \<Longrightarrow> dflt (RoleBindingSpec subs ref) = RoleBindingSpec subs ref"
    and "reconcileResources K w version istio s = (None, s')"
    and "role \<in> set orderedRoles"
  shows "if role_in_use (w_members w) role
    then binding_grants (view s' (role_binding_key w role)) role u \<longleftrightarrow>
      (\<exists>m \<in> set (w_members w). wm_subject m = u \<and> wm_role m = role)
    else gone_or_terminating (view s') (role_binding_key w role)"
proof -
  have "conforms K dflt w version (desired_role_binding w role) (view s' (role_binding_key w role))"
    using reconcile_step.step_goal [OF kube_api.resources_step [OF assms(1)] assms(3)] assms(4)
    by (simp add: workspace_ready_split)
  from desired_role_binding_grants [OF this assms(2)] show ?thesis by (simp add: gone_or_terminating_def)
qed

theorem role_bindings_exact_witness:
  "binding_grants (mem_view all_kinds (snd team_resources) (role_binding_key team ''view'')) ''view'' ''bob''
   \<and> \<not> binding_grants (mem_view all_kinds (snd team_resources) (role_binding_key team ''admin'')) ''admin'' ''bob''
   \<and> gone_or_terminating (mem_view all_kinds (snd team_resources)) (role_binding_key team ''edit'')"
proof -
  have roles: "''view'' \<in> set orderedRoles" "''admin'' \<in> set orderedRoles" "''edit'' \<in> set orderedRoles"
    by (simp_all add: orderedRoles_def member_roles)
  note exact = role_bindings_exact [OF mem_api.kube_api_axioms _ team_resources_ok]
  show ?thesis
    using exact [OF _ roles(1), of "''bob''"] exact [OF _ roles(2), of "''bob''"]
      exact [OF _ roles(3), of "''bob''"]
    by (simp add: role_in_use_iff)
qed

section \<open>The namespace\<close>

text \<open>
  The namespace after its step: it is controlled by the Workspace, carries every label of
  the operator and the sidecar-injection label exactly when Istio is there, and keeps every
  other label it had (but for the one with its name, which is the API server's).
\<close>

theorem namespace_labelled:
  assumes "kube_api K view dflt"
    and "ReconcileNamespace K w version istio s = (None, s')"
  shows "\<exists>x l old. view s' (namespace_key w) = Some x \<and> obj_labels x = Some l
    \<and> old = (case view s (namespace_key w) of None \<Rightarrow> Map.empty
             | Some y \<Rightarrow> labels_or_empty (obj_labels y))
    \<and> controlled_by (workspace_owner w) (obj_meta x)
    \<and> LabelsForWorkspace (w_name w) version \<subseteq>\<^sub>m l
    \<and> l istio_injection_label = (if istio then Some ''enabled'' else None)
    \<and> l |` (- insert name_label (insert istio_injection_label (dom (LabelsForWorkspace (w_name w) version)))) =
      old |` (- insert name_label (insert istio_injection_label (dom (LabelsForWorkspace (w_name w) version))))"
proof -
  let ?L = "LabelsForWorkspace (w_name w) version"
  let ?b = "base_of view s (new_object NamespaceKind '''' (w_namespace w))"
  define l where "l = namespace_labels w version istio (meta_labels (obj_meta ?b))"
  obtain ob' where f: "mutate_namespace K w version istio ?b = Inr ob'"
    and app: "applied view dflt (namespace_key w) ob' s s'"
    using kube_api.create_or_update_ok [OF assms(1) assms(2) [unfolded ReconcileNamespace_def]]
    by (auto simp: namespace_key_def)
  then obtain x where x: "view s' (namespace_key w) = Some x" and wr: "written dflt ob' x"
    by (auto dest: applied_written)
  have own: "own_by K (workspace_owner w) (set_labels (Some l) ?b) = Inr ob'"
    using f by (simp add: mutate_namespace_def l_def split: if_splits)
  note ok = kube_api.own_by_ok [OF assms(1) own]
  have "key_of ob' = (NamespaceKind, '''', w_namespace w)"
    using ok(1) kube_api.view_key [OF assms(1), of s]
    by (auto simp: base_of_def key_of_def set_labels_def new_object_def object_meta_named_def split: option.splits)
  then have lx: "obj_labels x = Some (l(name_label \<mapsto> w_namespace w))"
    using ok(3) wr by (simp add: written_def obj_labels_def)
  have ctrl: "controlled_by (workspace_owner w) (obj_meta x)"
    using ok(5) [of "obj_meta x"] wr by (simp add: written_def settled_owner_def)
  have "?L \<subseteq>\<^sub>m l"
    unfolding map_le_def using namespace_labels_absorb [of w version istio "meta_labels (obj_meta ?b)"]
    by (metis domIff l_def maps_copy_entry option.exhaust)
  then have "?L \<subseteq>\<^sub>m l(name_label \<mapsto> w_namespace w)" by (auto simp: map_le_def)
  moreover have "labels_or_empty (meta_labels (obj_meta ?b)) =
      (case view s (namespace_key w) of None \<Rightarrow> Map.empty | Some y \<Rightarrow> labels_or_empty (obj_labels y))"
    by (simp add: base_of_def namespace_key_def obj_labels_def split: option.split)
  then have "l(name_label \<mapsto> w_namespace w) |` (- insert name_label (insert istio_injection_label (dom ?L))) =
      (case view s (namespace_key w) of None \<Rightarrow> Map.empty
       | Some y \<Rightarrow> labels_or_empty (obj_labels y)) |` (- insert name_label (insert istio_injection_label (dom ?L)))"
    by (auto simp: fun_eq_iff restrict_map_def l_def namespace_labels_other domIff)
  moreover have "(l(name_label \<mapsto> w_namespace w)) istio_injection_label = (if istio then Some ''enabled'' else None)"
    by (simp add: l_def namespace_labels_istio)
  ultimately show ?thesis using x lx ctrl by blast
qed

theorem namespace_labelled_witness:
  "\<exists>x l. mem_view all_kinds (snd (ReconcileNamespace (mem_kube all_kinds) team ''v1'' True team_cluster))
      (namespace_key team) = Some x
    \<and> obj_labels x = Some l \<and> l istio_injection_label = Some ''enabled''"
proof -
  have "fst (ReconcileNamespace (mem_kube all_kinds) team ''v1'' True team_cluster) = None" by code_simp
  then have "ReconcileNamespace (mem_kube all_kinds) team ''v1'' True team_cluster =
      (None, snd (ReconcileNamespace (mem_kube all_kinds) team ''v1'' True team_cluster))"
    by (simp add: prod_eq_iff)
  from namespace_labelled [OF mem_api.kube_api_axioms this] show ?thesis by auto
qed

section \<open>The Istio flag\<close>

text \<open>
  Every error that carries an API status counts as a definitive "not installed". Whatever
  the reason (for instance a temporary overload, \<open>ServiceUnavailable\<close>), a detector with a
  client is disabled by it, although the group may still be served.
\<close>

theorem status_error_disables_detector:
  assumes "det_client d = Some dc" and "ask dc istio_group_version = Some err"
    and "k_reason_for_error K err \<noteq> ''''"
  shows "IsEnabled (Refresh K ask d) = False"
  using assms by (simp add: IsEnabled_def Refresh_def isResourceSupported_def)

definition busy_error :: go_error where
  "busy_error = ExternalError ''ServiceUnavailable'' ''the server is currently unable to handle the request''"

theorem status_error_disables_detector_witness:
  "IsEnabled (Refresh (mem_kube all_kinds) (\<lambda>_ _. Some busy_error)
     \<lparr> det_client = Some (), det_enabled = True \<rparr>) = False"
  by (rule status_error_disables_detector [where err = busy_error]) (simp_all add: busy_error_def)

end
