(* ===== verification/Workspace_Settling.thy ===== *)
theory Workspace_Settling
  imports Workspace_Properties
begin

text \<open>
  The loop that the watches of the controller close: every change of an owned object enqueues
  the Workspace again, and the pass that follows writes the same objects. \<open>settle\<close> is that loop,
  run until a pass changes no object; a status patch does not count, because the controller
  filters events by generation. It is a partial function, whose value is \<open>None\<close> when the loop
  does not end. Without faults it ends after at most two passes, in the desired state: the
  reconciler does not wake itself up for ever.
\<close>

section \<open>Settled steps\<close>

definition settled_on :: "('s \<Rightarrow> 'k \<Rightarrow> 'o option) \<Rightarrow> 's step \<Rightarrow> (('k \<Rightarrow> 'o option) \<Rightarrow> bool) \<Rightarrow> bool" where
  "settled_on view f P \<longleftrightarrow> (\<forall>s. P (view s) \<longrightarrow> (\<exists>s'. f s = (None, s') \<and> view s' = view s))"

lemma settled_onI:
  assumes "quiet_on view f P" and "\<And>s. P (view s) \<Longrightarrow> fst (f s) = None"
  shows "settled_on view f P"
  unfolding settled_on_def
proof (intro allI impI)
  fix s
  assume P: "P (view s)"
  obtain s' where "f s = (None, s')" using assms(2) [OF P] by (metis prod.collapse)
  with quiet_onD [OF assms(1) P] show "\<exists>s'. f s = (None, s') \<and> view s' = view s" by blast
qed

lemma settled_on_then:
  assumes "settled_on view f P" and "settled_on view g Q"
  shows "settled_on view (then_ok f g) (\<lambda>v. P v \<and> Q v)"
  unfolding settled_on_def
proof (intro allI impI)
  fix s
  assume goal: "P (view s) \<and> Q (view s)"
  obtain t where t: "f s = (None, t)" "view t = view s" using assms(1) goal unfolding settled_on_def by blast
  moreover obtain u where "g t = (None, u)" "view u = view t"
    using assms(2) goal t(2) unfolding settled_on_def by metis
  ultimately show "\<exists>s'. then_ok f g s = (None, s') \<and> view s' = view s" by (simp add: then_ok_def)
qed

lemma settled_on_run:
  assumes "\<And>x. x \<in> set xs \<Longrightarrow> settled_on view (f x) (P x)"
  shows "settled_on view (run_steps (map f xs)) (\<lambda>v. \<forall>x \<in> set xs. P x v)"
  using assms
proof (induction xs)
  case Nil
  show ?case by (simp add: settled_on_def)
next
  case (Cons x xs)
  then have "settled_on view (then_ok (f x) (run_steps (map f xs))) (\<lambda>v. P x v \<and> (\<forall>y \<in> set xs. P y v))"
    by (intro settled_on_then) simp_all
  then show ?case by (simp add: run_steps_Cons)
qed

context reliable_kube_api
begin

lemma settled_not_other: "settled_owner K ow m \<Longrightarrow> \<not> controlled_by_other ow m"
  using set_controller_reference_taken by (fastforce simp: settled_owner_def)

lemma child_settled:
  assumes "served (fst k) \<or> (nm \<and> d = MustBeAbsent)"
  shows "settled_on view (manage_child K nm w version k d) (\<lambda>v. conforms K dflt w version d (v k))"
proof (rule settled_onI [OF manage_child_quiet])
  fix s
  assume ready: "conforms K dflt w version d (view s k)"
  have "\<not> controlled_by_other (workspace_owner w) (obj_meta x)"
    if "d \<noteq> MustBeAbsent" "view s k = Some x" for x
    using that ready settled_not_other by (cases d) (auto simp: conforms_exists_iff)
  from manage_child_succeeds [OF this assms] show "fst (manage_child K nm w version k d s) = None" .
qed

lemma namespace_settled:
  assumes "served NamespaceKind"
  shows "settled_on view (ReconcileNamespace K w version istio)
      (\<lambda>v. namespace_ready K dflt w version istio (v (namespace_key w)))"
proof (rule settled_onI [OF namespace_quiet])
  fix s
  assume ready: "namespace_ready K dflt w version istio (view s (namespace_key w))"
  have "\<not> foreign_namespace w x \<and> \<not> controlled_by_other (workspace_owner w) (obj_meta x)"
    if x: "view s (namespace_key w) = Some x" for x
  proof -
    have owner: "settled_owner K (workspace_owner w) (obj_meta x)"
      using ready x by (simp add: namespace_ready_def)
    then have "controlled_by (workspace_owner w) (obj_meta x)" by (simp add: settled_owner_def)
    with settled_not_other [OF owner] show ?thesis
      by (auto simp: foreign_namespace_def dest: controlled_by_IsOwned)
  qed
  from namespace_succeeds [OF assms this] show "fst (ReconcileNamespace K w version istio s) = None" .
qed

lemma resources_settled:
  assumes "\<forall>kd \<in> core_kinds. served kd" and "istio \<Longrightarrow> \<forall>kd \<in> istio_kinds. served kd"
  shows "settled_on view (reconcileResources K w version istio) (workspace_ready K dflt w version istio)"
proof -
  have core: "served (fst (role_binding_key w role))" "served (fst (quota_key w))"
    "served (fst (limits_key w))" "served (fst (network_policy_key w))" "served NamespaceKind" for role
    using assms(1) by (simp_all add: core_kinds_def child_keys)
  have istio: "served (fst (peer_authentication_key w)) \<or> (True \<and> desired_peer_authentication w istio = MustBeAbsent)"
    "served (fst (authorization_policy_key w)) \<or> (True \<and> desired_authorization_policy w istio = MustBeAbsent)"
    using assms(2) by (cases istio; simp add: istio_kinds_def child_keys
        desired_peer_authentication_def desired_authorization_policy_def)+
  have "settled_on view (ReconcileNetworkIsolation K w version istio) (network_isolated K dflt w version istio)"
    unfolding ReconcileNetworkIsolation_def network_isolation_manage network_isolated_def [abs_def]
    by (intro settled_on_then child_settled disjI1 core istio)
  then show ?thesis
    unfolding reconcileResources_def workspace_ready_split [abs_def] ReconcileRoleBindings_manage
      ReconcileResourceQuota_manage ReconcileLimitRange_manage
    by (intro settled_on_then settled_on_run child_settled namespace_settled disjI1 core)
qed

end

section \<open>The loop\<close>

definition owned_keys :: "workspace \<Rightarrow> key list" where
  "owned_keys w = namespace_key w # map fst (desired_children w False)"

lemma set_owned_keys: "set (owned_keys w) = workspace_keys w"
  by (simp add: owned_keys_def workspace_keys_def)

definition owned_changed :: "('s \<Rightarrow> key \<Rightarrow> kobject option) \<Rightarrow> workspace \<Rightarrow> 's \<Rightarrow> 's \<Rightarrow> bool" where
  "owned_changed view w s s' \<longleftrightarrow> list_ex (\<lambda>k. view s' k \<noteq> view s k) (owned_keys w)"

partial_function (option) settle ::
  "'s kube \<Rightarrow> 's workspace_client \<Rightarrow> 's reconciler \<Rightarrow> ('s \<Rightarrow> key \<Rightarrow> kobject option) \<Rightarrow> bool \<Rightarrow> string
     \<Rightarrow> 's \<Rightarrow> 's option" where
  "settle K W R view istio name s =
     (case wc_get W name s of
        Inl err \<Rightarrow> Some s
      | Inr w \<Rightarrow>
          if owned_changed view w s (snd (Reconcile K W R istio istio name s))
          then settle K W R view istio name (snd (Reconcile K W R istio istio name s))
          else Some (snd (Reconcile K W R istio istio name s)))"

declare settle.simps [simp del]

context reliable_workspace_store
begin

lemma reconcile_settled:
  assumes rec: "rec_recorder R = Some emit" and w: "wc_get W name s = Inr w"
    and served: "\<forall>kd \<in> core_kinds. served kd" "istio \<Longrightarrow> \<forall>kd \<in> istio_kinds. served kd"
    and ready: "workspace_ready K dflt w (rec_version R) istio (view s)"
  shows "view (snd (Reconcile K W R istio istio2 name s)) = view s"
proof -
  obtain t where res: "reconcileResources K w (rec_version R) istio s = (None, t)" and t: "view t = view s"
    using resources_settled [OF served] ready unfolding settled_on_def by blast
  obtain out s' where upd: "updateStatus K W R w istio2 t = (out, s')" by force
  have "Reconcile K W R istio istio2 name s = (out, s')" using w res upd by (simp add: Reconcile_def)
  with update_status_objects [OF rec upd] t show ?thesis by simp
qed

lemma settle_ends:
  assumes rec: "rec_recorder R = Some emit" and w: "ws_view s name = Some w" "w_name w = name"
    and served: "\<forall>kd \<in> core_kinds. served kd" "istio \<Longrightarrow> \<forall>kd \<in> istio_kinds. served kd"
    and free: "unobstructed w (view s)"
  shows "\<exists>s'. settle K W R view istio name s = Some s'
    \<and> workspace_ready K dflt w (rec_version R) istio (view s')"
proof -
  obtain s1 where run: "Reconcile K W R istio istio name s = (Returns None, s1)"
    and ready: "workspace_ready K dflt w (rec_version R) istio (view s1)"
    and stored: "ws_view s1 name = Some (w\<lparr> w_status := updated_status K w istio \<rparr>)"
    using reconcile_succeeds [OF rec w served free, of istio] by blast
  let ?w1 = "w\<lparr> w_status := updated_status K w istio \<rparr>"
  have get: "wc_get W name s1 = Inr ?w1" by (rule ws_get_succeeds [OF stored])
  let ?s2 = "snd (Reconcile K W R istio istio name s1)"
  have "workspace_ready K dflt ?w1 (rec_version R) istio (view s1)" using ready by (simp add: workspace_ready_status)
  from reconcile_settled [OF rec get served this] have same: "view ?s2 = view s1" by simp
  have again: "settle K W R view istio name s1 = Some ?s2"
    by (simp add: settle.simps [of K W R view istio name s1] get owned_changed_def same list_ex_iff)
  show ?thesis
  proof (cases "owned_changed view w s s1")
    case True
    have "settle K W R view istio name s = settle K W R view istio name s1"
      by (simp add: settle.simps [of K W R view istio name s] ws_get_succeeds [OF w(1)] run True)
    with again same ready show ?thesis by simp
  next
    case False
    have "settle K W R view istio name s = Some s1"
      by (simp add: settle.simps [of K W R view istio name s] ws_get_succeeds [OF w(1)] run False)
    with ready show ?thesis by simp
  qed
qed

end

text \<open>
  C19: The reconciler comes to rest. When the cluster serves the kinds, nothing fails and nothing
  stands in the way, the loop of passes that the watches of the owned objects keep up ends, and
  it ends with the Workspace ready: the reconciler does not trigger itself for ever, whatever the
  API server defaults in the specs it writes.
\<close>

theorem settle_terminates:
  assumes "reliable_workspace_store K view dflt W ws_view emit served"
    and "rec_recorder R = Some emit" and "ws_view s name = Some w" and "w_name w = name"
    and "\<forall>kd \<in> core_kinds. served kd" and "istio \<Longrightarrow> \<forall>kd \<in> istio_kinds. served kd"
    and "unobstructed w (view s)"
  shows "\<exists>s'. settle K W R view istio name s = Some s'
    \<and> workspace_ready K dflt w (rec_version R) istio (view s')"
  by (rule reliable_workspace_store.settle_ends [OF assms(1-5) _ assms(7)]) (rule assms(6))

theorem settle_terminates_witness:
  "\<exists>s'. settle (mem_kube all_kinds) mem_wc mem_rec (mem_view all_kinds) True ''team'' team_cluster = Some s'
     \<and> workspace_ready (mem_kube all_kinds) mem_default team ''v1'' True (mem_view all_kinds s')"
  using settle_terminates [OF mem_reliable.reliable_workspace_store_axioms, of mem_rec team_cluster
      "''team''" team all_kinds True] team_unobstructed
  by auto

end
