(* ===== verification/Command_Line.thy ===== *)
theory Command_Line
  imports Go_Prelude
begin

text \<open>
  The part of Go's package \<open>flag\<close> that \<open>cmd/main.go\<close> uses: a set of named flags, each with a way
  to set it from a text, and \<open>Parse\<close>, which takes the flags off the front of the command line.
  A flag is written with one or two dashes, its value after an equals sign or, unless the flag
  is boolean, as the next argument.
\<close>

section \<open>Flags\<close>

record 'a go_flag =
  flag_is_bool :: bool
  flag_set :: "string \<Rightarrow> 'a \<Rightarrow> 'a option"

definition string_flag :: "(string \<Rightarrow> 'a \<Rightarrow> 'a) \<Rightarrow> 'a go_flag" where
  "string_flag upd = \<lparr> flag_is_bool = False, flag_set = (\<lambda>v a. Some (upd v a)) \<rparr>"

text \<open>\<open>strconv.ParseBool\<close>.\<close>

definition parse_bool :: "string \<Rightarrow> bool option" where
  "parse_bool s =
     (if s \<in> {''1'', ''t'', ''T'', ''TRUE'', ''true'', ''True''} then Some True
      else if s \<in> {''0'', ''f'', ''F'', ''FALSE'', ''false'', ''False''} then Some False
      else None)"

definition bool_flag :: "(bool \<Rightarrow> 'a \<Rightarrow> 'a) \<Rightarrow> 'a go_flag" where
  "bool_flag upd =
     \<lparr> flag_is_bool = True, flag_set = (\<lambda>v a. map_option (\<lambda>b. upd b a) (parse_bool v)) \<rparr>"

definition bool_text :: "bool \<Rightarrow> string" where
  "bool_text b = (if b then ''true'' else ''false'')"

lemma parse_bool_text [simp]: "parse_bool (bool_text b) = Some b"
  by (simp add: parse_bool_def bool_text_def)

lemma flag_simps [simp]:
  "flag_is_bool (string_flag upd) = False" "flag_set (string_flag upd) v a = Some (upd v a)"
  "flag_is_bool (bool_flag bupd) = True"
  "flag_set (bool_flag bupd) v a = map_option (\<lambda>b. bupd b a) (parse_bool v)"
  by (simp_all add: string_flag_def bool_flag_def)

section \<open>Parse\<close>

datatype flag_error =
    BadSyntax string
  | NotDefined string
  | NeedsArgument string
  | InvalidValue string string
  | HelpRequested

text \<open>The name of a flag up to the first equals sign, and the value behind it.\<close>

definition split_value :: "string \<Rightarrow> string \<times> string option" where
  "split_value s =
     (case dropWhile (\<lambda>c. c \<noteq> CHR ''='') s of
        [] \<Rightarrow> (s, None)
      | _ # v \<Rightarrow> (takeWhile (\<lambda>c. c \<noteq> CHR ''='') s, Some v))"

lemma split_value_simps:
  "CHR ''='' \<notin> set n \<Longrightarrow> split_value (n @ ''='' @ v) = (n, Some v)"
  "CHR ''='' \<notin> set n \<Longrightarrow> split_value n = (n, None)"
proof -
  assume "CHR ''='' \<notin> set n"
  then have n: "\<forall>c \<in> set n. c \<noteq> CHR ''=''" by metis
  then show "split_value (n @ ''='' @ v) = (n, Some v)" "split_value n = (n, None)"
    by (simp_all add: split_value_def dropWhile_eq_Nil_conv [THEN iffD2] dropWhile_append2 takeWhile_append2)
qed

definition set_flag :: "string \<Rightarrow> 'a go_flag \<Rightarrow> string \<Rightarrow> 'a \<Rightarrow> flag_error + 'a" where
  "set_flag n fl v a = (case flag_set fl v a of None \<Rightarrow> Inl (InvalidValue n v) | Some a' \<Rightarrow> Inr a')"

fun parse_flags ::
  "(string \<Rightarrow> 'a go_flag option) \<Rightarrow> string list \<Rightarrow> 'a \<Rightarrow> flag_error + ('a \<times> string list)" where
  "parse_flags formal [] a = Inr (a, [])"
| "parse_flags formal (s # args) a =
     (if length s < 2 \<or> hd s \<noteq> CHR ''-'' then Inr (a, s # args)
      else if s = ''--'' then Inr (a, args)
      else
        (let text = (if s ! 1 = CHR ''-'' then drop 2 s else drop 1 s) in
         if text = [] \<or> hd text = CHR ''-'' \<or> hd text = CHR ''='' then Inl (BadSyntax s)
         else
           (case split_value text of (n, v) \<Rightarrow>
              (case formal n of
                 None \<Rightarrow> Inl (if n = ''help'' \<or> n = ''h'' then HelpRequested else NotDefined n)
               | Some fl \<Rightarrow>
                   if flag_is_bool fl then
                     (case set_flag n fl (case v of None \<Rightarrow> ''true'' | Some x \<Rightarrow> x) a of
                        Inl e \<Rightarrow> Inl e
                      | Inr a' \<Rightarrow> parse_flags formal args a')
                   else
                     (case v of
                        Some x \<Rightarrow>
                          (case set_flag n fl x a of
                             Inl e \<Rightarrow> Inl e
                           | Inr a' \<Rightarrow> parse_flags formal args a')
                      | None \<Rightarrow>
                          (case args of
                             [] \<Rightarrow> Inl (NeedsArgument n)
                           | x # rest \<Rightarrow>
                               (case set_flag n fl x a of
                                  Inl e \<Rightarrow> Inl e
                                | Inr a' \<Rightarrow> parse_flags formal rest a')))))))"

section \<open>Settings\<close>

text \<open>A name that can stand on the command line.\<close>

definition flag_name :: "string \<Rightarrow> bool" where
  "flag_name n \<longleftrightarrow> n \<noteq> [] \<and> hd n \<noteq> CHR ''-'' \<and> CHR ''='' \<notin> set n"

text \<open>All ways to write a setting mean the same.\<close>

lemma parse_setting:
  assumes n: "flag_name n" and fl: "formal n = Some fl"
  shows "parse_flags formal ((''--'' @ n @ ''='' @ v) # args) a =
      (case set_flag n fl v a of Inl e \<Rightarrow> Inl e | Inr a' \<Rightarrow> parse_flags formal args a')"
    and "parse_flags formal ((''-'' @ n @ ''='' @ v) # args) a =
      (case set_flag n fl v a of Inl e \<Rightarrow> Inl e | Inr a' \<Rightarrow> parse_flags formal args a')"
    and "\<not> flag_is_bool fl \<Longrightarrow> parse_flags formal ((''--'' @ n) # v # args) a =
      (case set_flag n fl v a of Inl e \<Rightarrow> Inl e | Inr a' \<Rightarrow> parse_flags formal args a')"
    and "flag_is_bool fl \<Longrightarrow> parse_flags formal ((''--'' @ n) # args) a =
      (case set_flag n fl ''true'' a of Inl e \<Rightarrow> Inl e | Inr a' \<Rightarrow> parse_flags formal args a')"
proof -
  obtain c cs where cs: "n = c # cs" and c: "c \<noteq> CHR ''-''" "c \<noteq> CHR ''=''" "CHR ''='' \<notin> set cs"
    using n by (cases n) (auto simp: flag_name_def)
  have split: "split_value (c # cs @ ''='' @ v) = (n, Some v)" "split_value (c # cs) = (n, None)"
    using split_value_simps(1) [of n v] split_value_simps(2) [of n] n by (auto simp: flag_name_def cs)
  show "parse_flags formal ((''--'' @ n @ ''='' @ v) # args) a =
      (case set_flag n fl v a of Inl e \<Rightarrow> Inl e | Inr a' \<Rightarrow> parse_flags formal args a')"
    "parse_flags formal ((''-'' @ n @ ''='' @ v) # args) a =
      (case set_flag n fl v a of Inl e \<Rightarrow> Inl e | Inr a' \<Rightarrow> parse_flags formal args a')"
    using split(1) c fl by (simp_all add: cs)
  show "\<not> flag_is_bool fl \<Longrightarrow> parse_flags formal ((''--'' @ n) # v # args) a =
      (case set_flag n fl v a of Inl e \<Rightarrow> Inl e | Inr a' \<Rightarrow> parse_flags formal args a')"
    "flag_is_bool fl \<Longrightarrow> parse_flags formal ((''--'' @ n) # args) a =
      (case set_flag n fl ''true'' a of Inl e \<Rightarrow> Inl e | Inr a' \<Rightarrow> parse_flags formal args a')"
    using split(2) c fl by (simp_all add: cs)
qed

text \<open>A list of settings is applied from left to right.\<close>

fun apply_settings ::
  "(string \<Rightarrow> 'a go_flag option) \<Rightarrow> (string \<times> string) list \<Rightarrow> 'a \<Rightarrow> 'a option" where
  "apply_settings formal [] a = Some a"
| "apply_settings formal ((n, v) # settings) a =
     (case formal n of
        None \<Rightarrow> None
      | Some fl \<Rightarrow>
          (case flag_set fl v a of None \<Rightarrow> None | Some a' \<Rightarrow> apply_settings formal settings a'))"

definition setting_text :: "string \<times> string \<Rightarrow> string" where
  "setting_text nv = ''--'' @ fst nv @ ''='' @ snd nv"

lemma parse_settings:
  assumes "apply_settings formal settings a = Some a'" and "\<forall>nv \<in> set settings. flag_name (fst nv)"
  shows "parse_flags formal (map setting_text settings @ args) a = parse_flags formal args a'"
  using assms
proof (induction settings arbitrary: a)
  case (Cons nv settings)
  obtain n v where nv: "nv = (n, v)" by (cases nv)
  with Cons.prems(1) obtain fl a1 where fl: "formal n = Some fl" "flag_set fl v a = Some a1"
    and rest: "apply_settings formal settings a1 = Some a'"
    by (auto split: option.splits)
  have n: "flag_name n" using Cons.prems(2) nv by simp
  have "parse_flags formal (map setting_text (nv # settings) @ args) a =
      parse_flags formal ((''--'' @ n @ ''='' @ v) # (map setting_text settings @ args)) a"
    by (simp only: nv list.map append_Cons setting_text_def fst_conv snd_conv)
  also have "\<dots> = parse_flags formal (map setting_text settings @ args) a1"
    using parse_setting(1) [where formal = formal, OF n fl(1), of v "map setting_text settings @ args" a] fl(2)
    by (simp add: set_flag_def)
  also have "\<dots> = parse_flags formal args a'" using Cons rest by simp
  finally show ?case .
qed simp

end
