(* ===== verification/Manager_Main.thy ===== *)
theory Manager_Main
  imports Command_Line Workspace_Webhook Workspace_Controller Module_Controller
begin

text \<open>
  \<open>cmd/main.go\<close>: the flags of the command line, the options of the manager as a function of
  them, the two reconcilers and the webhook as they are constructed, and the order of the
  start-up with its exits. The environment is a function (\<open>os.Getenv\<close> of an unset variable is
  the empty string); which calls into controller-runtime fail is an argument, and so are the
  flags that the logging library adds (\<open>opts.BindFlags\<close>), which set nothing but its own options.
\<close>

section \<open>Command line\<close>

record flag_values =
  metricsAddr :: string
  probeAddr :: string
  enableLeaderElection :: bool
  secureMetrics :: bool
  webhookCertPath :: string
  webhookCertName :: string
  webhookCertKey :: string
  metricsCertPath :: string
  metricsCertName :: string
  metricsCertKey :: string
  enableHTTP2 :: bool

definition flag_defaults :: flag_values where
  "flag_defaults =
     \<lparr> metricsAddr = ''0'', probeAddr = '':8081'', enableLeaderElection = False,
       secureMetrics = True, webhookCertPath = '''', webhookCertName = ''tls.crt'',
       webhookCertKey = ''tls.key'', metricsCertPath = '''', metricsCertName = ''tls.crt'',
       metricsCertKey = ''tls.key'', enableHTTP2 = False \<rparr>"

definition main_flags :: "(string \<times> flag_values go_flag) list" where
  "main_flags =
     [(''metrics-bind-address'', string_flag (\<lambda>v. metricsAddr_update (\<lambda>_. v))),
      (''health-probe-bind-address'', string_flag (\<lambda>v. probeAddr_update (\<lambda>_. v))),
      (''leader-elect'', bool_flag (\<lambda>v. enableLeaderElection_update (\<lambda>_. v))),
      (''metrics-secure'', bool_flag (\<lambda>v. secureMetrics_update (\<lambda>_. v))),
      (''webhook-cert-path'', string_flag (\<lambda>v. webhookCertPath_update (\<lambda>_. v))),
      (''webhook-cert-name'', string_flag (\<lambda>v. webhookCertName_update (\<lambda>_. v))),
      (''webhook-cert-key'', string_flag (\<lambda>v. webhookCertKey_update (\<lambda>_. v))),
      (''metrics-cert-path'', string_flag (\<lambda>v. metricsCertPath_update (\<lambda>_. v))),
      (''metrics-cert-name'', string_flag (\<lambda>v. metricsCertName_update (\<lambda>_. v))),
      (''metrics-cert-key'', string_flag (\<lambda>v. metricsCertKey_update (\<lambda>_. v))),
      (''enable-http2'', bool_flag (\<lambda>v. enableHTTP2_update (\<lambda>_. v)))]"

text \<open>
  All flags together act on the values of the program and on the options of the logger; a flag
  that the logging library defined again would be a panic of the package \<open>flag\<close>.
\<close>

definition redefined :: "(string \<Rightarrow> 'z go_flag option) \<Rightarrow> bool" where
  "redefined extra \<longleftrightarrow> list_ex (\<lambda>(n, fl). extra n \<noteq> None) main_flags"

definition all_flags :: "(string \<Rightarrow> 'z go_flag option) \<Rightarrow> string \<Rightarrow> (flag_values \<times> 'z) go_flag option" where
  "all_flags extra n =
     (case map_of main_flags n of
        Some fl \<Rightarrow> Some \<lparr> flag_is_bool = flag_is_bool fl,
          flag_set = (\<lambda>v (f, z). map_option (\<lambda>f'. (f', z)) (flag_set fl v f)) \<rparr>
      | None \<Rightarrow>
          (case extra n of
             Some fl \<Rightarrow> Some \<lparr> flag_is_bool = flag_is_bool fl,
               flag_set = (\<lambda>v (f, z). map_option (Pair f) (flag_set fl v z)) \<rparr>
           | None \<Rightarrow> None))"

text \<open>A wrong command line ends the program with exit code 2 (as a panic does), a request for help with 0.\<close>

definition parse_command_line ::
  "(string \<Rightarrow> 'z go_flag option) \<Rightarrow> 'z \<Rightarrow> string list \<Rightarrow> int + flag_values" where
  "parse_command_line extra z args =
     (if redefined extra then Inl 2
      else (case parse_flags (all_flags extra) args (flag_defaults, z) of
              Inl HelpRequested \<Rightarrow> Inl 0
            | Inl e \<Rightarrow> Inl 2
            | Inr ((f, z'), rest) \<Rightarrow> Inr f))"

section \<open>Server options\<close>

text \<open>The one field of \<open>tls.Config\<close> the program sets, and the rest of it.\<close>

record 'r tls_config =
  NextProtos :: "string list"
  tls_rest :: 'r

definition disableHTTP2 :: "'r tls_config \<Rightarrow> 'r tls_config" where
  "disableHTTP2 c = c\<lparr> NextProtos := [''http/1.1''] \<rparr>"

record 'r server_options =
  TLSOpts :: "('r tls_config \<Rightarrow> 'r tls_config) list"
  CertDir :: string
  CertName :: string
  KeyName :: string

record 'r metrics_options = "'r server_options" +
  BindAddress :: string
  SecureServing :: bool
  WithAuthenticationAndAuthorization :: bool

definition tlsOpts :: "flag_values \<Rightarrow> ('r tls_config \<Rightarrow> 'r tls_config) list" where
  "tlsOpts f = [] @ (if \<not> enableHTTP2 f then [disableHTTP2] else [])"

definition webhookServerOptions :: "flag_values \<Rightarrow> 'r server_options" where
  "webhookServerOptions f =
     (let opts = \<lparr> TLSOpts = tlsOpts f, CertDir = '''', CertName = '''', KeyName = '''' \<rparr>
      in if length (webhookCertPath f) > 0
         then opts\<lparr> CertDir := webhookCertPath f, CertName := webhookCertName f,
                    KeyName := webhookCertKey f \<rparr>
         else opts)"

definition metricsServerOptions :: "flag_values \<Rightarrow> 'r metrics_options" where
  "metricsServerOptions f =
     (let opts = \<lparr> TLSOpts = tlsOpts f, CertDir = '''', CertName = '''', KeyName = '''',
                   BindAddress = metricsAddr f, SecureServing = secureMetrics f,
                   WithAuthenticationAndAuthorization = False \<rparr>;
          opts1 = (if secureMetrics f
                   then opts\<lparr> WithAuthenticationAndAuthorization := True \<rparr> else opts)
      in if length (metricsCertPath f) > 0
         then opts1\<lparr> CertDir := metricsCertPath f, CertName := metricsCertName f,
                     KeyName := metricsCertKey f \<rparr>
         else opts1)"

text \<open>What the servers do with the options: apply each to the configuration.\<close>

definition apply_tls :: "('r tls_config \<Rightarrow> 'r tls_config) list \<Rightarrow> 'r tls_config \<Rightarrow> 'r tls_config" where
  "apply_tls opts c = fold (\<lambda>f c. f c) opts c"

record 'r manager_options =
  mgr_metrics :: "'r metrics_options"
  mgr_webhook_server :: "'r server_options"
  mgr_probe_address :: string
  mgr_leader_election :: bool
  mgr_leader_election_id :: string

definition managerOptions :: "flag_values \<Rightarrow> 'r manager_options" where
  "managerOptions f =
     \<lparr> mgr_metrics = metricsServerOptions f, mgr_webhook_server = webhookServerOptions f,
       mgr_probe_address = probeAddr f, mgr_leader_election = enableLeaderElection f,
       mgr_leader_election_id = ''7fe59df2.otterscale.io'' \<rparr>"

section \<open>Reconcilers and identity\<close>

definition main_workspace_reconciler :: "string \<Rightarrow> (string \<Rightarrow> event \<Rightarrow> 's \<Rightarrow> 's) \<Rightarrow> 's reconciler" where
  "main_workspace_reconciler version recorder =
     \<lparr> rec_version = version, rec_recorder = Some (recorder ''workspace-controller'') \<rparr>"

text \<open>The literal of the Module reconciler sets neither \<open>Version\<close> nor \<open>Recorder\<close>.\<close>

definition main_module_reconciler :: "'s reconciler" where
  "main_module_reconciler = \<lparr> rec_version = '''', rec_recorder = None \<rparr>"

definition main_operatorSA :: "(string \<Rightarrow> string) \<Rightarrow> string" where
  "main_operatorSA getenv =
     (let podNamespace = cmp_or (getenv ''POD_NAMESPACE'') ''otterscale-system'';
          podServiceAccount =
            cmp_or (getenv ''POD_SERVICE_ACCOUNT'') ''otterscale-operator-controller-manager''
      in OperatorServiceAccountIdentity podNamespace podServiceAccount)"

section \<open>Start-up\<close>

datatype startup =
    NewManager
  | SetupWorkspaceReconciler
  | SetupWorkspaceWebhook string
  | SetupModuleReconciler
  | AddHealthzCheck
  | AddReadyzCheck
  | StartManager

definition startup_calls :: "(string \<Rightarrow> string) \<Rightarrow> startup list" where
  "startup_calls getenv =
     [NewManager, SetupWorkspaceReconciler]
     @ (if getenv ''ENABLE_WEBHOOKS'' \<noteq> ''false''
        then [SetupWorkspaceWebhook (main_operatorSA getenv)] else [])
     @ [SetupModuleReconciler, AddHealthzCheck, AddReadyzCheck, StartManager]"

text \<open>Every call that fails is followed by \<open>os.Exit(1)\<close>.\<close>

fun run_startup :: "(startup \<Rightarrow> bool) \<Rightarrow> startup list \<Rightarrow> startup list \<times> int" where
  "run_startup fails [] = ([], 0)"
| "run_startup fails (c # cs) =
     (if fails c then ([c], 1) else (case run_startup fails cs of (done_calls, code) \<Rightarrow> (c # done_calls, code)))"

definition main ::
  "(string \<Rightarrow> 'z go_flag option) \<Rightarrow> 'z \<Rightarrow> string list \<Rightarrow> (string \<Rightarrow> string) \<Rightarrow> (startup \<Rightarrow> bool)
     \<Rightarrow> startup list \<times> int" where
  "main extra z args getenv fails =
     (case parse_command_line extra z args of
        Inl code \<Rightarrow> ([], code)
      | Inr f \<Rightarrow> run_startup fails (startup_calls getenv))"

section \<open>Properties\<close>

text \<open>
  Without the flag that enables HTTP/2, and so by default, the webhook server and the
  metrics server negotiate HTTP/1.1 only, whatever configuration they start from; with the flag
  the configuration is left alone.
\<close>

theorem http2_only_by_flag:
  "NextProtos (apply_tls (TLSOpts (webhookServerOptions f)) c) =
     (if enableHTTP2 f then NextProtos c else [''http/1.1''])
   \<and> NextProtos (apply_tls (TLSOpts (metricsServerOptions f)) c) =
     (if enableHTTP2 f then NextProtos c else [''http/1.1''])
   \<and> \<not> enableHTTP2 flag_defaults"
  by (simp add: webhookServerOptions_def metricsServerOptions_def Let_def tlsOpts_def apply_tls_def
      disableHTTP2_def flag_defaults_def)

lemma run_startup_prefix: "prefix (fst (run_startup fails cs)) cs"
  by (induction cs) (auto split: prod.splits)

lemma run_startup_all:
  "snd (run_startup fails cs) = 0 \<longleftrightarrow> list_all (\<lambda>c. \<not> fails c) cs"
  "list_all (\<lambda>c. \<not> fails c) cs \<Longrightarrow> fst (run_startup fails cs) = cs"
  by (induction cs) (auto split: prod.splits)

lemma run_startup_last:
  "snd (run_startup fails cs) \<noteq> 0 \<Longrightarrow>
     fst (run_startup fails cs) \<noteq> [] \<and> fails (last (fst (run_startup fails cs)))"
  by (induction cs) (auto split: prod.splits if_splits)

text \<open>
  The manager is started only after both controllers and (unless disabled) the webhook,
  with the operator's own identity, have been registered successfully; the first failure ends
  the program with exit code 1.
\<close>

theorem start_after_setup:
  assumes "main extra z args getenv fails = (calls, code)" and "StartManager \<in> set calls"
  shows "calls = startup_calls getenv \<and> \<not> list_ex fails (butlast calls)
    \<and> (code = 0 \<longleftrightarrow> \<not> fails StartManager)"
proof -
  define pre where "pre = butlast (startup_calls getenv)"
  have whole: "startup_calls getenv = pre @ [StartManager]" and fresh: "StartManager \<notin> set pre"
    by (auto simp: pre_def startup_calls_def)
  have "run_startup fails (startup_calls getenv) = (calls, code)"
    using assms by (auto simp: main_def split: sum.splits)
  moreover have "run_startup fails (pre @ [StartManager]) = (calls, code) \<Longrightarrow>
      calls = pre @ [StartManager] \<and> \<not> list_ex fails pre \<and> (code = 0 \<longleftrightarrow> \<not> fails StartManager)"
    using assms(2) fresh
    by (induction pre arbitrary: calls) (auto split: prod.splits if_splits)
  ultimately show ?thesis by (simp add: whole)
qed

abbreviation no_extra :: "string \<Rightarrow> unit go_flag option" where
  "no_extra \<equiv> \<lambda>_. None"

lemma no_extra_fresh [simp]: "\<not> redefined no_extra"
  by (simp add: redefined_def list_ex_iff)

theorem start_after_setup_witness:
  "let calls = startup_calls (\<lambda>_. '''') in
     main no_extra () [] (\<lambda>_. '''') (\<lambda>_. False) = (calls, 0) \<and> \<not> list_ex (\<lambda>_. False) (butlast calls)"
proof -
  have run: "main no_extra () [] (\<lambda>_. '''') (\<lambda>_. False) = (startup_calls (\<lambda>_. ''''), 0)"
    by (simp add: main_def parse_command_line_def startup_calls_def)
  have "StartManager \<in> set (startup_calls (\<lambda>_. ''''))" by (simp add: startup_calls_def)
  from start_after_setup [OF run this] run show ?thesis by simp
qed

section \<open>The command line\<close>

definition flag_settings :: "flag_values \<Rightarrow> (string \<times> string) list" where
  "flag_settings f =
     [(''metrics-bind-address'', metricsAddr f), (''health-probe-bind-address'', probeAddr f),
      (''leader-elect'', bool_text (enableLeaderElection f)),
      (''metrics-secure'', bool_text (secureMetrics f)),
      (''webhook-cert-path'', webhookCertPath f), (''webhook-cert-name'', webhookCertName f),
      (''webhook-cert-key'', webhookCertKey f), (''metrics-cert-path'', metricsCertPath f),
      (''metrics-cert-name'', metricsCertName f), (''metrics-cert-key'', metricsCertKey f),
      (''enable-http2'', bool_text (enableHTTP2 f))]"

lemma main_flag_names: "\<forall>nv \<in> set (flag_settings f). flag_name (fst nv)"
  by (simp add: flag_settings_def flag_name_def)

text \<open>
  C35: Round trip. Whatever values the options should have, the command line that spells them all
  out is accepted and yields exactly them, whatever flags the logging library adds; and settings
  of known flags, with values they accept, that came before on the command line are overridden:
  for each flag the last setting counts.
\<close>

theorem command_line_roundtrip:
  assumes "\<not> redefined extra"
    and "apply_settings (all_flags extra) settings (flag_defaults, z) = Some a"
    and "\<forall>nv \<in> set settings. flag_name (fst nv)"
  shows "parse_command_line extra z (map setting_text (settings @ flag_settings f)) = Inr f"
proof -
  obtain f0 z0 where a: "a = (f0, z0)" by (cases a)
  have "apply_settings (all_flags extra) (flag_settings f) (f0, z0) = Some (f, z0)"
    by (simp add: flag_settings_def all_flags_def main_flags_def)
  from parse_settings [OF this main_flag_names, of "[]"]
  have "parse_flags (all_flags extra) (map setting_text (flag_settings f)) (f0, z0) = Inr ((f, z0), [])"
    by simp
  with parse_settings [OF assms(2,3), of "map setting_text (flag_settings f)"] a assms(1)
  show ?thesis by (simp add: parse_command_line_def)
qed

theorem command_line_roundtrip_witness:
  "parse_command_line no_extra () (map setting_text
     ([(''leader-elect'', ''true'')] @ flag_settings flag_defaults)) = Inr flag_defaults"
  using command_line_roundtrip [of no_extra "[(''leader-elect'', ''true'')]" "()" _ flag_defaults]
  by (simp add: all_flags_def main_flags_def parse_bool_def flag_name_def)

end
