(* ===== verification/Module_Properties.thy ===== *)
theory Module_Properties
  imports Mem_Cluster Module_Frame Manager_Main Workspace_Properties
begin

text \<open>
  What a reconciliation of a Module guarantees: the Flux resource the template asks for, the
  finalizer before any object and the objects deleted before the finalizer goes, no object of
  anybody else touched, permanent errors not retried, a status that mirrors the Flux resource,
  and the watch that leads back from a Flux resource to its Module; and where the program falls
  short. The theorems hold for every client that keeps the laws of \<open>module_store\<close>.
\<close>

section \<open>A sample cluster\<close>

definition app_meta :: object_meta where
  "app_meta = (object_meta_named '''' ''app'')\<lparr> meta_uid := ''uid-app'', meta_generation := 1 \<rparr>"

definition empty_module_status :: module_status where
  "empty_module_status =
     \<lparr> mst_observed_generation = 0, mst_template_generation = 0, mst_helm_release_ref = None,
       mst_kustomization_ref = None, mst_conditions = [] \<rparr>"

definition app :: module where
  "app = \<lparr> m_meta = app_meta,
     m_spec = \<lparr> ms_template_ref = ''chart'', ms_namespace = None, ms_values = Some (JObject [(''replicas'', JNumber 3)]) \<rparr>,
     m_status = empty_module_status \<rparr>"

definition chart_spec :: helm_release_spec where
  "chart_spec = \<lparr> hr_values = Some (JObject []), hr_rest = JObject [(''chart'', JString ''nginx'')] \<rparr>"

definition chart :: module_template where
  "chart = \<lparr> mt_meta = (object_meta_named '''' ''chart'')\<lparr> meta_generation := 7 \<rparr>,
     mt_spec = \<lparr> mts_description = '''', mts_namespace = ''apps'', mts_helm_release = Some chart_spec,
       mts_kustomization = None \<rparr> \<rparr>"

definition app_cluster :: mem where
  "app_cluster =
     \<lparr> mem_objects = [], mem_workspaces = [], mem_modules = [app], mem_templates = [chart],
       mem_faults = [], mem_clock = 5, mem_events = [] \<rparr>"

definition app_run :: "mem \<Rightarrow> go_error option go_result \<times> mem" where
  "app_run = Reconcile_module (mem_kube all_kinds) mem_mc mem_rec ''app''"

definition app_done :: mem where
  "app_done = snd (app_run app_cluster)"

lemma app_run_ok:
  "Reconcile_module (mem_kube all_kinds) mem_mc mem_rec ''app'' app_cluster = (Returns None, app_done)"
proof -
  have "fst (app_run app_cluster) = Returns None" by code_simp
  then show ?thesis by (simp add: app_done_def app_run_def prod_eq_iff)
qed

lemma app_simps [simp]:
  "deletion_timestamp (m_meta app) = None" "m_name app = ''app''" "ms_template_ref (m_spec app) = ''chart''"
  "TargetNamespace app chart = ''apps''" "m_status app = empty_module_status"
  "mts_helm_release (mt_spec chart) = Some chart_spec"
  "ms_values (m_spec app) = Some (JObject [(''replicas'', JNumber 3)])"
  by (simp_all add: app_def app_meta_def TargetNamespace_def chart_def object_meta_named_def)

lemma app_cluster_simps [simp]:
  "mem_get_module ''app'' app_cluster = Inr app" "mem_tmpl app_cluster ''chart'' = Some chart"
  "mem_mod app_cluster ''app'' = Some app" "mem_view L app_cluster = (\<lambda>k. None)"
  by (auto simp: app_cluster_def mem_get_module_def mem_mod_def mem_tmpl_def keyed_def mem_view_def
      app_def app_meta_def chart_def object_meta_named_def)

abbreviation app_spec :: obj_spec where
  "app_spec \<equiv> HelmReleaseSpec (helm_spec_for app chart_spec)"

lemma app_flux: "desired_flux app chart = Some (HelmReleaseKind, app_spec)"
  by (simp add: desired_flux_def chart_def)

section \<open>The Flux resource\<close>

text \<open>
  C3: Refinement. When the reconciliation of a live Module returns without an error, the Module
  is stored with its finalizer, and the Flux resource the template asks for exists as asked
  (kind, spec with the Module's values, labels, owner), unless the template is missing or asks
  for nothing; then no object was touched.
\<close>

theorem module_refines_template:
  assumes "module_store K view dflt M mod_view tmpl_view emit" and "rec_recorder R = Some emit"
    and "mc_get M name s = Inr m" and "deletion_timestamp (m_meta m) = None"
    and "Reconcile_module K M R name s = (Returns None, s')"
  shows "(\<exists>m'. mod_view s' name = Some m' \<and> has_module_finalizer m')
    \<and> (case tmpl_view s (ms_template_ref (m_spec m)) of
         None \<Rightarrow> view s' = view s
       | Some mt \<Rightarrow>
           (case desired_flux m mt of
              None \<Rightarrow> view s' = view s
            | Some (kd, sp) \<Rightarrow> flux_ready K dflt m mt (rec_version R) sp (view s' (flux_key m mt kd))))"
  by (rule module_store.reconcile_module_ok [OF assms])

theorem module_refines_template_witness:
  "flux_ready (mem_kube all_kinds) mem_default app chart ''v1'' app_spec
     (mem_view all_kinds app_done (HelmReleaseKind, ''apps'', ''app''))"
  using module_refines_template [OF mem_module_store.module_store_axioms _ _ _ app_run_ok, of app]
  by (simp add: app_flux flux_key_def)

text \<open>
  Values. The HelmRelease written for a Module carries the template's spec with the
  Module's values in place of the template's when the Module has values, and a Kustomization
  carries the template's spec unchanged, whatever values the Module has.
\<close>

theorem flux_spec_from_template:
  assumes "kube_api K view dflt"
    and "reconcileResources_module K m mt version s = (None, s')"
  shows "case mts_helm_release (mt_spec mt) of
      Some h \<Rightarrow> map_option obj_spec (view s' (HelmReleaseKind, TargetNamespace m mt, m_name m)) =
        Some (dflt (HelmReleaseSpec (h\<lparr> hr_values :=
          (if ms_values (m_spec m) = None then hr_values h else ms_values (m_spec m)) \<rparr>)))
    | None \<Rightarrow> map_option obj_spec (view s' (KustomizationKind, TargetNamespace m mt, m_name m)) =
        map_option (\<lambda>k. dflt (KustomizationSpec k)) (mts_kustomization (mt_spec mt))
        \<and> mts_kustomization (mt_spec mt) \<noteq> None"
proof (cases "desired_flux m mt")
  case None
  with assms(2) show ?thesis
    by (cases rule: reconcileResources_module_cases [of m mt K version]) auto
next
  case (Some p)
  obtain kd sp where p: "p = (kd, sp)" by (cases p)
  have "flux_ready K dflt m mt version sp (view s' (flux_key m mt kd))"
    using reconcile_step.step_goal [OF kube_api.flux_step [OF assms(1)] assms(2)] Some p by simp
  then have "map_option obj_spec (view s' (flux_key m mt kd)) = Some (dflt sp)"
    by (auto simp: flux_ready_def split: option.splits)
  with Some p show ?thesis
    by (auto simp: desired_flux_def flux_key_def helm_spec_for_def split: option.splits)
qed

definition app_written :: "go_error option \<times> mem" where
  "app_written = reconcileResources_module (mem_kube all_kinds) app chart ''v1'' app_cluster"

lemma app_written_ok:
  "reconcileResources_module (mem_kube all_kinds) app chart ''v1'' app_cluster = (None, snd app_written)"
proof -
  have "fst app_written = None" by code_simp
  then show ?thesis by (simp add: app_written_def prod_eq_iff)
qed

theorem flux_spec_from_template_witness:
  "map_option obj_spec (mem_view all_kinds (snd app_written) (HelmReleaseKind, ''apps'', ''app'')) =
     Some (HelmReleaseSpec (chart_spec\<lparr> hr_values := Some (JObject [(''replicas'', JNumber 3)]) \<rparr>))"
  using flux_spec_from_template [OF mem_api.kube_api_axioms app_written_ok]
  by simp

text \<open>The labels of a Flux resource that is as asked name its Module to the watch.\<close>

lemma flux_ready_watched:
  assumes "flux_ready K dflt m mt version sp (Some x)"
  shows "mapFluxResourceToModule (obj_labels x) = [m_name m]"
proof -
  obtain l where l: "obj_labels x = Some l" "maps_copy l (LabelsForModule (m_name m) (mt_name mt) version) = l"
    using assms by (auto simp: flux_ready_def)
  with mod_labels.copied [of l "m_name m" "mt_name mt" version] show ?thesis
    by (simp add: mapFluxResourceToModule_def)
qed

text \<open>
  The labels of a Flux resource that the reconciler has written lead the watch
  back to the Module that wrote it, and to no other; an object that a Workspace manages leads
  to no Module.
\<close>

theorem flux_watch_roundtrip:
  assumes "kube_api K view dflt" and "desired_flux m mt = Some (kd, sp)"
    and "reconcileResources_module K m mt version s = (None, s')"
  shows "(\<exists>x. view s' (flux_key m mt kd) = Some x \<and> mapFluxResourceToModule (obj_labels x) = [m_name m])
    \<and> mapFluxResourceToModule (Some (LabelsForWorkspace wname version)) = []"
proof -
  have "flux_ready K dflt m mt version sp (view s' (flux_key m mt kd))"
    using reconcile_step.step_goal [OF kube_api.flux_step [OF assms(1,2)] assms(3)] .
  then obtain x where "view s' (flux_key m mt kd) = Some x" "flux_ready K dflt m mt version sp (Some x)"
    by (auto simp: flux_ready_def split: option.splits)
  moreover have "mapFluxResourceToModule (Some (LabelsForWorkspace wname version)) = []"
    using ws_labels.component [of wname version] by (simp add: mapFluxResourceToModule_def)
  ultimately show ?thesis using flux_ready_watched by blast
qed

theorem flux_watch_roundtrip_witness:
  "\<exists>x. mem_view all_kinds (snd app_written) (HelmReleaseKind, ''apps'', ''app'') = Some x
     \<and> mapFluxResourceToModule (obj_labels x) = [''app'']"
  using flux_watch_roundtrip [OF mem_api.kube_api_axioms app_flux app_written_ok]
  by (simp add: flux_key_def)

text \<open>
  Idempotence. A successful reconciliation of a live Module whose Flux resource is already
  as the template asks changes no object.
\<close>

theorem module_idempotent:
  assumes "module_store K view dflt M mod_view tmpl_view emit" and "rec_recorder R = Some emit"
    and "mc_get M name s = Inr m" and "deletion_timestamp (m_meta m) = None"
    and "has_module_finalizer m"
    and "tmpl_view s (ms_template_ref (m_spec m)) = Some mt" and "desired_flux m mt = Some (kd, sp)"
    and "flux_ready K dflt m mt (rec_version R) sp (view s (flux_key m mt kd))"
    and "Reconcile_module K M R name s = (Returns None, s')"
  shows "view s' = view s"
  by (rule module_store.reconcile_module_quiet [OF assms])

definition app_fin :: module where
  "app_fin = app\<lparr> m_meta := app_meta\<lparr> meta_finalizers := [ModuleFinalizer] \<rparr> \<rparr>"

definition settled_cluster :: mem where
  "settled_cluster = app_done\<lparr> mem_modules := [app_fin], mem_templates := [chart] \<rparr>"

lemma app_fin_same: "same_but_finalizers app app_fin"
  by (auto simp: same_but_finalizers_def app_fin_def app_def)

lemma settled_simps [simp]:
  "mem_get_module ''app'' settled_cluster = Inr app_fin" "mem_tmpl settled_cluster ''chart'' = Some chart"
  "mem_view L settled_cluster = mem_view L app_done" "has_module_finalizer app_fin"
  using same_but_finalizers_simps(1) [OF app_fin_same]
  by (simp_all add: settled_cluster_def mem_get_module_def mem_mod_def mem_tmpl_def keyed_def
      mem_view_def fun_eq_iff chart_def object_meta_named_def has_module_finalizer_def app_fin_def)

lemma app_ready:
  "flux_ready (mem_kube all_kinds) mem_default app chart ''v1'' app_spec
     (mem_view all_kinds app_done (HelmReleaseKind, ''apps'', ''app''))"
  using module_store.reconcile_module_ok [OF mem_module_store.module_store_axioms _ _ _ app_run_ok, of app]
  by (simp add: app_flux flux_key_def)

theorem module_idempotent_witness:
  "mem_view all_kinds (snd (app_run settled_cluster)) = mem_view all_kinds settled_cluster"
proof -
  note same = same_but_finalizers_simps [OF app_fin_same]
  have "fst (app_run settled_cluster) = Returns None" by code_simp
  then have run: "Reconcile_module (mem_kube all_kinds) mem_mc mem_rec ''app'' settled_cluster =
      (Returns None, snd (app_run settled_cluster))"
    by (simp add: app_run_def prod_eq_iff)
  have flux: "desired_flux app_fin chart = Some (HelmReleaseKind, app_spec)"
    using desired_flux_same [OF app_fin_same] app_flux by simp
  have ready: "flux_ready (mem_kube all_kinds) mem_default app_fin chart ''v1'' app_spec
      (mem_view all_kinds settled_cluster (flux_key app_fin chart HelmReleaseKind))"
    unfolding flux_ready_same [OF app_fin_same] flux_key_same [OF app_fin_same]
    using app_ready by (simp add: flux_key_def)
  show ?thesis
    by (rule module_idempotent [OF mem_module_store.module_store_axioms _ _ _ _ _ flux _ run])
      (use same ready in simp_all)
qed

section \<open>Safety\<close>

text \<open>
  Frame. A reconciliation of a Module, of a live one or one being deleted, however it ends,
  changes no object but HelmReleases and Kustomizations with the Module's own name.
\<close>

theorem module_frame_objects:
  assumes "module_store K view dflt M mod_view tmpl_view emit" and "rec_recorder R = Some emit"
    and "mc_get M name s = Inr m" and "Reconcile_module K M R name s = (out, s')"
  shows "view s' |` (- flux_keys name) = view s |` (- flux_keys name)"
  using module_store.reconcile_module_foot [OF assms(1) _ assms(4)] assms(2)
  by (simp add: restrict_map_def fun_eq_iff)

theorem module_frame_objects_witness:
  "mem_view all_kinds app_done |` (- flux_keys ''app'') = Map.empty"
  using module_frame_objects [OF mem_module_store.module_store_axioms _ _ app_run_ok, of app]
  by (simp add: restrict_map_def)

text \<open>
  C21: Finalizer first. If the reconciliation of a live Module changes any object, then the
  Module was stored with its finalizer while the objects were still unchanged, and it still is
  when the reconciliation ends.
\<close>

theorem finalizer_before_objects:
  assumes "module_store K view dflt M mod_view tmpl_view emit" and "rec_recorder R = Some emit"
    and "mc_get M name s = Inr m" and "deletion_timestamp (m_meta m) = None"
    and "Reconcile_module K M R name s = (out, s')" and "view s' \<noteq> view s"
  shows "\<exists>m1 s1. ensure_finalizer K M m s = (Inr m1, s1) \<and> view s1 = view s
    \<and> mod_view s1 name = Some m1 \<and> has_module_finalizer m1
    \<and> (\<exists>m2. mod_view s' name = Some m2 \<and> has_module_finalizer m2)"
  by (rule module_store.reconcile_module_finalizer_first [OF assms])

theorem finalizer_before_objects_witness:
  "\<exists>m2. mem_mod app_done ''app'' = Some m2 \<and> has_module_finalizer m2"
proof -
  have "mem_view all_kinds app_done (HelmReleaseKind, ''apps'', ''app'') \<noteq> None" by code_simp
  then have "mem_view all_kinds app_done \<noteq> mem_view all_kinds app_cluster" by auto
  with finalizer_before_objects [OF mem_module_store.module_store_axioms _ _ _ app_run_ok, of app]
  show ?thesis by auto
qed

text \<open>
  C10: Clean-up before release. If a reconciliation takes the finalizer off a Module (or lets the
  Module go), then the Module was being deleted; and, provided its status refers to at most one
  Flux object (as every status that the operator writes does) and names a namespace for it, that
  object has been deleted in the namespace recorded there, even if the Module or its template name
  another one by now. Deleted means absent or terminating: the operator does not wait for the
  finalizers of others.
\<close>

theorem finalizer_guards_cleanup:
  assumes "module_store K view dflt M mod_view tmpl_view emit" and "rec_recorder R = Some emit"
    and "mc_get M name s = Inr m" and "Reconcile_module K M R name s = (out, s')"
    and "has_module_finalizer m"
    and "\<not> (\<exists>m'. mod_view s' name = Some m' \<and> has_module_finalizer m')"
    and "at_most_one_ref (m_status m)"
  shows "deletion_timestamp (m_meta m) \<noteq> None
    \<and> (case mst_helm_release_ref (m_status m) of None \<Rightarrow> True
       | Some r \<Rightarrow> ar_namespace r = '''' \<or> gone_or_terminating (view s') (HelmReleaseKind, ar_namespace r, name))
    \<and> (case mst_kustomization_ref (m_status m) of None \<Rightarrow> True
       | Some r \<Rightarrow> ar_namespace r = '''' \<or> gone_or_terminating (view s') (KustomizationKind, ar_namespace r, name))"
proof -
  obtain t where del: "deletion_timestamp (m_meta m) \<noteq> None"
    and clean: "cleanup_flux K m (resolveCleanupNamespace K M m s) s = (None, t)" and t: "view s' = view t"
    using module_store.reconcile_module_guard [OF assms(1-6)] by blast
  have K: "kube_api K view dflt" using assms(1) by (simp add: module_store_def)
  have name: "m_name m = name" using module_store.mod_get_ok [OF assms(1,3)] by simp
  note done_cleanup = reconcile_step.step_goal [OF kube_api.cleanup_flux_step [OF K] clean]
  show ?thesis
    using del done_cleanup t name assms(7)
    by (auto simp: resolveCleanupNamespace_def Let_def at_most_one_ref_def split: option.splits if_splits)
qed

definition app_deleted :: module where
  "app_deleted = app_fin\<lparr> m_meta := (m_meta app_fin)\<lparr> deletion_timestamp := Some 9 \<rparr>,
     m_status := empty_module_status\<lparr> mst_helm_release_ref :=
       Some \<lparr> ar_name = ''app'', ar_namespace = ''apps'' \<rparr> \<rparr> \<rparr>"

definition deleting_cluster :: mem where
  "deleting_cluster = settled_cluster\<lparr> mem_modules := [app_deleted] \<rparr>"

lemma deleting_simps [simp]: "mem_get_module ''app'' deleting_cluster = Inr app_deleted"
  using same_but_finalizers_simps(1) [OF app_fin_same]
  by (simp add: deleting_cluster_def mem_get_module_def mem_mod_def keyed_def app_deleted_def)

theorem finalizer_guards_cleanup_witness:
  "gone_or_terminating (mem_view all_kinds (snd (app_run deleting_cluster))) (HelmReleaseKind, ''apps'', ''app'')"
proof -
  obtain out s' where run:
    "Reconcile_module (mem_kube all_kinds) mem_mc mem_rec ''app'' deleting_cluster = (out, s')" by force
  have "mem_mod (snd (app_run deleting_cluster)) ''app'' = None"
    unfolding Option.is_none_def [symmetric] by code_simp
  then have lost: "\<not> (\<exists>m'. mem_mod s' ''app'' = Some m' \<and> has_module_finalizer m')"
    using run by (simp add: app_run_def)
  note guard = finalizer_guards_cleanup [OF mem_module_store.module_store_axioms [of all_kinds],
      where R = mem_rec and name = "''app''" and s = deleting_cluster and m = app_deleted
        and out = out and s' = s']
  show ?thesis
    using guard run lost
    by (simp add: app_run_def app_deleted_def app_fin_def has_module_finalizer_def at_most_one_ref_def
        empty_module_status_def)
qed

section \<open>Errors and status\<close>

text \<open>
  C33: Retries. With a recorder, the reconciliation of a live Module never panics, and every
  error it returns (and so retries) comes from the client: a missing or an empty template is
  reported in the status and waits for the template to change.
\<close>

theorem permanent_errors_not_retried:
  assumes "module_store K view dflt M mod_view tmpl_view emit" and "rec_recorder R = Some emit"
    and "Reconcile_module K M R name s = (out, s')"
    and "mc_get M name s = Inr m" and "deletion_timestamp (m_meta m) = None"
  shows "\<exists>r. out = Returns r \<and> (case r of None \<Rightarrow> True | Some e \<Rightarrow> external e)"
  using module_store.reconcile_module_errors [OF assms] by (auto split: option.splits)

definition no_template_cluster :: mem where
  "no_template_cluster = app_cluster\<lparr> mem_templates := [] \<rparr>"

lemma no_template_get [simp]: "mem_get_module ''app'' no_template_cluster = Inr app"
  by (simp add: no_template_cluster_def app_cluster_def mem_get_module_def mem_mod_def keyed_def
      app_def app_meta_def object_meta_named_def)

theorem permanent_errors_not_retried_witness:
  "\<exists>r. fst (app_run no_template_cluster) = Returns r
     \<and> (case r of None \<Rightarrow> True | Some e \<Rightarrow> external e)"
  using permanent_errors_not_retried [OF mem_module_store.module_store_axioms, of mem_rec all_kinds
      "''app''" no_template_cluster "fst (app_run no_template_cluster)" "snd (app_run no_template_cluster)" app]
  by (simp add: app_run_def)

text \<open>
  Mirrored readiness. The status computed after the Flux resource has been written says
  Ready True exactly when the Flux resource is read back with a Ready condition that is True.
\<close>

theorem module_ready_mirrors_flux:
  assumes "condition_api K" and "desired_flux m mt = Some (kd, sp)"
  shows "(\<exists>c. ready_of (mst_conditions (updated_status_module K m mt s)) = Some c
      \<and> cond_status c = ConditionTrue) \<longleftrightarrow>
    (\<exists>ob c. k_get K (flux_key m mt kd) s = Inr ob \<and> ready_of (obj_conditions ob) = Some c
       \<and> cond_status c = ConditionTrue)"
  by (rule condition_api.module_ready_iff [OF assms])

theorem module_ready_mirrors_flux_witness:
  "\<not> (\<exists>c. ready_of (mst_conditions (updated_status_module (mem_kube all_kinds) app chart app_cluster)) = Some c
      \<and> cond_status c = ConditionTrue)"
  using module_ready_mirrors_flux [OF mem_conditions.condition_api_axioms app_flux, of all_kinds app_cluster]
  by (simp add: mem_get_def)

text \<open>
  One reference. A reconciliation keeps the invariant that the stored status of a Module
  refers to at most one Flux resource, a HelmRelease or a Kustomization.
\<close>

theorem at_most_one_ref_invariant:
  assumes "module_store K view dflt M mod_view tmpl_view emit" and "rec_recorder R = Some emit"
    and "mc_get M name s = Inr m" and "Reconcile_module K M R name s = (out, s')"
    and "at_most_one_ref (m_status m)" and "mod_view s' name = Some m'"
  shows "at_most_one_ref (m_status m')"
  by (rule module_store.reconcile_module_one_ref [OF assms])

theorem at_most_one_ref_invariant_witness:
  "\<exists>m'. mem_mod app_done ''app'' = Some m' \<and> at_most_one_ref (m_status m')"
proof -
  have "mem_mod app_done ''app'' \<noteq> None"
    using module_store.reconcile_module_ok [OF mem_module_store.module_store_axioms _ _ _ app_run_ok, of app]
    by auto
  then obtain m' where m': "mem_mod app_done ''app'' = Some m'" by blast
  from at_most_one_ref_invariant [OF mem_module_store.module_store_axioms _ _ app_run_ok _ m', of app] m'
  show ?thesis by (simp add: at_most_one_ref_def empty_module_status_def)
qed

section \<open>Shortfalls\<close>

text \<open>
  C38: The Module reconciler that \<open>main\<close> constructs has no event recorder. Whenever it has
  something to report on a live Module with the finalizer, that is a missing template, a
  resource that could not be written, or a changed status that was stored, it panics.
\<close>

theorem main_module_reconciler_panics:
  assumes "mc_get M name s = Inr m" and "deletion_timestamp (m_meta m) = None"
    and "k_contains_finalizer K (m_meta m) ModuleFinalizer"
    and "case fetchModuleTemplate K M (ms_template_ref (m_spec m)) s of
        Inl _ \<Rightarrow> True
      | Inr mt \<Rightarrow>
          (case reconcileResources_module K m mt '''' s of
             (Some _, _) \<Rightarrow> True
           | (None, t) \<Rightarrow> \<not> mc_status_equal M (m_status m) (updated_status_module K m mt t)
               \<and> fst (mc_patch_status M m (m\<lparr> m_status := updated_status_module K m mt t \<rparr>) t) = None)"
  shows "fst (Reconcile_module K M main_module_reconciler name s) = Panics"
proof -
  have rec: "rec_recorder main_module_reconciler = None" "rec_version main_module_reconciler = ''''"
    by (simp_all add: main_module_reconciler_def)
  have err: "fst (handleReconcileError_module K M main_module_reconciler m e t) = Panics" for e t
    by (simp add: handleReconcileError_module_def Let_def event_then_nil [OF rec(1)] split: option.split)
  have "fst (sync_module K M main_module_reconciler m s) = Panics"
    using assms(4) err
    by (auto simp: sync_module_def rec updateStatus_module_def Let_def event_then_nil [OF rec(1)]
        split: sum.splits prod.splits option.splits)
  with assms(1-3) show ?thesis by (simp add: Reconcile_module_def ensure_finalizer_def)
qed

theorem main_module_reconciler_panics_witness:
  "fst (Reconcile_module (mem_kube all_kinds) mem_mc main_module_reconciler ''app''
     (settled_cluster\<lparr> mem_templates := [] \<rparr>)) = Panics"
proof (rule main_module_reconciler_panics)
  show "mc_get mem_mc ''app'' (settled_cluster\<lparr> mem_templates := [] \<rparr>) = Inr app_fin"
    using settled_simps(1) by (simp add: mem_get_module_def mem_mod_def)
qed (simp_all add: app_fin_def app_meta_def mem_contains_finalizer_def fetchModuleTemplate_def
    mem_get_template_def mem_tmpl_def keyed_def object_meta_named_def not_found_def mem_is_not_found_def
    app_def)

end
