(* ===== verification/Go_Heap.thy ===== *)
theory Go_Heap
  imports Main
begin

text \<open>
  Memory of a Go program, as far as the deep copies of the API types need it: a heap of cells
  that grows by allocation, pointers that may be nil, slices over arrays, and the contract of a
  deep copy with the rules that build the copy of a pointer, a slice or a struct from the copies
  of its parts. The type of the cells is a parameter; the API packages provide it.

  A function that works on memory takes the heap and returns its result with the next heap, or
  \<open>None\<close> for a run-time panic (a dangling or ill-typed reference, which Go's type system rules
  out, or an index out of range). A struct is a value; copying into \<open>*out\<close> returns the value
  stored there. The generated code allocates with \<open>new\<close> or \<open>make\<close> and then fills the cell;
  nothing reads the cell in between, and the model allocates it filled.
\<close>

section \<open>The heap\<close>

type_synonym addr = nat
type_synonym 'c heap = "'c list"
type_synonym ('c, 'a) mem_op = "'c heap \<Rightarrow> ('a \<times> 'c heap) option"

definition cell_at :: "'c heap \<Rightarrow> addr \<Rightarrow> 'c option" where
  "cell_at h a = (if a < length h then Some (h ! a) else None)"

definition alloc :: "'c \<Rightarrow> ('c, addr) mem_op" where
  "alloc c h = Some (length h, h @ [c])"

text \<open>A load through a pointer to a type whose cells \<open>proj\<close> recognises.\<close>

definition load :: "('c \<Rightarrow> 'v option) \<Rightarrow> 'c heap \<Rightarrow> addr \<Rightarrow> 'v option" where
  "load proj h a = (case cell_at h a of None \<Rightarrow> None | Some c \<Rightarrow> proj c)"

text \<open>A slice is nil or refers to a part of an array: its cell, an offset and a length.\<close>

datatype slice = NilSlice | Slice addr nat nat

definition elements :: "('c \<Rightarrow> 'v list option) \<Rightarrow> 'c heap \<Rightarrow> slice \<Rightarrow> 'v list option" where
  "elements proj h sl =
     (case sl of
        NilSlice \<Rightarrow> Some []
      | Slice a off n \<Rightarrow>
          (case load proj h a of
             None \<Rightarrow> None
           | Some xs \<Rightarrow> if off + n \<le> length xs then Some (take n (drop off xs)) else None))"

text \<open>A list of stores through pointers, in order.\<close>

definition stores :: "(addr \<times> 'c) list \<Rightarrow> 'c heap \<Rightarrow> 'c heap" where
  "stores ws h = fold (\<lambda>(a, c) h. h[a := c]) ws h"

lemma stores_simps [simp]: "stores [] h = h" "stores ((a, c) # ws) h = stores ws (h[a := c])"
  by (simp_all add: stores_def)

lemma cell_at_update: "cell_at (h[b := c]) a = (if a = b \<and> b < length h then Some c else cell_at h a)"
  by (simp add: cell_at_def)

lemma cell_at_stores: "a \<notin> fst ` set ws \<Longrightarrow> cell_at (stores ws h) a = cell_at h a"
  by (induction ws arbitrary: h) (auto simp: cell_at_update)

lemma cell_at_append [simp]: "a < length h \<Longrightarrow> cell_at (h @ e) a = cell_at h a"
  by (simp add: cell_at_def nth_append)

lemma cell_at_new [simp]: "cell_at (h @ [c]) (length h) = Some c"
  by (simp add: cell_at_def)

lemma load_cong: "cell_at h' a = cell_at h a \<Longrightarrow> load proj h' a = load proj h a"
  by (simp add: load_def)

lemma load_bound: "load proj h a = Some v \<Longrightarrow> a < length h"
  by (auto simp: load_def cell_at_def split: option.splits if_splits)

section \<open>The contract of a deep copy\<close>

text \<open>
  For the values of one Go type: \<open>view\<close> is the value a reader sees when it follows every
  reference (\<open>None\<close> if a reference dangles), \<open>reach\<close> lists the cells it reads, and \<open>copy\<close> is
  the method \<open>DeepCopyInto\<close>. The contract: what is seen depends on the reachable cells only,
  and copying a value that can be read succeeds, only allocates, is seen as the same value, and
  reaches new cells only, each of them once: the copy is a tree, whatever the original shares.
\<close>

definition fresh_cells :: "nat \<Rightarrow> addr list \<Rightarrow> bool" where
  "fresh_cells n as \<longleftrightarrow> distinct as \<and> (\<forall>a \<in> set as. n \<le> a)"

lemma fresh_cells_Nil [simp]: "fresh_cells n []"
  by (simp add: fresh_cells_def)

lemma fresh_cells_append:
  "fresh_cells n as \<Longrightarrow> fresh_cells m bs \<Longrightarrow> (\<And>a. a \<in> set as \<Longrightarrow> a < m) \<Longrightarrow> n \<le> m \<Longrightarrow>
     fresh_cells n (as @ bs)"
  by (fastforce simp: fresh_cells_def)

lemma fresh_cells_Cons:
  "fresh_cells n as \<Longrightarrow> (\<And>a. a \<in> set as \<Longrightarrow> a < m) \<Longrightarrow> n \<le> m \<Longrightarrow> fresh_cells n (m # as)"
  by (fastforce simp: fresh_cells_def)

locale deep_copyable =
  fixes view :: "'c heap \<Rightarrow> 'v \<Rightarrow> 'a option"
    and reach :: "'c heap \<Rightarrow> 'v \<Rightarrow> addr list"
    and copy :: "'v \<Rightarrow> ('c, 'v) mem_op"
  assumes reach_bound: "view h v = Some x \<Longrightarrow> a \<in> set (reach h v) \<Longrightarrow> a < length h"
    and view_local:
      "view h v = Some x \<Longrightarrow> (\<And>a. a \<in> set (reach h v) \<Longrightarrow> cell_at h' a = cell_at h a) \<Longrightarrow>
         view h' v = Some x \<and> reach h' v = reach h v"
    and copy_ok:
      "view h v = Some x \<Longrightarrow> \<exists>v' e. copy v h = Some (v', h @ e) \<and> view (h @ e) v' = Some x
         \<and> fresh_cells (length h) (reach (h @ e) v')"
begin

lemma view_append:
  assumes "view h v = Some x"
  shows "view (h @ e) v = Some x" and "reach (h @ e) v = reach h v"
  using view_local [OF assms, of "h @ e"] reach_bound [OF assms] by simp_all

text \<open>The same as a statement about every later heap in which those cells are intact.\<close>

lemma view_intact:
  assumes "view h v = Some x" and "\<And>a. a \<in> set (reach h v) \<Longrightarrow> cell_at h' a = cell_at h a"
  shows "view h' v = Some x"
  using view_local [OF assms] by blast

text \<open>Whatever is written later to the cells of the original, the copy is seen unchanged.\<close>

lemma copy_unaffected:
  assumes "view h v = Some x" and "copy v h = Some (v', h')"
    and "\<And>a. length h \<le> a \<Longrightarrow> a < length h' \<Longrightarrow> cell_at h'' a = cell_at h' a"
  shows "view h'' v' = Some x"
proof -
  obtain e where h': "h' = h @ e" and v': "view h' v' = Some x"
    and fresh: "\<And>a. a \<in> set (reach h' v') \<Longrightarrow> length h \<le> a"
    using copy_ok [OF assms(1)] assms(2) by (auto simp: fresh_cells_def)
  have "cell_at h'' a = cell_at h' a" if "a \<in> set (reach h' v')" for a
    using assms(3) fresh [OF that] reach_bound [OF v' that] by simp
  with view_local [OF v'] show ?thesis by blast
qed

text \<open>And whatever is written to the cells of the copy, the original is seen unchanged.\<close>

lemma original_unaffected:
  assumes "view h v = Some x" and "copy v h = Some (v', h')"
    and "\<And>a. a < length h \<Longrightarrow> cell_at h'' a = cell_at h' a"
  shows "view h'' v = Some x"
proof -
  have "\<exists>e. h' = h @ e" using copy_ok [OF assms(1)] assms(2) by auto
  then have "cell_at h'' a = cell_at h a" if "a \<in> set (reach h v)" for a
    using assms(3) reach_bound [OF assms(1) that] by auto
  with view_local [OF assms(1)] show ?thesis by blast
qed

end

section \<open>Values without references\<close>

text \<open>\<open>*out = *in\<close> for a type that has no reference in it.\<close>

definition copy_flat :: "'v \<Rightarrow> ('c, 'v) mem_op" where
  "copy_flat v h = Some (v, h)"

definition view_flat :: "'c heap \<Rightarrow> 'v \<Rightarrow> 'v option" where
  "view_flat h v = Some v"

definition reach_flat :: "'c heap \<Rightarrow> 'v \<Rightarrow> addr list" where
  "reach_flat h v = []"

lemma deep_copyable_flat: "deep_copyable view_flat reach_flat copy_flat"
  by unfold_locales (auto simp: view_flat_def reach_flat_def copy_flat_def)

text \<open>A reader that decodes what it sees, and rejects what it cannot decode.\<close>

lemma deep_copyable_decode:
  fixes view :: "'c heap \<Rightarrow> 'v \<Rightarrow> 'a option"
  assumes C: "deep_copyable view reach copy"
  shows "deep_copyable (\<lambda>h v. case view h v of None \<Rightarrow> None | Some y \<Rightarrow> f y) reach copy"
proof
  fix h h' :: "'c heap" and v x
  assume seen: "(case view h v of None \<Rightarrow> None | Some y \<Rightarrow> f y) = Some x"
  then obtain y where y: "view h v = Some y" "f y = Some x" by (auto split: option.splits)
  show "a < length h" if "a \<in> set (reach h v)" for a
    using deep_copyable.reach_bound [OF C y(1) that] .
  show "(case view h' v of None \<Rightarrow> None | Some y \<Rightarrow> f y) = Some x \<and> reach h' v = reach h v"
    if "\<And>a. a \<in> set (reach h v) \<Longrightarrow> cell_at h' a = cell_at h a"
    using deep_copyable.view_local [OF C y(1) that] y(2) by simp
  show "\<exists>v' e. copy v h = Some (v', h @ e)
      \<and> (case view (h @ e) v' of None \<Rightarrow> None | Some y \<Rightarrow> f y) = Some x
      \<and> fresh_cells (length h) (reach (h @ e) v')"
    using deep_copyable.copy_ok [OF C y(1)] y(2) by fastforce
qed

section \<open>Pointers\<close>

text \<open>
  \<open>if in != nil { *out = new(T); (*in).DeepCopyInto(*out) }\<close>, and the method \<open>DeepCopy\<close> on a
  pointer: nil stays nil, otherwise a new cell is filled with the copy of the value.
\<close>

definition copy_ptr ::
  "('c \<Rightarrow> 'v option) \<Rightarrow> ('v \<Rightarrow> 'c) \<Rightarrow> ('v \<Rightarrow> ('c, 'v) mem_op) \<Rightarrow> addr option \<Rightarrow> ('c, addr option) mem_op" where
  "copy_ptr proj mk copy p h =
     (case p of
        None \<Rightarrow> Some (None, h)
      | Some a \<Rightarrow>
          (case load proj h a of
             None \<Rightarrow> None
           | Some v \<Rightarrow>
               (case copy v h of
                  None \<Rightarrow> None
                | Some (v', h') \<Rightarrow>
                    (case alloc (mk v') h' of None \<Rightarrow> None | Some (b, h'') \<Rightarrow> Some (Some b, h'')))))"

definition view_ptr ::
  "('c \<Rightarrow> 'v option) \<Rightarrow> ('c heap \<Rightarrow> 'v \<Rightarrow> 'a option) \<Rightarrow> 'c heap \<Rightarrow> addr option \<Rightarrow> 'a option option" where
  "view_ptr proj view h p =
     (case p of
        None \<Rightarrow> Some None
      | Some a \<Rightarrow> (case load proj h a of None \<Rightarrow> None | Some v \<Rightarrow> map_option Some (view h v)))"

definition reach_ptr ::
  "('c \<Rightarrow> 'v option) \<Rightarrow> ('c heap \<Rightarrow> 'v \<Rightarrow> addr list) \<Rightarrow> 'c heap \<Rightarrow> addr option \<Rightarrow> addr list" where
  "reach_ptr proj reach h p =
     (case p of
        None \<Rightarrow> []
      | Some a \<Rightarrow> a # (case load proj h a of None \<Rightarrow> [] | Some v \<Rightarrow> reach h v))"

lemma deep_copyable_ptr:
  fixes view :: "'c heap \<Rightarrow> 'v \<Rightarrow> 'a option"
  assumes C: "deep_copyable view reach copy" and mk: "\<And>v. proj (mk v) = Some v"
  shows "deep_copyable (view_ptr proj view) (reach_ptr proj reach) (copy_ptr proj mk copy)"
proof
  fix h :: "'c heap" and p x a
  assume "view_ptr proj view h p = Some x" and "a \<in> set (reach_ptr proj reach h p)"
  then show "a < length h"
    by (auto simp: view_ptr_def reach_ptr_def load_bound deep_copyable.reach_bound [OF C]
        split: option.splits)
next
  fix h h' :: "'c heap" and p x
  assume view: "view_ptr proj view h p = Some x"
    and same: "\<And>a. a \<in> set (reach_ptr proj reach h p) \<Longrightarrow> cell_at h' a = cell_at h a"
  show "view_ptr proj view h' p = Some x \<and> reach_ptr proj reach h' p = reach_ptr proj reach h p"
  proof (cases p)
    case None
    with view show ?thesis by (simp add: view_ptr_def reach_ptr_def)
  next
    case (Some a)
    then obtain v y where v: "load proj h a = Some v" "view h v = Some y" "x = Some y"
      using view by (auto simp: view_ptr_def split: option.splits)
    then have "load proj h' a = Some v" "view h' v = Some y \<and> reach h' v = reach h v"
      using same Some load_cong [of h' a h proj] deep_copyable.view_local [OF C v(2), of h']
      by (auto simp: reach_ptr_def)
    with Some v show ?thesis by (simp add: view_ptr_def reach_ptr_def)
  qed
next
  fix h :: "'c heap" and p x
  assume view: "view_ptr proj view h p = Some x"
  show "\<exists>p' e. copy_ptr proj mk copy p h = Some (p', h @ e) \<and> view_ptr proj view (h @ e) p' = Some x
      \<and> fresh_cells (length h) (reach_ptr proj reach (h @ e) p')"
  proof (cases p)
    case None
    with view show ?thesis by (simp add: view_ptr_def reach_ptr_def copy_ptr_def)
  next
    case (Some a)
    then obtain v y where v: "load proj h a = Some v" "view h v = Some y" "x = Some y"
      using view by (auto simp: view_ptr_def split: option.splits)
    obtain v' e where c: "copy v h = Some (v', h @ e)" "view (h @ e) v' = Some y"
      "fresh_cells (length h) (reach (h @ e) v')"
      using deep_copyable.copy_ok [OF C v(2)] by blast
    have cell: "load proj ((h @ e) @ [mk v']) (length (h @ e)) = Some v'"
      using cell_at_new [of "h @ e" "mk v'"] by (simp add: load_def mk del: append_assoc)
    have "copy_ptr proj mk copy p h = Some (Some (length (h @ e)), (h @ e) @ [mk v'])"
      by (simp add: copy_ptr_def Some v c alloc_def)
    then show ?thesis
      using cell v(3) deep_copyable.view_append [OF C c(2), of "[mk v']"]
        fresh_cells_Cons [OF c(3) deep_copyable.reach_bound [OF C c(2)]]
      by (intro exI [of _ "Some (length (h @ e))"] exI [of _ "e @ [mk v']"])
        (simp add: view_ptr_def reach_ptr_def)
  qed
qed

section \<open>Lists and slices\<close>

text \<open>The loop \<open>for i := range *in { (*in)[i].DeepCopyInto(&(*out)[i]) }\<close>.\<close>

primrec copy_list :: "('v \<Rightarrow> ('c, 'v) mem_op) \<Rightarrow> 'v list \<Rightarrow> ('c, 'v list) mem_op" where
  "copy_list copy [] h = Some ([], h)"
| "copy_list copy (v # vs) h =
     (case copy v h of
        None \<Rightarrow> None
      | Some (v', h') \<Rightarrow>
          (case copy_list copy vs h' of None \<Rightarrow> None | Some (vs', h'') \<Rightarrow> Some (v' # vs', h'')))"

primrec view_list :: "('c heap \<Rightarrow> 'v \<Rightarrow> 'a option) \<Rightarrow> 'c heap \<Rightarrow> 'v list \<Rightarrow> 'a list option" where
  "view_list view h [] = Some []"
| "view_list view h (v # vs) =
     (case view h v of None \<Rightarrow> None | Some x \<Rightarrow> map_option ((#) x) (view_list view h vs))"

definition reach_list :: "('c heap \<Rightarrow> 'v \<Rightarrow> addr list) \<Rightarrow> 'c heap \<Rightarrow> 'v list \<Rightarrow> addr list" where
  "reach_list reach h vs = concat (map (reach h) vs)"

lemma reach_list_simps [simp]:
  "reach_list reach h [] = []" "reach_list reach h (v # vs) = reach h v @ reach_list reach h vs"
  by (simp_all add: reach_list_def)

lemma view_list_length: "view_list view h vs = Some xs \<Longrightarrow> length xs = length vs"
  by (induction vs arbitrary: xs) (auto split: option.splits)

lemma deep_copyable_list:
  fixes view :: "'c heap \<Rightarrow> 'v \<Rightarrow> 'a option"
  assumes C: "deep_copyable view reach copy"
  shows "deep_copyable (view_list view) (reach_list reach) (copy_list copy)"
proof
  show "a < length h" if "view_list view h vs = Some x" "a \<in> set (reach_list reach h vs)"
    for h :: "'c heap" and vs x a
    using that by (induction vs arbitrary: x)
      (auto dest: deep_copyable.reach_bound [OF C] split: option.splits)
next
  show "view_list view h' vs = Some x \<and> reach_list reach h' vs = reach_list reach h vs"
    if "view_list view h vs = Some x"
      "\<And>a. a \<in> set (reach_list reach h vs) \<Longrightarrow> cell_at h' a = cell_at h a"
    for h h' :: "'c heap" and vs x
    using that
  proof (induction vs arbitrary: x)
    case (Cons v vs)
    then obtain y ys where y: "view h v = Some y" "view_list view h vs = Some ys" "x = y # ys"
      by (auto split: option.splits)
    then show ?case
      using Cons.IH [OF y(2)] Cons.prems(2) deep_copyable.view_local [OF C y(1), of h'] by simp
  qed simp
next
  show "\<exists>vs' e. copy_list copy vs h = Some (vs', h @ e) \<and> view_list view (h @ e) vs' = Some x
      \<and> fresh_cells (length h) (reach_list reach (h @ e) vs')"
    if "view_list view h vs = Some x" for h :: "'c heap" and vs x
    using that
  proof (induction vs arbitrary: h x)
    case Nil
    then show ?case by simp
  next
    case (Cons v vs)
    then obtain y ys where y: "view h v = Some y" "view_list view h vs = Some ys" "x = y # ys"
      by (auto split: option.splits)
    obtain v' e where v': "copy v h = Some (v', h @ e)" "view (h @ e) v' = Some y"
      "fresh_cells (length h) (reach (h @ e) v')"
      using deep_copyable.copy_ok [OF C y(1)] by blast
    have "view_list view (h @ e) vs = Some ys"
      using y(2) by (induction vs arbitrary: ys)
        (auto dest: deep_copyable.view_append(1) [OF C, where e = e] split: option.splits)
    from Cons.IH [OF this] obtain vs' e' where
      vs': "copy_list copy vs (h @ e) = Some (vs', (h @ e) @ e')"
      "view_list view ((h @ e) @ e') vs' = Some ys"
      "fresh_cells (length (h @ e)) (reach_list reach ((h @ e) @ e') vs')"
      by blast
    have "fresh_cells (length h) (reach (h @ e) v' @ reach_list reach ((h @ e) @ e') vs')"
      by (rule fresh_cells_append [OF v'(3) vs'(3) deep_copyable.reach_bound [OF C v'(2)]]) simp_all
    with v' vs'(1,2) y(3) deep_copyable.view_append [OF C v'(2), of e'] show ?case
      by (intro exI [of _ "v' # vs'"] exI [of _ "e @ e'"]) auto
  qed
qed

text \<open>
  \<open>if in != nil { *out = make([]T, len(*in)); ... }\<close>: a nil slice stays nil, otherwise a new
  array of the same length is filled. \<open>copy(*out, *in)\<close> of the flat types is the same loop.
\<close>

definition copy_slice ::
  "('c \<Rightarrow> 'v list option) \<Rightarrow> ('v list \<Rightarrow> 'c) \<Rightarrow> ('v \<Rightarrow> ('c, 'v) mem_op) \<Rightarrow> slice \<Rightarrow> ('c, slice) mem_op" where
  "copy_slice proj mk copy sl h =
     (if sl = NilSlice then Some (NilSlice, h)
      else
        (case elements proj h sl of
           None \<Rightarrow> None
         | Some vs \<Rightarrow>
             (case copy_list copy vs h of
                None \<Rightarrow> None
              | Some (vs', h') \<Rightarrow>
                  (case alloc (mk vs') h' of
                     None \<Rightarrow> None | Some (b, h'') \<Rightarrow> Some (Slice b 0 (length vs'), h'')))))"

definition view_slice ::
  "('c \<Rightarrow> 'v list option) \<Rightarrow> ('c heap \<Rightarrow> 'v \<Rightarrow> 'a option) \<Rightarrow> 'c heap \<Rightarrow> slice \<Rightarrow> 'a list option" where
  "view_slice proj view h sl =
     (case elements proj h sl of None \<Rightarrow> None | Some vs \<Rightarrow> view_list view h vs)"

definition reach_slice ::
  "('c \<Rightarrow> 'v list option) \<Rightarrow> ('c heap \<Rightarrow> 'v \<Rightarrow> addr list) \<Rightarrow> 'c heap \<Rightarrow> slice \<Rightarrow> addr list" where
  "reach_slice proj reach h sl =
     (case sl of NilSlice \<Rightarrow> [] | Slice a off n \<Rightarrow> [a])
     @ (case elements proj h sl of None \<Rightarrow> [] | Some vs \<Rightarrow> reach_list reach h vs)"

lemma elements_bound: "elements proj h (Slice a off n) = Some vs \<Longrightarrow> a < length h"
  by (auto simp: elements_def dest: load_bound split: option.splits)

lemma elements_cong:
  "(\<And>a off n. sl = Slice a off n \<Longrightarrow> cell_at h' a = cell_at h a) \<Longrightarrow>
     elements proj h' sl = elements proj h sl"
  by (cases sl) (simp_all add: elements_def load_def)

lemma deep_copyable_slice:
  fixes view :: "'c heap \<Rightarrow> 'v \<Rightarrow> 'a option"
  assumes C: "deep_copyable view reach copy" and mk: "\<And>vs. proj (mk vs) = Some vs"
  shows "deep_copyable (view_slice proj view) (reach_slice proj reach) (copy_slice proj mk copy)"
proof
  fix h :: "'c heap" and sl x a
  assume "view_slice proj view h sl = Some x" and "a \<in> set (reach_slice proj reach h sl)"
  then show "a < length h"
    by (auto simp: view_slice_def reach_slice_def dest: elements_bound
        deep_copyable.reach_bound [OF deep_copyable_list [OF C]] split: option.splits slice.splits)
next
  fix h h' :: "'c heap" and sl x
  assume view: "view_slice proj view h sl = Some x"
    and same: "\<And>a. a \<in> set (reach_slice proj reach h sl) \<Longrightarrow> cell_at h' a = cell_at h a"
  then obtain vs where vs: "elements proj h sl = Some vs" "view_list view h vs = Some x"
    by (auto simp: view_slice_def split: option.splits)
  have "elements proj h' sl = Some vs"
    using elements_cong [of sl h' h proj] same vs(1) by (simp add: reach_slice_def)
  with vs same deep_copyable.view_local [OF deep_copyable_list [OF C] vs(2), of h']
  show "view_slice proj view h' sl = Some x \<and> reach_slice proj reach h' sl = reach_slice proj reach h sl"
    by (simp add: view_slice_def reach_slice_def)
next
  fix h :: "'c heap" and sl x
  assume view: "view_slice proj view h sl = Some x"
  show "\<exists>sl' e. copy_slice proj mk copy sl h = Some (sl', h @ e)
      \<and> view_slice proj view (h @ e) sl' = Some x
      \<and> fresh_cells (length h) (reach_slice proj reach (h @ e) sl')"
  proof (cases "sl = NilSlice")
    case True
    with view show ?thesis by (simp add: view_slice_def reach_slice_def copy_slice_def elements_def)
  next
    case False
    obtain vs where vs: "elements proj h sl = Some vs" "view_list view h vs = Some x"
      using view by (auto simp: view_slice_def split: option.splits)
    obtain vs' e where c: "copy_list copy vs h = Some (vs', h @ e)" "view_list view (h @ e) vs' = Some x"
      "fresh_cells (length h) (reach_list reach (h @ e) vs')"
      using deep_copyable.copy_ok [OF deep_copyable_list [OF C] vs(2)] by blast
    have cell: "elements proj ((h @ e) @ [mk vs']) (Slice (length (h @ e)) 0 (length vs')) = Some vs'"
      using cell_at_new [of "h @ e" "mk vs'"] by (simp add: elements_def load_def mk del: append_assoc)
    have "copy_slice proj mk copy sl h = Some (Slice (length (h @ e)) 0 (length vs'), (h @ e) @ [mk vs'])"
      by (simp add: copy_slice_def False vs c alloc_def)
    then show ?thesis
      using cell deep_copyable.view_append [OF deep_copyable_list [OF C] c(2), of "[mk vs']"]
        fresh_cells_Cons [OF c(3) deep_copyable.reach_bound [OF deep_copyable_list [OF C] c(2)]]
      by (intro exI [of _ "Slice (length (h @ e)) 0 (length vs')"] exI [of _ "e @ [mk vs']"])
        (simp add: view_slice_def reach_slice_def)
  qed
qed

section \<open>Structs\<close>

text \<open>
  The generated body for a struct is \<open>*out = *in\<close>, followed by one statement for each field that
  holds references, in the order of the fields. A statement reads the field of \<open>in\<close> and stores
  its copy in the field of \<open>out\<close>.
\<close>

type_synonym ('c, 'v) field_copy = "'v \<Rightarrow> 'v \<Rightarrow> ('c, 'v) mem_op"

definition copy_field ::
  "('v \<Rightarrow> 'f) \<Rightarrow> ('f \<Rightarrow> 'v \<Rightarrow> 'v) \<Rightarrow> ('f \<Rightarrow> ('c, 'f) mem_op) \<Rightarrow> ('c, 'v) field_copy" where
  "copy_field get put copy inp out h =
     (case copy (get inp) h of None \<Rightarrow> None | Some (x, h') \<Rightarrow> Some (put x out, h'))"

primrec copy_fields :: "('c, 'v) field_copy list \<Rightarrow> 'v \<Rightarrow> 'v \<Rightarrow> ('c, 'v) mem_op" where
  "copy_fields [] inp out h = Some (out, h)"
| "copy_fields (c # cs) inp out h =
     (case c inp out h of None \<Rightarrow> None | Some (out', h') \<Rightarrow> copy_fields cs inp out' h')"

definition copy_struct :: "('c, 'v) field_copy list \<Rightarrow> 'v \<Rightarrow> ('c, 'v) mem_op" where
  "copy_struct cs v h = copy_fields cs v v h"

lemma copy_struct_Nil: "copy_struct [] = copy_flat"
  by (simp add: fun_eq_iff copy_struct_def copy_flat_def)

text \<open>What is seen of a struct: its plain fields (\<open>base\<close>), to which each reference field adds.\<close>

type_synonym ('c, 'v, 'a) field_view = "'c heap \<Rightarrow> 'v \<Rightarrow> 'a \<Rightarrow> 'a option"

definition view_field ::
  "('v \<Rightarrow> 'f) \<Rightarrow> ('c heap \<Rightarrow> 'f \<Rightarrow> 'b option) \<Rightarrow> ('b \<Rightarrow> 'a \<Rightarrow> 'a) \<Rightarrow> ('c, 'v, 'a) field_view" where
  "view_field get view add h v s = map_option (\<lambda>y. add y s) (view h (get v))"

primrec view_fields :: "('c, 'v, 'a) field_view list \<Rightarrow> ('c, 'v, 'a) field_view" where
  "view_fields [] h v s = Some s"
| "view_fields (f # fs) h v s = (case f h v s of None \<Rightarrow> None | Some s' \<Rightarrow> view_fields fs h v s')"

definition view_struct ::
  "('v \<Rightarrow> 'a) \<Rightarrow> ('c, 'v, 'a) field_view list \<Rightarrow> 'c heap \<Rightarrow> 'v \<Rightarrow> 'a option" where
  "view_struct base fs h v = view_fields fs h v (base v)"

definition reach_field ::
  "('v \<Rightarrow> 'f) \<Rightarrow> ('c heap \<Rightarrow> 'f \<Rightarrow> addr list) \<Rightarrow> 'c heap \<Rightarrow> 'v \<Rightarrow> addr list" where
  "reach_field get reach h v = reach h (get v)"

definition reach_struct :: "('c heap \<Rightarrow> 'v \<Rightarrow> addr list) list \<Rightarrow> 'c heap \<Rightarrow> 'v \<Rightarrow> addr list" where
  "reach_struct rs h v = concat (map (\<lambda>r. r h v) rs)"

lemma reach_struct_simps [simp]:
  "reach_struct [] h v = []" "reach_struct (r # rs) h v = r h v @ reach_struct rs h v"
  by (simp_all add: reach_struct_def)

text \<open>The statements \<open>cs\<close> leave what \<open>g\<close> reads of the result alone.\<close>

definition keeps_field :: "('v \<Rightarrow> 'g) \<Rightarrow> ('c, 'v) field_copy list \<Rightarrow> bool" where
  "keeps_field g cs \<longleftrightarrow>
     (\<forall>inp out h out' h'. copy_fields cs inp out h = Some (out', h') \<longrightarrow> g out' = g out)"

lemma keeps_field_Nil [simp]: "keeps_field g []"
  by (simp add: keeps_field_def)

lemma keeps_field_Cons [simp]:
  assumes "\<And>x v. g (put x v) = g v" and "keeps_field g cs"
  shows "keeps_field g (copy_field get put copy # cs)"
  using assms by (fastforce simp: keeps_field_def copy_field_def split: option.splits)

definition struct_fields ::
  "('c, 'v, 'a) field_view list \<Rightarrow> ('c heap \<Rightarrow> 'v \<Rightarrow> addr list) list \<Rightarrow> ('c, 'v) field_copy list \<Rightarrow> bool" where
  "struct_fields vs rs cs \<longleftrightarrow>
     (\<forall>h v s x a. view_fields vs h v s = Some x \<longrightarrow> a \<in> set (reach_struct rs h v) \<longrightarrow> a < length h)
   \<and> (\<forall>h h' v s x. view_fields vs h v s = Some x \<longrightarrow>
        (\<forall>a \<in> set (reach_struct rs h v). cell_at h' a = cell_at h a) \<longrightarrow>
        view_fields vs h' v s = Some x \<and> reach_struct rs h' v = reach_struct rs h v)
   \<and> (\<forall>h inp out s x. view_fields vs h inp s = Some x \<longrightarrow>
        (\<exists>out' e. copy_fields cs inp out h = Some (out', h @ e)
           \<and> view_fields vs (h @ e) out' s = Some x
           \<and> fresh_cells (length h) (reach_struct rs (h @ e) out')))"

lemma struct_fields_bound:
  "struct_fields vs rs cs \<Longrightarrow> view_fields vs h v s = Some x \<Longrightarrow> a \<in> set (reach_struct rs h v) \<Longrightarrow>
     a < length h"
  unfolding struct_fields_def by blast

lemma struct_fields_local:
  "struct_fields vs rs cs \<Longrightarrow> view_fields vs h v s = Some x \<Longrightarrow>
     (\<And>a. a \<in> set (reach_struct rs h v) \<Longrightarrow> cell_at h' a = cell_at h a) \<Longrightarrow>
     view_fields vs h' v s = Some x \<and> reach_struct rs h' v = reach_struct rs h v"
  unfolding struct_fields_def by blast

lemma struct_fields_copy:
  "struct_fields vs rs cs \<Longrightarrow> view_fields vs h inp s = Some x \<Longrightarrow>
     \<exists>out' e. copy_fields cs inp out h = Some (out', h @ e) \<and> view_fields vs (h @ e) out' s = Some x
       \<and> fresh_cells (length h) (reach_struct rs (h @ e) out')"
  unfolding struct_fields_def by blast

lemma struct_fields_Nil: "struct_fields [] [] []"
  by (simp add: struct_fields_def)

lemma struct_fields_Cons:
  fixes view :: "'c heap \<Rightarrow> 'f \<Rightarrow> 'b option" and vs :: "('c, 'v, 'a) field_view list"
  assumes rest: "struct_fields vs rs cs" and C: "deep_copyable view reach copy"
    and put: "\<And>x v. get (put x v) = x" and keeps: "keeps_field get cs"
  shows "struct_fields (view_field get view add # vs) (reach_field get reach # rs)
    (copy_field get put copy # cs)"
  unfolding struct_fields_def
proof (intro conjI allI impI)
  fix h :: "'c heap" and v s x a
  assume "view_fields (view_field get view add # vs) h v s = Some x"
    and "a \<in> set (reach_struct (reach_field get reach # rs) h v)"
  then show "a < length h"
    by (auto simp: view_field_def reach_field_def dest: struct_fields_bound [OF rest]
        deep_copyable.reach_bound [OF C] split: option.splits)
next
  fix h h' :: "'c heap" and v s x
  assume seen: "view_fields (view_field get view add # vs) h v s = Some x"
    and same: "\<forall>a \<in> set (reach_struct (reach_field get reach # rs) h v). cell_at h' a = cell_at h a"
  then obtain y where y: "view h (get v) = Some y" "view_fields vs h v (add y s) = Some x"
    by (auto simp: view_field_def split: option.splits)
  have "view h' (get v) = Some y \<and> reach h' (get v) = reach h (get v)"
    by (rule deep_copyable.view_local [OF C y(1)]) (use same in \<open>simp add: reach_field_def\<close>)
  moreover have "view_fields vs h' v (add y s) = Some x \<and> reach_struct rs h' v = reach_struct rs h v"
    by (rule struct_fields_local [OF rest y(2)]) (use same in simp)
  ultimately show "view_fields (view_field get view add # vs) h' v s = Some x"
    and "reach_struct (reach_field get reach # rs) h' v = reach_struct (reach_field get reach # rs) h v"
    by (simp_all add: view_field_def reach_field_def)
next
  fix h :: "'c heap" and inp out s x
  assume "view_fields (view_field get view add # vs) h inp s = Some x"
  then obtain y where y: "view h (get inp) = Some y" "view_fields vs h inp (add y s) = Some x"
    by (auto simp: view_field_def split: option.splits)
  obtain y' e where y': "copy (get inp) h = Some (y', h @ e)" "view (h @ e) y' = Some y"
    "fresh_cells (length h) (reach (h @ e) y')"
    using deep_copyable.copy_ok [OF C y(1)] by blast
  have "view_fields vs (h @ e) inp (add y s) = Some x"
    using struct_fields_local [OF rest y(2), of "h @ e"] struct_fields_bound [OF rest y(2)] by simp
  from struct_fields_copy [OF rest this, of "put y' out"] obtain out' e' where
    out': "copy_fields cs inp (put y' out) (h @ e) = Some (out', (h @ e) @ e')"
    "view_fields vs ((h @ e) @ e') out' (add y s) = Some x"
    "fresh_cells (length (h @ e)) (reach_struct rs ((h @ e) @ e') out')"
    by blast
  have field: "get out' = y'" using keeps out'(1) put by (fastforce simp: keeps_field_def)
  have y'': "view (h @ e @ e') y' = Some y" "reach (h @ e @ e') y' = reach (h @ e) y'"
    using deep_copyable.view_append [OF C y'(2), of e'] by simp_all
  have r1: "copy_fields (copy_field get put copy # cs) inp out h = Some (out', h @ e @ e')"
    using out'(1) by (simp add: copy_field_def y'(1))
  have r2: "view_fields (view_field get view add # vs) (h @ e @ e') out' s = Some x"
    using out'(2) by (simp add: view_field_def field y'')
  have r3: "fresh_cells (length h) (reach_struct (reach_field get reach # rs) (h @ e @ e') out')"
    using fresh_cells_append [OF y'(3) out'(3) deep_copyable.reach_bound [OF C y'(2)]]
    by (simp add: reach_field_def field y'')
  show "\<exists>out' e. copy_fields (copy_field get put copy # cs) inp out h = Some (out', h @ e)
      \<and> view_fields (view_field get view add # vs) (h @ e) out' s = Some x
      \<and> fresh_cells (length h) (reach_struct (reach_field get reach # rs) (h @ e) out')"
    by (rule exI [of _ out'], rule exI [of _ "e @ e'"], intro conjI) (fact r1, fact r2, fact r3)
qed

lemma deep_copyable_struct:
  assumes F: "struct_fields vs rs cs" and keeps: "keeps_field base cs"
  shows "deep_copyable (view_struct base vs) (reach_struct rs) (copy_struct cs)"
proof
  show "a < length h" if "view_struct base vs h v = Some x" "a \<in> set (reach_struct rs h v)" for h v x a
    using struct_fields_bound [OF F] that unfolding view_struct_def .
  show "view_struct base vs h' v = Some x \<and> reach_struct rs h' v = reach_struct rs h v"
    if "view_struct base vs h v = Some x"
      "\<And>a. a \<in> set (reach_struct rs h v) \<Longrightarrow> cell_at h' a = cell_at h a" for h h' v x
    using struct_fields_local [OF F that(1) [unfolded view_struct_def] that(2)]
    unfolding view_struct_def .
  show "\<exists>v' e. copy_struct cs v h = Some (v', h @ e) \<and> view_struct base vs (h @ e) v' = Some x
      \<and> fresh_cells (length h) (reach_struct rs (h @ e) v')"
    if seen: "view_struct base vs h v = Some x" for h v x
  proof -
    obtain v' e where v': "copy_fields cs v v h = Some (v', h @ e)"
      "view_fields vs (h @ e) v' (base v) = Some x" "fresh_cells (length h) (reach_struct rs (h @ e) v')"
      using struct_fields_copy [OF F seen [unfolded view_struct_def], of v] by blast
    moreover have "base v' = base v" using keeps v'(1) unfolding keeps_field_def by blast
    ultimately show ?thesis by (auto simp: copy_struct_def view_struct_def)
  qed
qed

end
