(* ===== verification/DeepCopy_Types.thy ===== *)
theory DeepCopy_Types
  imports Go_Heap Workspace_Types Module_Types
begin

text \<open>
  The API types as they lie in memory (\<open>api/tenant/v1alpha1\<close>, \<open>api/addons/v1alpha1\<close>): structs
  whose optional fields are pointers and whose lists are slices, and the cells of the heap, one
  constructor for each type the generated code allocates with \<open>new\<close> or \<open>make\<close>. Structs of
  other modules (metadata, conditions, JSON, quota and Flux specs) are values of the type
  variable \<open>'x\<close>; their methods \<open>DeepCopyInto\<close> are the record \<open>imported_methods\<close>, what a reader sees of
  them is the record \<open>imported_views\<close>, and the locale \<open>imported_types\<close> is their contract.
\<close>

section \<open>Structs\<close>

record type_meta =
  tm_kind :: string
  tm_api_version :: string

definition blank_type_meta :: type_meta where
  "blank_type_meta = \<lparr> tm_kind = '''', tm_api_version = '''' \<rparr>"

record go_network_isolation =
  gni_enabled :: bool
  gni_allowed :: slice

record go_member =
  gwm_role :: member_role
  gwm_subject :: string
  gwm_name :: "addr option"

record go_workspace_spec =
  gws_namespace :: string
  gws_members :: slice
  gws_resource_quota :: "addr option"
  gws_limit_range :: "addr option"
  gws_network_isolation :: go_network_isolation

record go_workspace_status =
  gst_observed_generation :: int
  gst_namespace_ref :: "addr option"
  gst_resource_quota_ref :: "addr option"
  gst_limit_range_ref :: "addr option"
  gst_role_binding_refs :: slice
  gst_peer_authentication_ref :: "addr option"
  gst_authorization_policy_ref :: "addr option"
  gst_network_policy_ref :: "addr option"
  gst_conditions :: slice

record 'x go_workspace =
  gw_type_meta :: type_meta
  gw_meta :: 'x
  gw_spec :: go_workspace_spec
  gw_status :: go_workspace_status

record 'x go_list =
  gl_type_meta :: type_meta
  gl_meta :: 'x
  gl_items :: slice

record go_module_spec =
  gms_template_ref :: string
  gms_namespace :: "addr option"
  gms_values :: "addr option"

record go_module_status =
  gmst_observed_generation :: int
  gmst_template_generation :: int
  gmst_helm_release_ref :: "addr option"
  gmst_kustomization_ref :: "addr option"
  gmst_conditions :: slice

record 'x go_module =
  gm_type_meta :: type_meta
  gm_meta :: 'x
  gm_spec :: go_module_spec
  gm_status :: go_module_status

text \<open>\<open>HelmReleaseTemplateSpec\<close> and \<open>KustomizationTemplateSpec\<close> wrap one imported spec each.\<close>

record 'x go_flux_template =
  gft_spec :: 'x

record go_template_spec =
  gts_description :: string
  gts_namespace :: string
  gts_helm_release :: "addr option"
  gts_kustomization :: "addr option"

record go_template_status =
  gtst_observed_generation :: int
  gtst_conditions :: slice

record 'x go_template =
  gt_type_meta :: type_meta
  gt_meta :: 'x
  gt_spec :: go_template_spec
  gt_status :: go_template_status

section \<open>Cells\<close>

datatype 'x cell =
    StringCell string
  | StringArray "string list"
  | ImportedCell 'x
  | ImportedArray "'x list"
  | NetworkIsolationCell go_network_isolation
  | ReferenceCell resource_reference
  | ReferenceArray "resource_reference list"
  | MemberCell go_member
  | MemberArray "go_member list"
  | WorkspaceSpecCell go_workspace_spec
  | WorkspaceStatusCell go_workspace_status
  | WorkspaceCell "'x go_workspace"
  | WorkspaceArray "'x go_workspace list"
  | WorkspaceListCell "'x go_list"
  | AddonReferenceCell addon_reference
  | ModuleSpecCell go_module_spec
  | ModuleStatusCell go_module_status
  | ModuleCell "'x go_module"
  | ModuleArray "'x go_module list"
  | ModuleListCell "'x go_list"
  | HelmTemplateCell "'x go_flux_template"
  | KustomizationTemplateCell "'x go_flux_template"
  | TemplateSpecCell go_template_spec
  | TemplateStatusCell go_template_status
  | TemplateCell "'x go_template"
  | TemplateArray "'x go_template list"
  | TemplateListCell "'x go_list"

text \<open>Loads at a type: each accepts the cells of its own type only.\<close>

definition as_StringCell :: "'x cell \<Rightarrow> string option" where
  "as_StringCell c = (case c of StringCell v \<Rightarrow> Some v | _ \<Rightarrow> None)"

definition as_StringArray :: "'x cell \<Rightarrow> (string list) option" where
  "as_StringArray c = (case c of StringArray v \<Rightarrow> Some v | _ \<Rightarrow> None)"

definition as_ImportedCell :: "'x cell \<Rightarrow> 'x option" where
  "as_ImportedCell c = (case c of ImportedCell v \<Rightarrow> Some v | _ \<Rightarrow> None)"

definition as_ImportedArray :: "'x cell \<Rightarrow> ('x list) option" where
  "as_ImportedArray c = (case c of ImportedArray v \<Rightarrow> Some v | _ \<Rightarrow> None)"

definition as_NetworkIsolationCell :: "'x cell \<Rightarrow> go_network_isolation option" where
  "as_NetworkIsolationCell c = (case c of NetworkIsolationCell v \<Rightarrow> Some v | _ \<Rightarrow> None)"

definition as_ReferenceCell :: "'x cell \<Rightarrow> resource_reference option" where
  "as_ReferenceCell c = (case c of ReferenceCell v \<Rightarrow> Some v | _ \<Rightarrow> None)"

definition as_ReferenceArray :: "'x cell \<Rightarrow> (resource_reference list) option" where
  "as_ReferenceArray c = (case c of ReferenceArray v \<Rightarrow> Some v | _ \<Rightarrow> None)"

definition as_MemberCell :: "'x cell \<Rightarrow> go_member option" where
  "as_MemberCell c = (case c of MemberCell v \<Rightarrow> Some v | _ \<Rightarrow> None)"

definition as_MemberArray :: "'x cell \<Rightarrow> (go_member list) option" where
  "as_MemberArray c = (case c of MemberArray v \<Rightarrow> Some v | _ \<Rightarrow> None)"

definition as_WorkspaceSpecCell :: "'x cell \<Rightarrow> go_workspace_spec option" where
  "as_WorkspaceSpecCell c = (case c of WorkspaceSpecCell v \<Rightarrow> Some v | _ \<Rightarrow> None)"

definition as_WorkspaceStatusCell :: "'x cell \<Rightarrow> go_workspace_status option" where
  "as_WorkspaceStatusCell c = (case c of WorkspaceStatusCell v \<Rightarrow> Some v | _ \<Rightarrow> None)"

definition as_WorkspaceCell :: "'x cell \<Rightarrow> ('x go_workspace) option" where
  "as_WorkspaceCell c = (case c of WorkspaceCell v \<Rightarrow> Some v | _ \<Rightarrow> None)"

definition as_WorkspaceArray :: "'x cell \<Rightarrow> ('x go_workspace list) option" where
  "as_WorkspaceArray c = (case c of WorkspaceArray v \<Rightarrow> Some v | _ \<Rightarrow> None)"

definition as_WorkspaceListCell :: "'x cell \<Rightarrow> ('x go_list) option" where
  "as_WorkspaceListCell c = (case c of WorkspaceListCell v \<Rightarrow> Some v | _ \<Rightarrow> None)"

definition as_AddonReferenceCell :: "'x cell \<Rightarrow> addon_reference option" where
  "as_AddonReferenceCell c = (case c of AddonReferenceCell v \<Rightarrow> Some v | _ \<Rightarrow> None)"

definition as_ModuleSpecCell :: "'x cell \<Rightarrow> go_module_spec option" where
  "as_ModuleSpecCell c = (case c of ModuleSpecCell v \<Rightarrow> Some v | _ \<Rightarrow> None)"

definition as_ModuleStatusCell :: "'x cell \<Rightarrow> go_module_status option" where
  "as_ModuleStatusCell c = (case c of ModuleStatusCell v \<Rightarrow> Some v | _ \<Rightarrow> None)"

definition as_ModuleCell :: "'x cell \<Rightarrow> ('x go_module) option" where
  "as_ModuleCell c = (case c of ModuleCell v \<Rightarrow> Some v | _ \<Rightarrow> None)"

definition as_ModuleArray :: "'x cell \<Rightarrow> ('x go_module list) option" where
  "as_ModuleArray c = (case c of ModuleArray v \<Rightarrow> Some v | _ \<Rightarrow> None)"

definition as_ModuleListCell :: "'x cell \<Rightarrow> ('x go_list) option" where
  "as_ModuleListCell c = (case c of ModuleListCell v \<Rightarrow> Some v | _ \<Rightarrow> None)"

definition as_HelmTemplateCell :: "'x cell \<Rightarrow> ('x go_flux_template) option" where
  "as_HelmTemplateCell c = (case c of HelmTemplateCell v \<Rightarrow> Some v | _ \<Rightarrow> None)"

definition as_KustomizationTemplateCell :: "'x cell \<Rightarrow> ('x go_flux_template) option" where
  "as_KustomizationTemplateCell c = (case c of KustomizationTemplateCell v \<Rightarrow> Some v | _ \<Rightarrow> None)"

definition as_TemplateSpecCell :: "'x cell \<Rightarrow> go_template_spec option" where
  "as_TemplateSpecCell c = (case c of TemplateSpecCell v \<Rightarrow> Some v | _ \<Rightarrow> None)"

definition as_TemplateStatusCell :: "'x cell \<Rightarrow> go_template_status option" where
  "as_TemplateStatusCell c = (case c of TemplateStatusCell v \<Rightarrow> Some v | _ \<Rightarrow> None)"

definition as_TemplateCell :: "'x cell \<Rightarrow> ('x go_template) option" where
  "as_TemplateCell c = (case c of TemplateCell v \<Rightarrow> Some v | _ \<Rightarrow> None)"

definition as_TemplateArray :: "'x cell \<Rightarrow> ('x go_template list) option" where
  "as_TemplateArray c = (case c of TemplateArray v \<Rightarrow> Some v | _ \<Rightarrow> None)"

definition as_TemplateListCell :: "'x cell \<Rightarrow> ('x go_list) option" where
  "as_TemplateListCell c = (case c of TemplateListCell v \<Rightarrow> Some v | _ \<Rightarrow> None)"

lemma as_cell_simps [simp]:
  "as_StringCell (StringCell v1) = Some v1"
  "as_StringArray (StringArray v2) = Some v2"
  "as_ImportedCell (ImportedCell v3) = Some v3"
  "as_ImportedArray (ImportedArray v4) = Some v4"
  "as_NetworkIsolationCell (NetworkIsolationCell v5) = Some v5"
  "as_ReferenceCell (ReferenceCell v6) = Some v6"
  "as_ReferenceArray (ReferenceArray v7) = Some v7"
  "as_MemberCell (MemberCell v8) = Some v8"
  "as_MemberArray (MemberArray v9) = Some v9"
  "as_WorkspaceSpecCell (WorkspaceSpecCell v10) = Some v10"
  "as_WorkspaceStatusCell (WorkspaceStatusCell v11) = Some v11"
  "as_WorkspaceCell (WorkspaceCell v12) = Some v12"
  "as_WorkspaceArray (WorkspaceArray v13) = Some v13"
  "as_WorkspaceListCell (WorkspaceListCell v14) = Some v14"
  "as_AddonReferenceCell (AddonReferenceCell v15) = Some v15"
  "as_ModuleSpecCell (ModuleSpecCell v16) = Some v16"
  "as_ModuleStatusCell (ModuleStatusCell v17) = Some v17"
  "as_ModuleCell (ModuleCell v18) = Some v18"
  "as_ModuleArray (ModuleArray v19) = Some v19"
  "as_ModuleListCell (ModuleListCell v20) = Some v20"
  "as_HelmTemplateCell (HelmTemplateCell v21) = Some v21"
  "as_KustomizationTemplateCell (KustomizationTemplateCell v22) = Some v22"
  "as_TemplateSpecCell (TemplateSpecCell v23) = Some v23"
  "as_TemplateStatusCell (TemplateStatusCell v24) = Some v24"
  "as_TemplateCell (TemplateCell v25) = Some v25"
  "as_TemplateArray (TemplateArray v26) = Some v26"
  "as_TemplateListCell (TemplateListCell v27) = Some v27"
  by (simp_all add: as_StringCell_def as_StringArray_def as_ImportedCell_def
      as_ImportedArray_def as_NetworkIsolationCell_def as_ReferenceCell_def
      as_ReferenceArray_def as_MemberCell_def as_MemberArray_def as_WorkspaceSpecCell_def
      as_WorkspaceStatusCell_def as_WorkspaceCell_def as_WorkspaceArray_def
      as_WorkspaceListCell_def as_AddonReferenceCell_def as_ModuleSpecCell_def
      as_ModuleStatusCell_def as_ModuleCell_def as_ModuleArray_def as_ModuleListCell_def
      as_HelmTemplateCell_def as_KustomizationTemplateCell_def as_TemplateSpecCell_def
      as_TemplateStatusCell_def as_TemplateCell_def as_TemplateArray_def
      as_TemplateListCell_def)

section \<open>Imported types\<close>

text \<open>The methods \<open>DeepCopyInto\<close> of the structs declared in other modules.\<close>

record 'x imported_methods =
  copy_ObjectMeta :: "'x \<Rightarrow> ('x cell, 'x) mem_op"
  copy_ListMeta :: "'x \<Rightarrow> ('x cell, 'x) mem_op"
  copy_Condition :: "'x \<Rightarrow> ('x cell, 'x) mem_op"
  copy_JSON :: "'x \<Rightarrow> ('x cell, 'x) mem_op"
  copy_ResourceQuotaSpec :: "'x \<Rightarrow> ('x cell, 'x) mem_op"
  copy_LimitRangeSpec :: "'x \<Rightarrow> ('x cell, 'x) mem_op"
  copy_HelmReleaseSpec :: "'x \<Rightarrow> ('x cell, 'x) mem_op"
  copy_KustomizationSpec :: "'x \<Rightarrow> ('x cell, 'x) mem_op"

record 'x imported_views =
  view_ObjectMeta :: "'x cell heap \<Rightarrow> 'x \<Rightarrow> object_meta option"
  view_ListMeta :: "'x cell heap \<Rightarrow> 'x \<Rightarrow> json option"
  view_Condition :: "'x cell heap \<Rightarrow> 'x \<Rightarrow> condition option"
  view_JSON :: "'x cell heap \<Rightarrow> 'x \<Rightarrow> json option"
  view_ResourceQuotaSpec :: "'x cell heap \<Rightarrow> 'x \<Rightarrow> json option"
  view_LimitRangeSpec :: "'x cell heap \<Rightarrow> 'x \<Rightarrow> json option"
  view_HelmReleaseSpec :: "'x cell heap \<Rightarrow> 'x \<Rightarrow> helm_release_spec option"
  view_KustomizationSpec :: "'x cell heap \<Rightarrow> 'x \<Rightarrow> json option"
  imported_reach :: "'x cell heap \<Rightarrow> 'x \<Rightarrow> addr list"

text \<open>What the documentation of \<open>DeepCopyInto\<close> promises, for each of them.\<close>

locale imported_types =
  fixes X :: "'x imported_methods" and V :: "'x imported_views"
  assumes ObjectMeta: "deep_copyable (view_ObjectMeta V) (imported_reach V) (copy_ObjectMeta X)"
    and ListMeta: "deep_copyable (view_ListMeta V) (imported_reach V) (copy_ListMeta X)"
    and Condition: "deep_copyable (view_Condition V) (imported_reach V) (copy_Condition X)"
    and JSON: "deep_copyable (view_JSON V) (imported_reach V) (copy_JSON X)"
    and ResourceQuotaSpec:
      "deep_copyable (view_ResourceQuotaSpec V) (imported_reach V) (copy_ResourceQuotaSpec X)"
    and LimitRangeSpec:
      "deep_copyable (view_LimitRangeSpec V) (imported_reach V) (copy_LimitRangeSpec X)"
    and HelmReleaseSpec:
      "deep_copyable (view_HelmReleaseSpec V) (imported_reach V) (copy_HelmReleaseSpec X)"
    and KustomizationSpec:
      "deep_copyable (view_KustomizationSpec V) (imported_reach V) (copy_KustomizationSpec X)"

text \<open>
  The tactic for a struct: the contract of its body from the contracts of its fields. The two
  conditions left over, that a field reads what was last stored in it and that the statements
  leave the other fields alone, hold by the laws of records.
\<close>

lemmas copy_rules = deep_copyable_struct struct_fields_Cons struct_fields_Nil deep_copyable_ptr
  deep_copyable_slice deep_copyable_flat

end
