(* ===== verification/Workspace_DeepCopy.thy ===== *)
theory Workspace_DeepCopy
  imports DeepCopy_Types
begin

text \<open>
  \<open>api/tenant/v1alpha1/zz_generated.deepcopy.go\<close>: \<open>DeepCopyInto\<close> and \<open>DeepCopy\<close> of the types of
  the tenant group, statement for statement, what a reader sees of them (the records the rest of
  the development computes with), and their contract.
\<close>

section \<open>Leaves\<close>

definition DeepCopyInto_ResourceReference ::
  "resource_reference \<Rightarrow> ('x cell, resource_reference) mem_op" where
  "DeepCopyInto_ResourceReference = copy_struct []"

definition DeepCopy_ResourceReference :: "addr option \<Rightarrow> ('x cell, addr option) mem_op" where
  "DeepCopy_ResourceReference = copy_ptr as_ReferenceCell ReferenceCell DeepCopyInto_ResourceReference"

definition DeepCopyInto_NetworkIsolationSpec ::
  "go_network_isolation \<Rightarrow> ('x cell, go_network_isolation) mem_op" where
  "DeepCopyInto_NetworkIsolationSpec = copy_struct
     [copy_field gni_allowed (\<lambda>x out. out\<lparr> gni_allowed := x \<rparr>)
        (copy_slice as_StringArray StringArray copy_flat)]"

definition DeepCopy_NetworkIsolationSpec :: "addr option \<Rightarrow> ('x cell, addr option) mem_op" where
  "DeepCopy_NetworkIsolationSpec =
     copy_ptr as_NetworkIsolationCell NetworkIsolationCell DeepCopyInto_NetworkIsolationSpec"

definition DeepCopyInto_WorkspaceMember :: "go_member \<Rightarrow> ('x cell, go_member) mem_op" where
  "DeepCopyInto_WorkspaceMember = copy_struct
     [copy_field gwm_name (\<lambda>x out. out\<lparr> gwm_name := x \<rparr>) (copy_ptr as_StringCell StringCell copy_flat)]"

definition DeepCopy_WorkspaceMember :: "addr option \<Rightarrow> ('x cell, addr option) mem_op" where
  "DeepCopy_WorkspaceMember = copy_ptr as_MemberCell MemberCell DeepCopyInto_WorkspaceMember"

section \<open>Spec and status\<close>

definition DeepCopyInto_WorkspaceSpec ::
  "'x imported_methods \<Rightarrow> go_workspace_spec \<Rightarrow> ('x cell, go_workspace_spec) mem_op" where
  "DeepCopyInto_WorkspaceSpec X = copy_struct
     [copy_field gws_members (\<lambda>x out. out\<lparr> gws_members := x \<rparr>)
        (copy_slice as_MemberArray MemberArray DeepCopyInto_WorkspaceMember),
      copy_field gws_resource_quota (\<lambda>x out. out\<lparr> gws_resource_quota := x \<rparr>)
        (copy_ptr as_ImportedCell ImportedCell (copy_ResourceQuotaSpec X)),
      copy_field gws_limit_range (\<lambda>x out. out\<lparr> gws_limit_range := x \<rparr>)
        (copy_ptr as_ImportedCell ImportedCell (copy_LimitRangeSpec X)),
      copy_field gws_network_isolation (\<lambda>x out. out\<lparr> gws_network_isolation := x \<rparr>)
        DeepCopyInto_NetworkIsolationSpec]"

definition DeepCopy_WorkspaceSpec ::
  "'x imported_methods \<Rightarrow> addr option \<Rightarrow> ('x cell, addr option) mem_op" where
  "DeepCopy_WorkspaceSpec X =
     copy_ptr as_WorkspaceSpecCell WorkspaceSpecCell (DeepCopyInto_WorkspaceSpec X)"

abbreviation copy_reference :: "addr option \<Rightarrow> ('x cell, addr option) mem_op" where
  "copy_reference \<equiv> copy_ptr as_ReferenceCell ReferenceCell copy_flat"

definition DeepCopyInto_WorkspaceStatus ::
  "'x imported_methods \<Rightarrow> go_workspace_status \<Rightarrow> ('x cell, go_workspace_status) mem_op" where
  "DeepCopyInto_WorkspaceStatus X = copy_struct
     [copy_field gst_namespace_ref (\<lambda>x out. out\<lparr> gst_namespace_ref := x \<rparr>) copy_reference,
      copy_field gst_resource_quota_ref (\<lambda>x out. out\<lparr> gst_resource_quota_ref := x \<rparr>) copy_reference,
      copy_field gst_limit_range_ref (\<lambda>x out. out\<lparr> gst_limit_range_ref := x \<rparr>) copy_reference,
      copy_field gst_role_binding_refs (\<lambda>x out. out\<lparr> gst_role_binding_refs := x \<rparr>)
        (copy_slice as_ReferenceArray ReferenceArray copy_flat),
      copy_field gst_peer_authentication_ref (\<lambda>x out. out\<lparr> gst_peer_authentication_ref := x \<rparr>)
        copy_reference,
      copy_field gst_authorization_policy_ref (\<lambda>x out. out\<lparr> gst_authorization_policy_ref := x \<rparr>)
        copy_reference,
      copy_field gst_network_policy_ref (\<lambda>x out. out\<lparr> gst_network_policy_ref := x \<rparr>) copy_reference,
      copy_field gst_conditions (\<lambda>x out. out\<lparr> gst_conditions := x \<rparr>)
        (copy_slice as_ImportedArray ImportedArray (copy_Condition X))]"

definition DeepCopy_WorkspaceStatus ::
  "'x imported_methods \<Rightarrow> addr option \<Rightarrow> ('x cell, addr option) mem_op" where
  "DeepCopy_WorkspaceStatus X =
     copy_ptr as_WorkspaceStatusCell WorkspaceStatusCell (DeepCopyInto_WorkspaceStatus X)"

section \<open>Workspace and WorkspaceList\<close>

definition DeepCopyInto_Workspace ::
  "'x imported_methods \<Rightarrow> 'x go_workspace \<Rightarrow> ('x cell, 'x go_workspace) mem_op" where
  "DeepCopyInto_Workspace X = copy_struct
     [copy_field gw_type_meta (\<lambda>x out. out\<lparr> gw_type_meta := x \<rparr>) copy_flat,
      copy_field gw_meta (\<lambda>x out. out\<lparr> gw_meta := x \<rparr>) (copy_ObjectMeta X),
      copy_field gw_spec (\<lambda>x out. out\<lparr> gw_spec := x \<rparr>) (DeepCopyInto_WorkspaceSpec X),
      copy_field gw_status (\<lambda>x out. out\<lparr> gw_status := x \<rparr>) (DeepCopyInto_WorkspaceStatus X)]"

definition DeepCopy_Workspace ::
  "'x imported_methods \<Rightarrow> addr option \<Rightarrow> ('x cell, addr option) mem_op" where
  "DeepCopy_Workspace X = copy_ptr as_WorkspaceCell WorkspaceCell (DeepCopyInto_Workspace X)"

definition DeepCopyInto_WorkspaceList ::
  "'x imported_methods \<Rightarrow> 'x go_list \<Rightarrow> ('x cell, 'x go_list) mem_op" where
  "DeepCopyInto_WorkspaceList X = copy_struct
     [copy_field gl_type_meta (\<lambda>x out. out\<lparr> gl_type_meta := x \<rparr>) copy_flat,
      copy_field gl_meta (\<lambda>x out. out\<lparr> gl_meta := x \<rparr>) (copy_ListMeta X),
      copy_field gl_items (\<lambda>x out. out\<lparr> gl_items := x \<rparr>)
        (copy_slice as_WorkspaceArray WorkspaceArray (DeepCopyInto_Workspace X))]"

definition DeepCopy_WorkspaceList ::
  "'x imported_methods \<Rightarrow> addr option \<Rightarrow> ('x cell, addr option) mem_op" where
  "DeepCopy_WorkspaceList X =
     copy_ptr as_WorkspaceListCell WorkspaceListCell (DeepCopyInto_WorkspaceList X)"

section \<open>What a reader sees\<close>

text \<open>A nil slice and an empty one are both seen as the empty list.\<close>

definition view_isolation ::
  "'x cell heap \<Rightarrow> go_network_isolation \<Rightarrow> network_isolation_spec option" where
  "view_isolation = view_struct
     (\<lambda>v. \<lparr> ni_enabled = gni_enabled v, ni_allowed_namespaces = [] \<rparr>)
     [view_field gni_allowed (view_slice as_StringArray view_flat)
        (\<lambda>y s. s\<lparr> ni_allowed_namespaces := y \<rparr>)]"

definition reach_isolation :: "'x cell heap \<Rightarrow> go_network_isolation \<Rightarrow> addr list" where
  "reach_isolation = reach_struct [reach_field gni_allowed (reach_slice as_StringArray reach_flat)]"

definition view_member :: "'x cell heap \<Rightarrow> go_member \<Rightarrow> workspace_member option" where
  "view_member = view_struct
     (\<lambda>v. \<lparr> wm_role = gwm_role v, wm_subject = gwm_subject v, wm_name = None \<rparr>)
     [view_field gwm_name (view_ptr as_StringCell view_flat) (\<lambda>y s. s\<lparr> wm_name := y \<rparr>)]"

definition reach_member :: "'x cell heap \<Rightarrow> go_member \<Rightarrow> addr list" where
  "reach_member = reach_struct [reach_field gwm_name (reach_ptr as_StringCell reach_flat)]"

definition zero_isolation :: network_isolation_spec where
  "zero_isolation = \<lparr> ni_enabled = False, ni_allowed_namespaces = [] \<rparr>"

definition view_workspace_spec ::
  "'x imported_views \<Rightarrow> 'x cell heap \<Rightarrow> go_workspace_spec \<Rightarrow> workspace_spec option" where
  "view_workspace_spec V = view_struct
     (\<lambda>v. \<lparr> ws_namespace = gws_namespace v, ws_members = [], ws_resource_quota = None,
            ws_limit_range = None, ws_network_isolation = zero_isolation \<rparr>)
     [view_field gws_members (view_slice as_MemberArray view_member) (\<lambda>y s. s\<lparr> ws_members := y \<rparr>),
      view_field gws_resource_quota (view_ptr as_ImportedCell (view_ResourceQuotaSpec V))
        (\<lambda>y s. s\<lparr> ws_resource_quota := y \<rparr>),
      view_field gws_limit_range (view_ptr as_ImportedCell (view_LimitRangeSpec V))
        (\<lambda>y s. s\<lparr> ws_limit_range := y \<rparr>),
      view_field gws_network_isolation view_isolation (\<lambda>y s. s\<lparr> ws_network_isolation := y \<rparr>)]"

definition reach_workspace_spec ::
  "'x imported_views \<Rightarrow> 'x cell heap \<Rightarrow> go_workspace_spec \<Rightarrow> addr list" where
  "reach_workspace_spec V = reach_struct
     [reach_field gws_members (reach_slice as_MemberArray reach_member),
      reach_field gws_resource_quota (reach_ptr as_ImportedCell (imported_reach V)),
      reach_field gws_limit_range (reach_ptr as_ImportedCell (imported_reach V)),
      reach_field gws_network_isolation reach_isolation]"

abbreviation view_reference :: "'x cell heap \<Rightarrow> addr option \<Rightarrow> resource_reference option option" where
  "view_reference \<equiv> view_ptr as_ReferenceCell view_flat"

abbreviation reach_reference :: "'x cell heap \<Rightarrow> addr option \<Rightarrow> addr list" where
  "reach_reference \<equiv> reach_ptr as_ReferenceCell reach_flat"

definition view_workspace_status ::
  "'x imported_views \<Rightarrow> 'x cell heap \<Rightarrow> go_workspace_status \<Rightarrow> workspace_status option" where
  "view_workspace_status V = view_struct
     (\<lambda>v. \<lparr> st_observed_generation = gst_observed_generation v, st_namespace_ref = None,
            st_resource_quota_ref = None, st_limit_range_ref = None, st_role_binding_refs = [],
            st_peer_authentication_ref = None, st_authorization_policy_ref = None,
            st_network_policy_ref = None, st_conditions = [] \<rparr>)
     [view_field gst_namespace_ref view_reference (\<lambda>y s. s\<lparr> st_namespace_ref := y \<rparr>),
      view_field gst_resource_quota_ref view_reference (\<lambda>y s. s\<lparr> st_resource_quota_ref := y \<rparr>),
      view_field gst_limit_range_ref view_reference (\<lambda>y s. s\<lparr> st_limit_range_ref := y \<rparr>),
      view_field gst_role_binding_refs (view_slice as_ReferenceArray view_flat)
        (\<lambda>y s. s\<lparr> st_role_binding_refs := y \<rparr>),
      view_field gst_peer_authentication_ref view_reference
        (\<lambda>y s. s\<lparr> st_peer_authentication_ref := y \<rparr>),
      view_field gst_authorization_policy_ref view_reference
        (\<lambda>y s. s\<lparr> st_authorization_policy_ref := y \<rparr>),
      view_field gst_network_policy_ref view_reference (\<lambda>y s. s\<lparr> st_network_policy_ref := y \<rparr>),
      view_field gst_conditions (view_slice as_ImportedArray (view_Condition V))
        (\<lambda>y s. s\<lparr> st_conditions := y \<rparr>)]"

definition reach_workspace_status ::
  "'x imported_views \<Rightarrow> 'x cell heap \<Rightarrow> go_workspace_status \<Rightarrow> addr list" where
  "reach_workspace_status V = reach_struct
     [reach_field gst_namespace_ref reach_reference,
      reach_field gst_resource_quota_ref reach_reference,
      reach_field gst_limit_range_ref reach_reference,
      reach_field gst_role_binding_refs (reach_slice as_ReferenceArray reach_flat),
      reach_field gst_peer_authentication_ref reach_reference,
      reach_field gst_authorization_policy_ref reach_reference,
      reach_field gst_network_policy_ref reach_reference,
      reach_field gst_conditions (reach_slice as_ImportedArray (imported_reach V))]"

text \<open>
  A Workspace is seen as its type, metadata, spec and status. All four start from a blank,
  which the fields of the struct replace.
\<close>

definition blank_workspace :: workspace where
  "blank_workspace =
     \<lparr> w_meta = object_meta_named '''' '''',
       w_spec = \<lparr> ws_namespace = '''', ws_members = [], ws_resource_quota = None,
                  ws_limit_range = None, ws_network_isolation = zero_isolation \<rparr>,
       w_status = \<lparr> st_observed_generation = 0, st_namespace_ref = None, st_resource_quota_ref = None,
                    st_limit_range_ref = None, st_role_binding_refs = [],
                    st_peer_authentication_ref = None, st_authorization_policy_ref = None,
                    st_network_policy_ref = None, st_conditions = [] \<rparr> \<rparr>"

definition view_workspace ::
  "'x imported_views \<Rightarrow> 'x cell heap \<Rightarrow> 'x go_workspace \<Rightarrow> (type_meta \<times> workspace) option" where
  "view_workspace V = view_struct (\<lambda>v. (blank_type_meta, blank_workspace))
     [view_field gw_type_meta view_flat (\<lambda>y (t, w). (y, w)),
      view_field gw_meta (view_ObjectMeta V) (\<lambda>y (t, w). (t, w\<lparr> w_meta := y \<rparr>)),
      view_field gw_spec (view_workspace_spec V) (\<lambda>y (t, w). (t, w\<lparr> w_spec := y \<rparr>)),
      view_field gw_status (view_workspace_status V) (\<lambda>y (t, w). (t, w\<lparr> w_status := y \<rparr>))]"

definition reach_workspace :: "'x imported_views \<Rightarrow> 'x cell heap \<Rightarrow> 'x go_workspace \<Rightarrow> addr list" where
  "reach_workspace V = reach_struct
     [reach_field gw_type_meta reach_flat, reach_field gw_meta (imported_reach V),
      reach_field gw_spec (reach_workspace_spec V), reach_field gw_status (reach_workspace_status V)]"

definition view_workspace_list ::
  "'x imported_views \<Rightarrow> 'x cell heap \<Rightarrow> 'x go_list \<Rightarrow> (type_meta \<times> json \<times> (type_meta \<times> workspace) list) option" where
  "view_workspace_list V = view_struct (\<lambda>v. (blank_type_meta, JNull, []))
     [view_field gl_type_meta view_flat (\<lambda>y (t, m, ws). (y, m, ws)),
      view_field gl_meta (view_ListMeta V) (\<lambda>y (t, m, ws). (t, y, ws)),
      view_field gl_items (view_slice as_WorkspaceArray (view_workspace V)) (\<lambda>y (t, m, ws). (t, m, y))]"

definition reach_workspace_list :: "'x imported_views \<Rightarrow> 'x cell heap \<Rightarrow> 'x go_list \<Rightarrow> addr list" where
  "reach_workspace_list V = reach_struct
     [reach_field gl_type_meta reach_flat, reach_field gl_meta (imported_reach V),
      reach_field gl_items (reach_slice as_WorkspaceArray (reach_workspace V))]"

section \<open>The contracts\<close>

lemma isolation_copyable: "deep_copyable view_isolation reach_isolation DeepCopyInto_NetworkIsolationSpec"
  unfolding view_isolation_def reach_isolation_def DeepCopyInto_NetworkIsolationSpec_def
  by (intro copy_rules) simp_all

lemma member_copyable: "deep_copyable view_member reach_member DeepCopyInto_WorkspaceMember"
  unfolding view_member_def reach_member_def DeepCopyInto_WorkspaceMember_def
  by (intro copy_rules) simp_all

lemma resource_reference_copyable: "deep_copyable view_flat reach_flat DeepCopyInto_ResourceReference"
  using deep_copyable_flat by (simp add: DeepCopyInto_ResourceReference_def copy_struct_Nil)

context imported_types
begin

lemma workspace_spec_copyable:
  "deep_copyable (view_workspace_spec V) (reach_workspace_spec V) (DeepCopyInto_WorkspaceSpec X)"
  unfolding view_workspace_spec_def reach_workspace_spec_def DeepCopyInto_WorkspaceSpec_def
  by (intro copy_rules member_copyable isolation_copyable ResourceQuotaSpec LimitRangeSpec) simp_all

lemma workspace_status_copyable:
  "deep_copyable (view_workspace_status V) (reach_workspace_status V) (DeepCopyInto_WorkspaceStatus X)"
  unfolding view_workspace_status_def reach_workspace_status_def DeepCopyInto_WorkspaceStatus_def
  by (intro copy_rules Condition) simp_all

lemma workspace_copyable:
  "deep_copyable (view_workspace V) (reach_workspace V) (DeepCopyInto_Workspace X)"
  unfolding view_workspace_def reach_workspace_def DeepCopyInto_Workspace_def
  by (intro copy_rules ObjectMeta workspace_spec_copyable workspace_status_copyable) simp_all

lemma workspace_list_copyable:
  "deep_copyable (view_workspace_list V) (reach_workspace_list V) (DeepCopyInto_WorkspaceList X)"
  unfolding view_workspace_list_def reach_workspace_list_def DeepCopyInto_WorkspaceList_def
  by (intro copy_rules ListMeta workspace_copyable) simp_all

end

end
