(* ===== verification/Module_DeepCopy.thy ===== *)
theory Module_DeepCopy
  imports DeepCopy_Types
begin

text \<open>
  \<open>api/addons/v1alpha1/zz_generated.deepcopy.go\<close>: the deep copies of the types of the addons
  group, in the same form as those of the tenant group.
\<close>

section \<open>Leaves\<close>

definition DeepCopyInto_addon_ResourceReference ::
  "addon_reference \<Rightarrow> ('x cell, addon_reference) mem_op" where
  "DeepCopyInto_addon_ResourceReference = copy_struct []"

definition DeepCopy_addon_ResourceReference :: "addr option \<Rightarrow> ('x cell, addr option) mem_op" where
  "DeepCopy_addon_ResourceReference =
     copy_ptr as_AddonReferenceCell AddonReferenceCell DeepCopyInto_addon_ResourceReference"

definition DeepCopyInto_HelmReleaseTemplateSpec ::
  "'x imported_methods \<Rightarrow> 'x go_flux_template \<Rightarrow> ('x cell, 'x go_flux_template) mem_op" where
  "DeepCopyInto_HelmReleaseTemplateSpec X = copy_struct
     [copy_field gft_spec (\<lambda>x out. out\<lparr> gft_spec := x \<rparr>) (copy_HelmReleaseSpec X)]"

definition DeepCopy_HelmReleaseTemplateSpec ::
  "'x imported_methods \<Rightarrow> addr option \<Rightarrow> ('x cell, addr option) mem_op" where
  "DeepCopy_HelmReleaseTemplateSpec X =
     copy_ptr as_HelmTemplateCell HelmTemplateCell (DeepCopyInto_HelmReleaseTemplateSpec X)"

definition DeepCopyInto_KustomizationTemplateSpec ::
  "'x imported_methods \<Rightarrow> 'x go_flux_template \<Rightarrow> ('x cell, 'x go_flux_template) mem_op" where
  "DeepCopyInto_KustomizationTemplateSpec X = copy_struct
     [copy_field gft_spec (\<lambda>x out. out\<lparr> gft_spec := x \<rparr>) (copy_KustomizationSpec X)]"

definition DeepCopy_KustomizationTemplateSpec ::
  "'x imported_methods \<Rightarrow> addr option \<Rightarrow> ('x cell, addr option) mem_op" where
  "DeepCopy_KustomizationTemplateSpec X =
     copy_ptr as_KustomizationTemplateCell KustomizationTemplateCell
       (DeepCopyInto_KustomizationTemplateSpec X)"

section \<open>Module\<close>

definition DeepCopyInto_ModuleSpec ::
  "'x imported_methods \<Rightarrow> go_module_spec \<Rightarrow> ('x cell, go_module_spec) mem_op" where
  "DeepCopyInto_ModuleSpec X = copy_struct
     [copy_field gms_namespace (\<lambda>x out. out\<lparr> gms_namespace := x \<rparr>)
        (copy_ptr as_StringCell StringCell copy_flat),
      copy_field gms_values (\<lambda>x out. out\<lparr> gms_values := x \<rparr>)
        (copy_ptr as_ImportedCell ImportedCell (copy_JSON X))]"

definition DeepCopy_ModuleSpec ::
  "'x imported_methods \<Rightarrow> addr option \<Rightarrow> ('x cell, addr option) mem_op" where
  "DeepCopy_ModuleSpec X = copy_ptr as_ModuleSpecCell ModuleSpecCell (DeepCopyInto_ModuleSpec X)"

definition DeepCopyInto_ModuleStatus ::
  "'x imported_methods \<Rightarrow> go_module_status \<Rightarrow> ('x cell, go_module_status) mem_op" where
  "DeepCopyInto_ModuleStatus X = copy_struct
     [copy_field gmst_helm_release_ref (\<lambda>x out. out\<lparr> gmst_helm_release_ref := x \<rparr>)
        (copy_ptr as_AddonReferenceCell AddonReferenceCell copy_flat),
      copy_field gmst_kustomization_ref (\<lambda>x out. out\<lparr> gmst_kustomization_ref := x \<rparr>)
        (copy_ptr as_AddonReferenceCell AddonReferenceCell copy_flat),
      copy_field gmst_conditions (\<lambda>x out. out\<lparr> gmst_conditions := x \<rparr>)
        (copy_slice as_ImportedArray ImportedArray (copy_Condition X))]"

definition DeepCopy_ModuleStatus ::
  "'x imported_methods \<Rightarrow> addr option \<Rightarrow> ('x cell, addr option) mem_op" where
  "DeepCopy_ModuleStatus X = copy_ptr as_ModuleStatusCell ModuleStatusCell (DeepCopyInto_ModuleStatus X)"

definition DeepCopyInto_Module ::
  "'x imported_methods \<Rightarrow> 'x go_module \<Rightarrow> ('x cell, 'x go_module) mem_op" where
  "DeepCopyInto_Module X = copy_struct
     [copy_field gm_type_meta (\<lambda>x out. out\<lparr> gm_type_meta := x \<rparr>) copy_flat,
      copy_field gm_meta (\<lambda>x out. out\<lparr> gm_meta := x \<rparr>) (copy_ObjectMeta X),
      copy_field gm_spec (\<lambda>x out. out\<lparr> gm_spec := x \<rparr>) (DeepCopyInto_ModuleSpec X),
      copy_field gm_status (\<lambda>x out. out\<lparr> gm_status := x \<rparr>) (DeepCopyInto_ModuleStatus X)]"

definition DeepCopy_Module :: "'x imported_methods \<Rightarrow> addr option \<Rightarrow> ('x cell, addr option) mem_op" where
  "DeepCopy_Module X = copy_ptr as_ModuleCell ModuleCell (DeepCopyInto_Module X)"

definition DeepCopyInto_ModuleList ::
  "'x imported_methods \<Rightarrow> 'x go_list \<Rightarrow> ('x cell, 'x go_list) mem_op" where
  "DeepCopyInto_ModuleList X = copy_struct
     [copy_field gl_type_meta (\<lambda>x out. out\<lparr> gl_type_meta := x \<rparr>) copy_flat,
      copy_field gl_meta (\<lambda>x out. out\<lparr> gl_meta := x \<rparr>) (copy_ListMeta X),
      copy_field gl_items (\<lambda>x out. out\<lparr> gl_items := x \<rparr>)
        (copy_slice as_ModuleArray ModuleArray (DeepCopyInto_Module X))]"

definition DeepCopy_ModuleList ::
  "'x imported_methods \<Rightarrow> addr option \<Rightarrow> ('x cell, addr option) mem_op" where
  "DeepCopy_ModuleList X = copy_ptr as_ModuleListCell ModuleListCell (DeepCopyInto_ModuleList X)"

section \<open>ModuleTemplate\<close>

definition DeepCopyInto_ModuleTemplateSpec ::
  "'x imported_methods \<Rightarrow> go_template_spec \<Rightarrow> ('x cell, go_template_spec) mem_op" where
  "DeepCopyInto_ModuleTemplateSpec X = copy_struct
     [copy_field gts_helm_release (\<lambda>x out. out\<lparr> gts_helm_release := x \<rparr>)
        (copy_ptr as_HelmTemplateCell HelmTemplateCell (DeepCopyInto_HelmReleaseTemplateSpec X)),
      copy_field gts_kustomization (\<lambda>x out. out\<lparr> gts_kustomization := x \<rparr>)
        (copy_ptr as_KustomizationTemplateCell KustomizationTemplateCell
          (DeepCopyInto_KustomizationTemplateSpec X))]"

definition DeepCopy_ModuleTemplateSpec ::
  "'x imported_methods \<Rightarrow> addr option \<Rightarrow> ('x cell, addr option) mem_op" where
  "DeepCopy_ModuleTemplateSpec X =
     copy_ptr as_TemplateSpecCell TemplateSpecCell (DeepCopyInto_ModuleTemplateSpec X)"

definition DeepCopyInto_ModuleTemplateStatus ::
  "'x imported_methods \<Rightarrow> go_template_status \<Rightarrow> ('x cell, go_template_status) mem_op" where
  "DeepCopyInto_ModuleTemplateStatus X = copy_struct
     [copy_field gtst_conditions (\<lambda>x out. out\<lparr> gtst_conditions := x \<rparr>)
        (copy_slice as_ImportedArray ImportedArray (copy_Condition X))]"

definition DeepCopy_ModuleTemplateStatus ::
  "'x imported_methods \<Rightarrow> addr option \<Rightarrow> ('x cell, addr option) mem_op" where
  "DeepCopy_ModuleTemplateStatus X =
     copy_ptr as_TemplateStatusCell TemplateStatusCell (DeepCopyInto_ModuleTemplateStatus X)"

definition DeepCopyInto_ModuleTemplate ::
  "'x imported_methods \<Rightarrow> 'x go_template \<Rightarrow> ('x cell, 'x go_template) mem_op" where
  "DeepCopyInto_ModuleTemplate X = copy_struct
     [copy_field gt_type_meta (\<lambda>x out. out\<lparr> gt_type_meta := x \<rparr>) copy_flat,
      copy_field gt_meta (\<lambda>x out. out\<lparr> gt_meta := x \<rparr>) (copy_ObjectMeta X),
      copy_field gt_spec (\<lambda>x out. out\<lparr> gt_spec := x \<rparr>) (DeepCopyInto_ModuleTemplateSpec X),
      copy_field gt_status (\<lambda>x out. out\<lparr> gt_status := x \<rparr>) (DeepCopyInto_ModuleTemplateStatus X)]"

definition DeepCopy_ModuleTemplate ::
  "'x imported_methods \<Rightarrow> addr option \<Rightarrow> ('x cell, addr option) mem_op" where
  "DeepCopy_ModuleTemplate X = copy_ptr as_TemplateCell TemplateCell (DeepCopyInto_ModuleTemplate X)"

definition DeepCopyInto_ModuleTemplateList ::
  "'x imported_methods \<Rightarrow> 'x go_list \<Rightarrow> ('x cell, 'x go_list) mem_op" where
  "DeepCopyInto_ModuleTemplateList X = copy_struct
     [copy_field gl_type_meta (\<lambda>x out. out\<lparr> gl_type_meta := x \<rparr>) copy_flat,
      copy_field gl_meta (\<lambda>x out. out\<lparr> gl_meta := x \<rparr>) (copy_ListMeta X),
      copy_field gl_items (\<lambda>x out. out\<lparr> gl_items := x \<rparr>)
        (copy_slice as_TemplateArray TemplateArray (DeepCopyInto_ModuleTemplate X))]"

definition DeepCopy_ModuleTemplateList ::
  "'x imported_methods \<Rightarrow> addr option \<Rightarrow> ('x cell, addr option) mem_op" where
  "DeepCopy_ModuleTemplateList X =
     copy_ptr as_TemplateListCell TemplateListCell (DeepCopyInto_ModuleTemplateList X)"

section \<open>What a reader sees\<close>

definition view_helm_template ::
  "'x imported_views \<Rightarrow> 'x cell heap \<Rightarrow> 'x go_flux_template \<Rightarrow> helm_release_spec option" where
  "view_helm_template V = view_struct (\<lambda>v. \<lparr> hr_values = None, hr_rest = JNull \<rparr>)
     [view_field gft_spec (view_HelmReleaseSpec V) (\<lambda>y s. y)]"

definition view_kustomization_template ::
  "'x imported_views \<Rightarrow> 'x cell heap \<Rightarrow> 'x go_flux_template \<Rightarrow> json option" where
  "view_kustomization_template V = view_struct (\<lambda>v. JNull)
     [view_field gft_spec (view_KustomizationSpec V) (\<lambda>y s. y)]"

definition reach_flux_template ::
  "'x imported_views \<Rightarrow> 'x cell heap \<Rightarrow> 'x go_flux_template \<Rightarrow> addr list" where
  "reach_flux_template V = reach_struct [reach_field gft_spec (imported_reach V)]"

definition view_module_spec ::
  "'x imported_views \<Rightarrow> 'x cell heap \<Rightarrow> go_module_spec \<Rightarrow> module_spec option" where
  "view_module_spec V = view_struct
     (\<lambda>v. \<lparr> ms_template_ref = gms_template_ref v, ms_namespace = None, ms_values = None \<rparr>)
     [view_field gms_namespace (view_ptr as_StringCell view_flat) (\<lambda>y s. s\<lparr> ms_namespace := y \<rparr>),
      view_field gms_values (view_ptr as_ImportedCell (view_JSON V)) (\<lambda>y s. s\<lparr> ms_values := y \<rparr>)]"

definition reach_module_spec ::
  "'x imported_views \<Rightarrow> 'x cell heap \<Rightarrow> go_module_spec \<Rightarrow> addr list" where
  "reach_module_spec V = reach_struct
     [reach_field gms_namespace (reach_ptr as_StringCell reach_flat),
      reach_field gms_values (reach_ptr as_ImportedCell (imported_reach V))]"

definition view_module_status ::
  "'x imported_views \<Rightarrow> 'x cell heap \<Rightarrow> go_module_status \<Rightarrow> module_status option" where
  "view_module_status V = view_struct
     (\<lambda>v. \<lparr> mst_observed_generation = gmst_observed_generation v,
            mst_template_generation = gmst_template_generation v, mst_helm_release_ref = None,
            mst_kustomization_ref = None, mst_conditions = [] \<rparr>)
     [view_field gmst_helm_release_ref (view_ptr as_AddonReferenceCell view_flat)
        (\<lambda>y s. s\<lparr> mst_helm_release_ref := y \<rparr>),
      view_field gmst_kustomization_ref (view_ptr as_AddonReferenceCell view_flat)
        (\<lambda>y s. s\<lparr> mst_kustomization_ref := y \<rparr>),
      view_field gmst_conditions (view_slice as_ImportedArray (view_Condition V))
        (\<lambda>y s. s\<lparr> mst_conditions := y \<rparr>)]"

definition reach_module_status ::
  "'x imported_views \<Rightarrow> 'x cell heap \<Rightarrow> go_module_status \<Rightarrow> addr list" where
  "reach_module_status V = reach_struct
     [reach_field gmst_helm_release_ref (reach_ptr as_AddonReferenceCell reach_flat),
      reach_field gmst_kustomization_ref (reach_ptr as_AddonReferenceCell reach_flat),
      reach_field gmst_conditions (reach_slice as_ImportedArray (imported_reach V))]"

definition blank_module :: module where
  "blank_module =
     \<lparr> m_meta = object_meta_named '''' '''',
       m_spec = \<lparr> ms_template_ref = '''', ms_namespace = None, ms_values = None \<rparr>,
       m_status = \<lparr> mst_observed_generation = 0, mst_template_generation = 0,
                    mst_helm_release_ref = None, mst_kustomization_ref = None, mst_conditions = [] \<rparr> \<rparr>"

definition view_module ::
  "'x imported_views \<Rightarrow> 'x cell heap \<Rightarrow> 'x go_module \<Rightarrow> (type_meta \<times> module) option" where
  "view_module V = view_struct (\<lambda>v. (blank_type_meta, blank_module))
     [view_field gm_type_meta view_flat (\<lambda>y (t, m). (y, m)),
      view_field gm_meta (view_ObjectMeta V) (\<lambda>y (t, m). (t, m\<lparr> m_meta := y \<rparr>)),
      view_field gm_spec (view_module_spec V) (\<lambda>y (t, m). (t, m\<lparr> m_spec := y \<rparr>)),
      view_field gm_status (view_module_status V) (\<lambda>y (t, m). (t, m\<lparr> m_status := y \<rparr>))]"

definition reach_module :: "'x imported_views \<Rightarrow> 'x cell heap \<Rightarrow> 'x go_module \<Rightarrow> addr list" where
  "reach_module V = reach_struct
     [reach_field gm_type_meta reach_flat, reach_field gm_meta (imported_reach V),
      reach_field gm_spec (reach_module_spec V), reach_field gm_status (reach_module_status V)]"

definition view_module_list ::
  "'x imported_views \<Rightarrow> 'x cell heap \<Rightarrow> 'x go_list \<Rightarrow> (type_meta \<times> json \<times> (type_meta \<times> module) list) option" where
  "view_module_list V = view_struct (\<lambda>v. (blank_type_meta, JNull, []))
     [view_field gl_type_meta view_flat (\<lambda>y (t, l, ms). (y, l, ms)),
      view_field gl_meta (view_ListMeta V) (\<lambda>y (t, l, ms). (t, y, ms)),
      view_field gl_items (view_slice as_ModuleArray (view_module V)) (\<lambda>y (t, l, ms). (t, l, y))]"

definition reach_module_list :: "'x imported_views \<Rightarrow> 'x cell heap \<Rightarrow> 'x go_list \<Rightarrow> addr list" where
  "reach_module_list V = reach_struct
     [reach_field gl_type_meta reach_flat, reach_field gl_meta (imported_reach V),
      reach_field gl_items (reach_slice as_ModuleArray (reach_module V))]"

definition view_template_spec ::
  "'x imported_views \<Rightarrow> 'x cell heap \<Rightarrow> go_template_spec \<Rightarrow> module_template_spec option" where
  "view_template_spec V = view_struct
     (\<lambda>v. \<lparr> mts_description = gts_description v, mts_namespace = gts_namespace v,
            mts_helm_release = None, mts_kustomization = None \<rparr>)
     [view_field gts_helm_release (view_ptr as_HelmTemplateCell (view_helm_template V))
        (\<lambda>y s. s\<lparr> mts_helm_release := y \<rparr>),
      view_field gts_kustomization
        (view_ptr as_KustomizationTemplateCell (view_kustomization_template V))
        (\<lambda>y s. s\<lparr> mts_kustomization := y \<rparr>)]"

definition reach_template_spec ::
  "'x imported_views \<Rightarrow> 'x cell heap \<Rightarrow> go_template_spec \<Rightarrow> addr list" where
  "reach_template_spec V = reach_struct
     [reach_field gts_helm_release (reach_ptr as_HelmTemplateCell (reach_flux_template V)),
      reach_field gts_kustomization (reach_ptr as_KustomizationTemplateCell (reach_flux_template V))]"

definition view_template_status ::
  "'x imported_views \<Rightarrow> 'x cell heap \<Rightarrow> go_template_status \<Rightarrow> module_template_status option" where
  "view_template_status V = view_struct
     (\<lambda>v. \<lparr> mtst_observed_generation = gtst_observed_generation v, mtst_conditions = [] \<rparr>)
     [view_field gtst_conditions (view_slice as_ImportedArray (view_Condition V))
        (\<lambda>y s. s\<lparr> mtst_conditions := y \<rparr>)]"

definition reach_template_status ::
  "'x imported_views \<Rightarrow> 'x cell heap \<Rightarrow> go_template_status \<Rightarrow> addr list" where
  "reach_template_status V = reach_struct
     [reach_field gtst_conditions (reach_slice as_ImportedArray (imported_reach V))]"

definition blank_template :: "module_template \<times> module_template_status" where
  "blank_template =
     (\<lparr> mt_meta = object_meta_named '''' '''',
        mt_spec = \<lparr> mts_description = '''', mts_namespace = '''', mts_helm_release = None,
                    mts_kustomization = None \<rparr> \<rparr>,
      \<lparr> mtst_observed_generation = 0, mtst_conditions = [] \<rparr>)"

text \<open>The controller never uses the status of a template, which \<open>module_template\<close> leaves out.\<close>

type_synonym seen_template = "type_meta \<times> module_template \<times> module_template_status"

definition view_template ::
  "'x imported_views \<Rightarrow> 'x cell heap \<Rightarrow> 'x go_template \<Rightarrow> seen_template option" where
  "view_template V = view_struct (\<lambda>v. (blank_type_meta, blank_template))
     [view_field gt_type_meta view_flat (\<lambda>y (t, mt, st). (y, mt, st)),
      view_field gt_meta (view_ObjectMeta V) (\<lambda>y (t, mt, st). (t, mt\<lparr> mt_meta := y \<rparr>, st)),
      view_field gt_spec (view_template_spec V) (\<lambda>y (t, mt, st). (t, mt\<lparr> mt_spec := y \<rparr>, st)),
      view_field gt_status (view_template_status V) (\<lambda>y (t, mt, st). (t, mt, y))]"

definition reach_template :: "'x imported_views \<Rightarrow> 'x cell heap \<Rightarrow> 'x go_template \<Rightarrow> addr list" where
  "reach_template V = reach_struct
     [reach_field gt_type_meta reach_flat, reach_field gt_meta (imported_reach V),
      reach_field gt_spec (reach_template_spec V), reach_field gt_status (reach_template_status V)]"

definition view_template_list ::
  "'x imported_views \<Rightarrow> 'x cell heap \<Rightarrow> 'x go_list \<Rightarrow> (type_meta \<times> json \<times> seen_template list) option" where
  "view_template_list V = view_struct (\<lambda>v. (blank_type_meta, JNull, []))
     [view_field gl_type_meta view_flat (\<lambda>y (t, l, ts). (y, l, ts)),
      view_field gl_meta (view_ListMeta V) (\<lambda>y (t, l, ts). (t, y, ts)),
      view_field gl_items (view_slice as_TemplateArray (view_template V)) (\<lambda>y (t, l, ts). (t, l, y))]"

definition reach_template_list :: "'x imported_views \<Rightarrow> 'x cell heap \<Rightarrow> 'x go_list \<Rightarrow> addr list" where
  "reach_template_list V = reach_struct
     [reach_field gl_type_meta reach_flat, reach_field gl_meta (imported_reach V),
      reach_field gl_items (reach_slice as_TemplateArray (reach_template V))]"

section \<open>The contracts\<close>

lemma addon_reference_copyable:
  "deep_copyable view_flat reach_flat DeepCopyInto_addon_ResourceReference"
  using deep_copyable_flat by (simp add: DeepCopyInto_addon_ResourceReference_def copy_struct_Nil)

context imported_types
begin

lemma helm_template_copyable:
  "deep_copyable (view_helm_template V) (reach_flux_template V) (DeepCopyInto_HelmReleaseTemplateSpec X)"
  unfolding view_helm_template_def reach_flux_template_def DeepCopyInto_HelmReleaseTemplateSpec_def
  by (intro copy_rules HelmReleaseSpec) simp_all

lemma kustomization_template_copyable:
  "deep_copyable (view_kustomization_template V) (reach_flux_template V)
     (DeepCopyInto_KustomizationTemplateSpec X)"
  unfolding view_kustomization_template_def reach_flux_template_def
    DeepCopyInto_KustomizationTemplateSpec_def
  by (intro copy_rules KustomizationSpec) simp_all

lemma module_spec_copyable:
  "deep_copyable (view_module_spec V) (reach_module_spec V) (DeepCopyInto_ModuleSpec X)"
  unfolding view_module_spec_def reach_module_spec_def DeepCopyInto_ModuleSpec_def
  by (intro copy_rules JSON) simp_all

lemma module_status_copyable:
  "deep_copyable (view_module_status V) (reach_module_status V) (DeepCopyInto_ModuleStatus X)"
  unfolding view_module_status_def reach_module_status_def DeepCopyInto_ModuleStatus_def
  by (intro copy_rules Condition) simp_all

lemma module_copyable: "deep_copyable (view_module V) (reach_module V) (DeepCopyInto_Module X)"
  unfolding view_module_def reach_module_def DeepCopyInto_Module_def
  by (intro copy_rules ObjectMeta module_spec_copyable module_status_copyable) simp_all

lemma module_list_copyable:
  "deep_copyable (view_module_list V) (reach_module_list V) (DeepCopyInto_ModuleList X)"
  unfolding view_module_list_def reach_module_list_def DeepCopyInto_ModuleList_def
  by (intro copy_rules ListMeta module_copyable) simp_all

lemma template_spec_copyable:
  "deep_copyable (view_template_spec V) (reach_template_spec V) (DeepCopyInto_ModuleTemplateSpec X)"
  unfolding view_template_spec_def reach_template_spec_def DeepCopyInto_ModuleTemplateSpec_def
  by (intro copy_rules helm_template_copyable kustomization_template_copyable) simp_all

lemma template_status_copyable:
  "deep_copyable (view_template_status V) (reach_template_status V) (DeepCopyInto_ModuleTemplateStatus X)"
  unfolding view_template_status_def reach_template_status_def DeepCopyInto_ModuleTemplateStatus_def
  by (intro copy_rules Condition) simp_all

lemma template_copyable: "deep_copyable (view_template V) (reach_template V) (DeepCopyInto_ModuleTemplate X)"
  unfolding view_template_def reach_template_def DeepCopyInto_ModuleTemplate_def
  by (intro copy_rules ObjectMeta template_spec_copyable template_status_copyable) simp_all

lemma template_list_copyable:
  "deep_copyable (view_template_list V) (reach_template_list V) (DeepCopyInto_ModuleTemplateList X)"
  unfolding view_template_list_def reach_template_list_def DeepCopyInto_ModuleTemplateList_def
  by (intro copy_rules ListMeta template_copyable) simp_all

end

end
