(* ===== verification/DeepCopy_Objects.thy ===== *)
theory DeepCopy_Objects
  imports Workspace_DeepCopy Module_DeepCopy
begin

text \<open>
  The method \<open>DeepCopyObject\<close> of the six root types of the two API groups, dispatched on the
  dynamic type of a \<open>runtime.Object\<close>, and what the controllers rely on when they copy an object
  before they change it: the copy is the same value, and neither sees a later write to the other.
\<close>

section \<open>Objects\<close>

text \<open>
  A value of the interface type \<open>runtime.Object\<close> is nil, or a dynamic type with a pointer, which
  may itself be nil.
\<close>

datatype runtime_object =
    WorkspaceObject "addr option"
  | WorkspaceListObject "addr option"
  | ModuleObject "addr option"
  | ModuleListObject "addr option"
  | ModuleTemplateObject "addr option"
  | ModuleTemplateListObject "addr option"

text \<open>\<open>if c := in.DeepCopy(); c != nil { return c }; return nil\<close>\<close>

definition object_or_nil ::
  "(addr option \<Rightarrow> runtime_object) \<Rightarrow> ('x cell, addr option) mem_op \<Rightarrow> ('x cell, runtime_object option) mem_op" where
  "object_or_nil mk deep_copy h =
     (case deep_copy h of
        None \<Rightarrow> None
      | Some (c, h') \<Rightarrow> Some (if c \<noteq> None then Some (mk c) else None, h'))"

definition DeepCopyObject_Workspace ::
  "'x imported_methods \<Rightarrow> addr option \<Rightarrow> ('x cell, runtime_object option) mem_op" where
  "DeepCopyObject_Workspace X p = object_or_nil WorkspaceObject (DeepCopy_Workspace X p)"

definition DeepCopyObject_WorkspaceList ::
  "'x imported_methods \<Rightarrow> addr option \<Rightarrow> ('x cell, runtime_object option) mem_op" where
  "DeepCopyObject_WorkspaceList X p = object_or_nil WorkspaceListObject (DeepCopy_WorkspaceList X p)"

definition DeepCopyObject_Module ::
  "'x imported_methods \<Rightarrow> addr option \<Rightarrow> ('x cell, runtime_object option) mem_op" where
  "DeepCopyObject_Module X p = object_or_nil ModuleObject (DeepCopy_Module X p)"

definition DeepCopyObject_ModuleList ::
  "'x imported_methods \<Rightarrow> addr option \<Rightarrow> ('x cell, runtime_object option) mem_op" where
  "DeepCopyObject_ModuleList X p = object_or_nil ModuleListObject (DeepCopy_ModuleList X p)"

definition DeepCopyObject_ModuleTemplate ::
  "'x imported_methods \<Rightarrow> addr option \<Rightarrow> ('x cell, runtime_object option) mem_op" where
  "DeepCopyObject_ModuleTemplate X p = object_or_nil ModuleTemplateObject (DeepCopy_ModuleTemplate X p)"

definition DeepCopyObject_ModuleTemplateList ::
  "'x imported_methods \<Rightarrow> addr option \<Rightarrow> ('x cell, runtime_object option) mem_op" where
  "DeepCopyObject_ModuleTemplateList X p =
     object_or_nil ModuleTemplateListObject (DeepCopy_ModuleTemplateList X p)"

text \<open>The method call on an interface value: dispatch on the dynamic type.\<close>

primrec DeepCopyObject ::
  "'x imported_methods \<Rightarrow> runtime_object \<Rightarrow> ('x cell, runtime_object option) mem_op" where
  "DeepCopyObject X (WorkspaceObject p) = DeepCopyObject_Workspace X p"
| "DeepCopyObject X (WorkspaceListObject p) = DeepCopyObject_WorkspaceList X p"
| "DeepCopyObject X (ModuleObject p) = DeepCopyObject_Module X p"
| "DeepCopyObject X (ModuleListObject p) = DeepCopyObject_ModuleList X p"
| "DeepCopyObject X (ModuleTemplateObject p) = DeepCopyObject_ModuleTemplate X p"
| "DeepCopyObject X (ModuleTemplateListObject p) = DeepCopyObject_ModuleTemplateList X p"

primrec object_ptr :: "runtime_object \<Rightarrow> addr option" where
  "object_ptr (WorkspaceObject p) = p"
| "object_ptr (WorkspaceListObject p) = p"
| "object_ptr (ModuleObject p) = p"
| "object_ptr (ModuleListObject p) = p"
| "object_ptr (ModuleTemplateObject p) = p"
| "object_ptr (ModuleTemplateListObject p) = p"

section \<open>What a reader sees of an object\<close>

datatype seen_object =
    SeenWorkspace "(type_meta \<times> workspace) option"
  | SeenWorkspaceList "(type_meta \<times> json \<times> (type_meta \<times> workspace) list) option"
  | SeenModule "(type_meta \<times> module) option"
  | SeenModuleList "(type_meta \<times> json \<times> (type_meta \<times> module) list) option"
  | SeenTemplate "seen_template option"
  | SeenTemplateList "(type_meta \<times> json \<times> seen_template list) option"

primrec view_object ::
  "'x imported_views \<Rightarrow> 'x cell heap \<Rightarrow> runtime_object \<Rightarrow> seen_object option" where
  "view_object V h (WorkspaceObject p) =
     map_option SeenWorkspace (view_ptr as_WorkspaceCell (view_workspace V) h p)"
| "view_object V h (WorkspaceListObject p) =
     map_option SeenWorkspaceList (view_ptr as_WorkspaceListCell (view_workspace_list V) h p)"
| "view_object V h (ModuleObject p) =
     map_option SeenModule (view_ptr as_ModuleCell (view_module V) h p)"
| "view_object V h (ModuleListObject p) =
     map_option SeenModuleList (view_ptr as_ModuleListCell (view_module_list V) h p)"
| "view_object V h (ModuleTemplateObject p) =
     map_option SeenTemplate (view_ptr as_TemplateCell (view_template V) h p)"
| "view_object V h (ModuleTemplateListObject p) =
     map_option SeenTemplateList (view_ptr as_TemplateListCell (view_template_list V) h p)"

primrec reach_object :: "'x imported_views \<Rightarrow> 'x cell heap \<Rightarrow> runtime_object \<Rightarrow> addr list" where
  "reach_object V h (WorkspaceObject p) = reach_ptr as_WorkspaceCell (reach_workspace V) h p"
| "reach_object V h (WorkspaceListObject p) = reach_ptr as_WorkspaceListCell (reach_workspace_list V) h p"
| "reach_object V h (ModuleObject p) = reach_ptr as_ModuleCell (reach_module V) h p"
| "reach_object V h (ModuleListObject p) = reach_ptr as_ModuleListCell (reach_module_list V) h p"
| "reach_object V h (ModuleTemplateObject p) = reach_ptr as_TemplateCell (reach_template V) h p"
| "reach_object V h (ModuleTemplateListObject p) =
     reach_ptr as_TemplateListCell (reach_template_list V) h p"

text \<open>
  What \<open>DeepCopyObject\<close> returns and where the copy lies: \<open>faithful_copy\<close>. For one dynamic
  type, it follows from the contract of the pointer.
\<close>

definition faithful_copy ::
  "'x imported_methods \<Rightarrow> 'x imported_views \<Rightarrow> 'x cell heap \<Rightarrow> runtime_object \<Rightarrow> seen_object \<Rightarrow> bool" where
  "faithful_copy X V h ob x \<longleftrightarrow>
     (\<exists>ob' e. DeepCopyObject X ob h = Some (if object_ptr ob = None then None else Some ob', h @ e)
        \<and> (object_ptr ob = None \<longrightarrow> e = []) \<and> (object_ptr ob' = None \<longleftrightarrow> object_ptr ob = None)
        \<and> view_object V (h @ e) ob' = Some x
        \<and> fresh_cells (length h) (reach_object V (h @ e) ob'))"

lemma tagged_object:
  assumes C: "deep_copyable (view_ptr proj view) (reach_ptr proj reach) (copy_ptr proj mk copy)"
    and run: "DeepCopyObject X (tag p) = object_or_nil tag (copy_ptr proj mk copy p)"
    and view: "\<And>h p. view_object V h (tag p) = map_option mk_seen (view_ptr proj view h p)"
    and reach: "\<And>h p. reach_object V h (tag p) = reach_ptr proj reach h p"
    and ptr: "\<And>p. object_ptr (tag p) = p"
    and seen: "view_object V h (tag p) = Some x"
  shows "faithful_copy X V h (tag p) x"
proof -
  obtain y where y: "view_ptr proj view h p = Some y" "x = mk_seen y" using seen view by auto
  obtain p' e where p': "copy_ptr proj mk copy p h = Some (p', h @ e)"
    "view_ptr proj view (h @ e) p' = Some y"
    "fresh_cells (length h) (reach_ptr proj reach (h @ e) p')"
    using deep_copyable.copy_ok [OF C y(1)] by blast
  moreover have "(p' = None \<longleftrightarrow> p = None) \<and> (p = None \<longrightarrow> e = [])"
    using p'(1) by (auto simp: copy_ptr_def split: option.splits prod.splits)
  ultimately show ?thesis
    unfolding faithful_copy_def run object_or_nil_def
    by (intro exI [of _ "tag p'"] exI [of _ e]) (auto simp: view reach ptr y(2))
qed

lemma view_object_local:
  assumes C: "deep_copyable (view_ptr proj view) (reach_ptr proj reach) (copy_ptr proj mk copy)"
    and view: "\<And>h. view_object V h ob = map_option mk_seen (view_ptr proj view h p)"
    and reach: "reach_object V h ob = reach_ptr proj reach h p"
    and seen: "view_object V h ob = Some x"
  shows "(\<forall>a \<in> set (reach_object V h ob). a < length h)
    \<and> (\<forall>h'. (\<forall>a \<in> set (reach_object V h ob). cell_at h' a = cell_at h a) \<longrightarrow>
         view_object V h' ob = Some x)"
proof -
  obtain y where y: "view_ptr proj view h p = Some y" "x = mk_seen y" using seen view by auto
  show ?thesis
  proof (intro conjI allI impI)
    show "\<forall>a \<in> set (reach_object V h ob). a < length h"
      using deep_copyable.reach_bound [OF C y(1)] by (simp add: reach)
    fix h'
    assume "\<forall>a \<in> set (reach_object V h ob). cell_at h' a = cell_at h a"
    then have "view_ptr proj view h' p = Some y"
      using deep_copyable.view_local [OF C y(1), of h'] unfolding reach by blast
    then show "view_object V h' ob = Some x" by (simp add: view y(2))
  qed
qed

context imported_types
begin

lemma workspace_ptr:
  "deep_copyable (view_ptr as_WorkspaceCell (view_workspace V))
     (reach_ptr as_WorkspaceCell (reach_workspace V)) (DeepCopy_Workspace X)"
  unfolding DeepCopy_Workspace_def by (intro copy_rules workspace_copyable) simp

lemma workspace_list_ptr:
  "deep_copyable (view_ptr as_WorkspaceListCell (view_workspace_list V))
     (reach_ptr as_WorkspaceListCell (reach_workspace_list V)) (DeepCopy_WorkspaceList X)"
  unfolding DeepCopy_WorkspaceList_def by (intro copy_rules workspace_list_copyable) simp

lemma module_ptr:
  "deep_copyable (view_ptr as_ModuleCell (view_module V))
     (reach_ptr as_ModuleCell (reach_module V)) (DeepCopy_Module X)"
  unfolding DeepCopy_Module_def by (intro copy_rules module_copyable) simp

lemma module_list_ptr:
  "deep_copyable (view_ptr as_ModuleListCell (view_module_list V))
     (reach_ptr as_ModuleListCell (reach_module_list V)) (DeepCopy_ModuleList X)"
  unfolding DeepCopy_ModuleList_def by (intro copy_rules module_list_copyable) simp

lemma template_ptr:
  "deep_copyable (view_ptr as_TemplateCell (view_template V))
     (reach_ptr as_TemplateCell (reach_template V)) (DeepCopy_ModuleTemplate X)"
  unfolding DeepCopy_ModuleTemplate_def by (intro copy_rules template_copyable) simp

lemma template_list_ptr:
  "deep_copyable (view_ptr as_TemplateListCell (view_template_list V))
     (reach_ptr as_TemplateListCell (reach_template_list V)) (DeepCopy_ModuleTemplateList X)"
  unfolding DeepCopy_ModuleTemplateList_def by (intro copy_rules template_list_copyable) simp

lemmas pointer_contracts =
  workspace_ptr [unfolded DeepCopy_Workspace_def]
  workspace_list_ptr [unfolded DeepCopy_WorkspaceList_def]
  module_ptr [unfolded DeepCopy_Module_def]
  module_list_ptr [unfolded DeepCopy_ModuleList_def]
  template_ptr [unfolded DeepCopy_ModuleTemplate_def]
  template_list_ptr [unfolded DeepCopy_ModuleTemplateList_def]

lemma deep_copy_object:
  assumes "view_object V h ob = Some x"
  shows "faithful_copy X V h ob x"
proof (cases ob)
  case (WorkspaceObject p)
  with assms show ?thesis
    using tagged_object [OF pointer_contracts(1), of X WorkspaceObject p V SeenWorkspace h x]
    by (simp add: fun_eq_iff DeepCopyObject_Workspace_def DeepCopy_Workspace_def)
next
  case (WorkspaceListObject p)
  with assms show ?thesis
    using tagged_object [OF pointer_contracts(2), of X WorkspaceListObject p V SeenWorkspaceList h x]
    by (simp add: fun_eq_iff DeepCopyObject_WorkspaceList_def DeepCopy_WorkspaceList_def)
next
  case (ModuleObject p)
  with assms show ?thesis
    using tagged_object [OF pointer_contracts(3), of X ModuleObject p V SeenModule h x]
    by (simp add: fun_eq_iff DeepCopyObject_Module_def DeepCopy_Module_def)
next
  case (ModuleListObject p)
  with assms show ?thesis
    using tagged_object [OF pointer_contracts(4), of X ModuleListObject p V SeenModuleList h x]
    by (simp add: fun_eq_iff DeepCopyObject_ModuleList_def DeepCopy_ModuleList_def)
next
  case (ModuleTemplateObject p)
  with assms show ?thesis
    using tagged_object [OF pointer_contracts(5), of X ModuleTemplateObject p V SeenTemplate h x]
    by (simp add: fun_eq_iff DeepCopyObject_ModuleTemplate_def DeepCopy_ModuleTemplate_def)
next
  case (ModuleTemplateListObject p)
  with assms show ?thesis
    using tagged_object [OF pointer_contracts(6), of X ModuleTemplateListObject p V SeenTemplateList h x]
    by (simp add: fun_eq_iff DeepCopyObject_ModuleTemplateList_def DeepCopy_ModuleTemplateList_def)
qed

lemma object_local:
  assumes "view_object V h ob = Some x"
  shows "(\<forall>a \<in> set (reach_object V h ob). a < length h)
    \<and> (\<forall>h'. (\<forall>a \<in> set (reach_object V h ob). cell_at h' a = cell_at h a) \<longrightarrow>
         view_object V h' ob = Some x)"
proof (cases ob)
  case (WorkspaceObject p)
  with assms show ?thesis
    using view_object_local [OF pointer_contracts(1), of V ob SeenWorkspace p h x] by simp
next
  case (WorkspaceListObject p)
  with assms show ?thesis
    using view_object_local [OF pointer_contracts(2), of V ob SeenWorkspaceList p h x] by simp
next
  case (ModuleObject p)
  with assms show ?thesis
    using view_object_local [OF pointer_contracts(3), of V ob SeenModule p h x] by simp
next
  case (ModuleListObject p)
  with assms show ?thesis
    using view_object_local [OF pointer_contracts(4), of V ob SeenModuleList p h x] by simp
next
  case (ModuleTemplateObject p)
  with assms show ?thesis
    using view_object_local [OF pointer_contracts(5), of V ob SeenTemplate p h x] by simp
next
  case (ModuleTemplateListObject p)
  with assms show ?thesis
    using view_object_local [OF pointer_contracts(6), of V ob SeenTemplateList p h x] by simp
qed

end

end
