(* ===== verification/Mem_Imports.thy ===== *)
theory Mem_Imports
  imports DeepCopy_Objects Workspace_Samples
begin

text \<open>
  The imported types in memory, so that the contracts can be evaluated: a struct of another
  module is a payload with a reference to one more payload (a label map, the raw bytes of a JSON
  value, the values of a HelmRelease). Its deep copy allocates that payload anew.
\<close>

datatype payload =
    MetaPayload object_meta
  | LabelsPayload labels
  | ConditionPayload condition
  | TextPayload json

record ext =
  ext_head :: payload
  ext_ref :: "addr option"

definition as_payload :: "ext cell \<Rightarrow> payload option" where
  "as_payload c = map_option ext_head (as_ImportedCell c)"

definition payload_cell :: "payload \<Rightarrow> ext cell" where
  "payload_cell p = ImportedCell \<lparr> ext_head = p, ext_ref = None \<rparr>"

definition copy_ext :: "ext \<Rightarrow> (ext cell, ext) mem_op" where
  "copy_ext = copy_struct
     [copy_field ext_ref (\<lambda>x out. out\<lparr> ext_ref := x \<rparr>) (copy_ptr as_payload payload_cell copy_flat)]"

definition view_ext :: "ext cell heap \<Rightarrow> ext \<Rightarrow> (payload \<times> payload option) option" where
  "view_ext = view_struct (\<lambda>v. (ext_head v, None))
     [view_field ext_ref (view_ptr as_payload view_flat) (\<lambda>y (hd, _). (hd, y))]"

definition reach_ext :: "ext cell heap \<Rightarrow> ext \<Rightarrow> addr list" where
  "reach_ext = reach_struct [reach_field ext_ref (reach_ptr as_payload reach_flat)]"

lemma ext_copyable: "deep_copyable view_ext reach_ext copy_ext"
  unfolding view_ext_def reach_ext_def copy_ext_def
  by (intro copy_rules) (simp_all add: as_payload_def payload_cell_def)

text \<open>How each type reads its payload.\<close>

fun decode_meta :: "payload \<times> payload option \<Rightarrow> object_meta option" where
  "decode_meta (MetaPayload m, None) = Some m"
| "decode_meta (MetaPayload m, Some (LabelsPayload l)) = Some (m\<lparr> meta_labels := Some l \<rparr>)"
| "decode_meta _ = None"

fun decode_condition :: "payload \<times> payload option \<Rightarrow> condition option" where
  "decode_condition (ConditionPayload c, None) = Some c"
| "decode_condition _ = None"

fun decode_text :: "payload \<times> payload option \<Rightarrow> json option" where
  "decode_text (TextPayload j, None) = Some j"
| "decode_text (TextPayload j, Some (TextPayload raw)) = Some (JArray [j, raw])"
| "decode_text _ = None"

fun decode_helm :: "payload \<times> payload option \<Rightarrow> helm_release_spec option" where
  "decode_helm (TextPayload j, None) = Some \<lparr> hr_values = None, hr_rest = j \<rparr>"
| "decode_helm (TextPayload j, Some (TextPayload raw)) = Some \<lparr> hr_values = Some raw, hr_rest = j \<rparr>"
| "decode_helm _ = None"

definition decoded ::
  "(payload \<times> payload option \<Rightarrow> 'a option) \<Rightarrow> ext cell heap \<Rightarrow> ext \<Rightarrow> 'a option" where
  "decoded f h v = (case view_ext h v of None \<Rightarrow> None | Some y \<Rightarrow> f y)"

lemma decoded_copyable: "deep_copyable (decoded f) reach_ext copy_ext"
  unfolding decoded_def by (rule deep_copyable_decode) (rule ext_copyable)

definition mem_methods :: "ext imported_methods" where
  "mem_methods =
     \<lparr> copy_ObjectMeta = copy_ext, copy_ListMeta = copy_ext, copy_Condition = copy_ext,
       copy_JSON = copy_ext, copy_ResourceQuotaSpec = copy_ext, copy_LimitRangeSpec = copy_ext,
       copy_HelmReleaseSpec = copy_ext, copy_KustomizationSpec = copy_ext \<rparr>"

definition mem_views :: "ext imported_views" where
  "mem_views =
     \<lparr> view_ObjectMeta = decoded decode_meta, view_ListMeta = decoded decode_text,
       view_Condition = decoded decode_condition, view_JSON = decoded decode_text,
       view_ResourceQuotaSpec = decoded decode_text, view_LimitRangeSpec = decoded decode_text,
       view_HelmReleaseSpec = decoded decode_helm, view_KustomizationSpec = decoded decode_text,
       imported_reach = reach_ext \<rparr>"

interpretation mem_imports: imported_types mem_methods mem_views
  by (rule imported_types.intro) (simp_all add: mem_methods_def mem_views_def decoded_copyable)

section \<open>A Workspace in memory\<close>

text \<open>
  The sample Workspace, with a label and a condition, laid out as the decoder of the client
  lays it out: cell 0 holds the struct, the others what it refers to.
\<close>

definition ready_now :: condition where
  "ready_now =
     \<lparr> cond_type = ''Ready'', cond_status = ConditionTrue, cond_reason = ''Reconciled'',
       cond_message = '''', cond_observed_generation = 1, cond_last_transition = Some 3 \<rparr>"

definition team_struct :: "ext go_workspace" where
  "team_struct =
     \<lparr> gw_type_meta = \<lparr> tm_kind = ''Workspace'', tm_api_version = ''tenant.otterscale.io/v1alpha1'' \<rparr>,
       gw_meta = \<lparr> ext_head = MetaPayload team_meta, ext_ref = Some 1 \<rparr>,
       gw_spec = \<lparr> gws_namespace = ''team-a'', gws_members = Slice 2 0 2, gws_resource_quota = Some 4,
         gws_limit_range = None,
         gws_network_isolation = \<lparr> gni_enabled = True, gni_allowed = Slice 5 0 1 \<rparr> \<rparr>,
       gw_status = \<lparr> gst_observed_generation = 1, gst_namespace_ref = Some 6,
         gst_resource_quota_ref = None, gst_limit_range_ref = None, gst_role_binding_refs = NilSlice,
         gst_peer_authentication_ref = None, gst_authorization_policy_ref = None,
         gst_network_policy_ref = None, gst_conditions = Slice 7 0 1 \<rparr> \<rparr>"

definition team_heap :: "ext cell heap" where
  "team_heap =
     [WorkspaceCell team_struct,
      payload_cell (LabelsPayload [''tier'' \<mapsto> ''gold'']),
      MemberArray [\<lparr> gwm_role = ''admin'', gwm_subject = ''alice'', gwm_name = None \<rparr>,
                   \<lparr> gwm_role = ''view'', gwm_subject = ''bob'', gwm_name = Some 3 \<rparr>],
      StringCell ''Bob'',
      ImportedCell \<lparr> ext_head = TextPayload (JObject [(''hard'', JNumber 4)]), ext_ref = None \<rparr>,
      StringArray [''team-b''],
      ReferenceCell \<lparr> rr_name = ''team-a'', rr_namespace = '''' \<rparr>,
      ImportedArray [\<lparr> ext_head = ConditionPayload ready_now, ext_ref = None \<rparr>]]"

definition team_seen :: "type_meta \<times> workspace" where
  "team_seen =
     (\<lparr> tm_kind = ''Workspace'', tm_api_version = ''tenant.otterscale.io/v1alpha1'' \<rparr>,
      team\<lparr> w_meta := team_meta\<lparr> meta_labels := Some [''tier'' \<mapsto> ''gold''] \<rparr>,
            w_status := empty_status\<lparr> st_observed_generation := 1,
              st_namespace_ref := Some \<lparr> rr_name = ''team-a'', rr_namespace = '''' \<rparr>,
              st_conditions := [ready_now] \<rparr> \<rparr>)"

lemmas view_defs = view_struct_def view_field_def view_ptr_def view_slice_def view_flat_def
  view_isolation_def view_member_def view_workspace_spec_def view_workspace_status_def
  view_workspace_def elements_def load_def cell_at_def

lemma team_in_memory:
  "view_object mem_views team_heap (WorkspaceObject (Some 0)) = Some (SeenWorkspace (Some team_seen))"
  by (simp add: view_defs team_heap_def team_struct_def mem_views_def decoded_def view_ext_def
      payload_cell_def as_payload_def team_seen_def team_defs empty_status_def)

end
