(* ===== verification/DeepCopy_Properties.thy ===== *)
theory DeepCopy_Properties
  imports Mem_Imports
begin

text \<open>
  What the controllers rely on when they copy an object before they change it: the copy of a
  well-formed object is made without a panic and is the same value, and no later write through
  the one is seen through the other.
\<close>

section \<open>Interpretations\<close>

text \<open>The types without imported parts, and, for every provider of the imported ones, the rest.\<close>

interpretation isolation_copy: deep_copyable view_isolation reach_isolation
  DeepCopyInto_NetworkIsolationSpec
  by (rule isolation_copyable)

interpretation member_copy: deep_copyable view_member reach_member DeepCopyInto_WorkspaceMember
  by (rule member_copyable)

sublocale imported_types \<subseteq> workspace_status_copy: deep_copyable "view_workspace_status V"
  "reach_workspace_status V" "DeepCopyInto_WorkspaceStatus X"
  by (rule workspace_status_copyable)

sublocale imported_types \<subseteq> module_status_copy: deep_copyable "view_module_status V"
  "reach_module_status V" "DeepCopyInto_ModuleStatus X"
  by (rule module_status_copyable)

context imported_types
begin

lemma object_copy_runs:
  assumes "view_object V h ob = Some x" and "DeepCopyObject X ob h = Some (Some ob', h')"
  obtains e where "h' = h @ e" and "view_object V h' ob' = Some x"
    and "\<And>a. a \<in> set (reach_object V h' ob') \<Longrightarrow> length h \<le> a \<and> a < length h'"
proof -
  obtain e where e: "h' = h @ e" "view_object V h' ob' = Some x"
    "\<forall>a \<in> set (reach_object V h' ob'). length h \<le> a"
    using deep_copy_object [OF assms(1)] assms(2)
    by (auto simp: faithful_copy_def fresh_cells_def split: if_splits)
  with object_local [OF e(2)] that show thesis by blast
qed

lemma cell_at_later: "a \<notin> fst ` set ws \<Longrightarrow> a < length h \<Longrightarrow> cell_at (stores ws (h @ e)) a = cell_at h a"
  by (simp add: cell_at_stores)

lemma copy_independent:
  assumes "view_object V h ob = Some x" and "DeepCopyObject X ob h = Some (Some ob', h')"
    and "\<forall>(a, c) \<in> set ws. a < length h \<or> length h' \<le> a"
  shows "view_object V (stores ws (h' @ e)) ob' = Some x"
proof -
  from object_copy_runs [OF assms(1,2)] obtain e0 where copy: "view_object V h' ob' = Some x"
    and cells: "\<And>a. a \<in> set (reach_object V h' ob') \<Longrightarrow> length h \<le> a \<and> a < length h'"
    by metis
  have "cell_at (stores ws (h' @ e)) a = cell_at h' a" if "a \<in> set (reach_object V h' ob')" for a
    by (rule cell_at_later) (use cells [OF that] assms(3) in fastforce)+
  then show ?thesis using object_local [OF copy] by blast
qed

lemma original_independent:
  assumes "view_object V h ob = Some x" and "DeepCopyObject X ob h = Some (Some ob', h')"
    and "\<forall>(a, c) \<in> set ws. length h \<le> a"
  shows "view_object V (stores ws (h' @ e)) ob = Some x"
proof -
  from object_copy_runs [OF assms(1,2)] obtain e0 where h': "h' = h @ e0" by metis
  have "cell_at (stores ws (h' @ e)) a = cell_at h a" if "a \<in> set (reach_object V h ob)" for a
  proof -
    have a: "a < length h" using object_local [OF assms(1)] that by blast
    have "cell_at (stores ws (h' @ e)) a = cell_at h' a"
      by (rule cell_at_later) (use a h' assms(3) in fastforce)+
    with a show ?thesis by (simp add: h')
  qed
  then show ?thesis using object_local [OF assms(1)] by blast
qed

end

section \<open>Properties\<close>

text \<open>
  C26: Deep copies are well typed and faithful. \<open>DeepCopyObject\<close> of any root object that can be
  read does not panic, only allocates, and returns an object of the same dynamic type that is
  seen as the same value; for a nil pointer it returns the nil interface, never an interface
  that holds a nil pointer. The copy shares no cell with the original and none between its parts.
\<close>

theorem deep_copy_faithful:
  assumes "imported_types X V" and "view_object V h ob = Some x"
  shows "\<exists>ob' e. DeepCopyObject X ob h = Some (if object_ptr ob = None then None else Some ob', h @ e)
    \<and> (object_ptr ob' = None \<longleftrightarrow> object_ptr ob = None) \<and> view_object V (h @ e) ob' = Some x
    \<and> fresh_cells (length h) (reach_object V (h @ e) ob')"
  using imported_types.deep_copy_object [OF assms] unfolding faithful_copy_def
  by (elim exE conjE) (intro exI conjI; assumption)

theorem deep_copy_faithful_witness:
  "\<exists>ob' h'. DeepCopyObject mem_methods (WorkspaceObject (Some 0)) team_heap = Some (Some ob', h')
     \<and> view_object mem_views h' ob' = Some (SeenWorkspace (Some team_seen))"
  using deep_copy_faithful [OF mem_imports.imported_types_axioms team_in_memory] by auto

text \<open>
  C11: Copy and original are independent. After \<open>DeepCopyObject\<close>, no sequence of writes to cells
  that are not the copy's (those of the original, or later ones) changes the value of the copy,
  and none to cells that did not exist before the copy changes the value of the original.
\<close>

theorem deep_copy_independent:
  assumes "imported_types X V" and "view_object V h ob = Some x"
    and "DeepCopyObject X ob h = Some (Some ob', h')"
  shows "(\<forall>ws e. (\<forall>(a, c) \<in> set ws. a < length h \<or> length h' \<le> a) \<longrightarrow>
      view_object V (stores ws (h' @ e)) ob' = Some x)
    \<and> (\<forall>ws e. (\<forall>(a, c) \<in> set ws. length h \<le> a) \<longrightarrow> view_object V (stores ws (h' @ e)) ob = Some x)"
  using imported_types.copy_independent [OF assms] imported_types.original_independent [OF assms]
  by blast

text \<open>The sample Workspace is copied and then changed in place: its condition and its labels.\<close>

definition team_writes :: "(addr \<times> ext cell) list" where
  "team_writes = [(7, ImportedArray []), (1, payload_cell (LabelsPayload Map.empty))]"

theorem deep_copy_independent_witness:
  "\<exists>ob' h'. DeepCopyObject mem_methods (WorkspaceObject (Some 0)) team_heap = Some (Some ob', h')
     \<and> view_object mem_views (stores team_writes h') ob' = Some (SeenWorkspace (Some team_seen))
     \<and> view_object mem_views (stores team_writes h') (WorkspaceObject (Some 0)) \<noteq>
         Some (SeenWorkspace (Some team_seen))"
proof -
  obtain ob' e where run:
    "DeepCopyObject mem_methods (WorkspaceObject (Some 0)) team_heap = Some (Some ob', team_heap @ e)"
    using mem_imports.deep_copy_object [OF team_in_memory] by (auto simp: faithful_copy_def)
  have "\<forall>(a, c) \<in> set team_writes. a < length team_heap \<or> length (team_heap @ e) \<le> a"
    by (simp add: team_writes_def team_heap_def)
  then have "view_object mem_views (stores team_writes ((team_heap @ e) @ [])) ob' =
      Some (SeenWorkspace (Some team_seen))"
    using deep_copy_independent [OF mem_imports.imported_types_axioms team_in_memory run] by blast
  moreover have "view_object mem_views (stores team_writes (team_heap @ e)) (WorkspaceObject (Some 0)) \<noteq>
      Some (SeenWorkspace (Some team_seen))"
    by (simp add: team_writes_def view_defs team_heap_def team_struct_def mem_views_def decoded_def
        view_ext_def payload_cell_def as_payload_def)
  ultimately show ?thesis using run by auto
qed

end
