(* ===== verification/Api_Registration.thy ===== *)
theory Api_Registration
  imports DeepCopy_Objects Manager_Main
begin

text \<open>
  The registration of the types in the scheme: the two \<open>groupversion_info.go\<close>, the \<open>init\<close>
  functions of the type files, and the \<open>init\<close> function of \<open>cmd/main.go\<close>. The scheme and its
  builder are those of apimachinery and controller-runtime, a parameter here; the locale
  \<open>scheme_api\<close> states what adding types does to the set of kinds a scheme knows.
\<close>

section \<open>The library\<close>

datatype api_package = ClientGoScheme | ApiExtensionsV1 | IstioSecurityV1 | HelmV2 | KustomizeV1

type_synonym gvk = "string \<times> string \<times> string"

record ('b, 'sch) scheme_lib =
  sl_builder :: "string \<Rightarrow> string \<Rightarrow> 'b"
  sl_register :: "'b \<Rightarrow> string list \<Rightarrow> 'b"
  sl_builder_add :: "'b \<Rightarrow> 'sch \<Rightarrow> go_error option \<times> 'sch"
  sl_package_add :: "api_package \<Rightarrow> 'sch \<Rightarrow> go_error option \<times> 'sch"
  sl_new_scheme :: 'sch

section \<open>The two API groups\<close>

definition tenant_GroupVersion :: "string \<times> string" where
  "tenant_GroupVersion = (''tenant.otterscale.io'', ''v1alpha1'')"

definition addons_GroupVersion :: "string \<times> string" where
  "addons_GroupVersion = (''addons.otterscale.io'', ''v1alpha1'')"

text \<open>
  The builder after the \<open>init\<close> functions of the package have run, in the order of the file
  names.
\<close>

definition init_workspace_types :: "('b, 'sch) scheme_lib \<Rightarrow> 'b \<Rightarrow> 'b" where
  "init_workspace_types L b = sl_register L b [''Workspace'', ''WorkspaceList'']"

definition init_module_types :: "('b, 'sch) scheme_lib \<Rightarrow> 'b \<Rightarrow> 'b" where
  "init_module_types L b = sl_register L b [''Module'', ''ModuleList'']"

definition init_moduletemplate_types :: "('b, 'sch) scheme_lib \<Rightarrow> 'b \<Rightarrow> 'b" where
  "init_moduletemplate_types L b = sl_register L b [''ModuleTemplate'', ''ModuleTemplateList'']"

definition tenant_SchemeBuilder :: "('b, 'sch) scheme_lib \<Rightarrow> 'b" where
  "tenant_SchemeBuilder L =
     init_workspace_types L (sl_builder L (fst tenant_GroupVersion) (snd tenant_GroupVersion))"

definition addons_SchemeBuilder :: "('b, 'sch) scheme_lib \<Rightarrow> 'b" where
  "addons_SchemeBuilder L =
     init_moduletemplate_types L (init_module_types L
       (sl_builder L (fst addons_GroupVersion) (snd addons_GroupVersion)))"

section \<open>The scheme of the manager\<close>

text \<open>\<open>utilruntime.Must(add(scheme))\<close>: an error is a panic.\<close>

definition must_add :: "('sch \<Rightarrow> go_error option \<times> 'sch) \<Rightarrow> 'sch go_result \<Rightarrow> 'sch go_result" where
  "must_add add r =
     (case r of Panics \<Rightarrow> Panics
      | Returns s \<Rightarrow> (case add s of (None, s') \<Rightarrow> Returns s' | (Some err, s') \<Rightarrow> Panics))"

definition main_init :: "('b, 'sch) scheme_lib \<Rightarrow> 'sch go_result" where
  "main_init L =
     fold must_add
       [sl_package_add L ClientGoScheme, sl_package_add L ApiExtensionsV1,
        sl_package_add L IstioSecurityV1, sl_package_add L HelmV2, sl_package_add L KustomizeV1,
        sl_builder_add L (tenant_SchemeBuilder L), sl_builder_add L (addons_SchemeBuilder L)]
       (Returns (sl_new_scheme L))"

section \<open>What the scheme knows\<close>

text \<open>
  A builder on which types have been registered adds them to the scheme and, for their group
  version, the kinds that every API group has: its \<open>Register\<close> calls \<open>metav1.AddToGroupVersion\<close>
  (watch events, options of the requests). Which these are is a parameter, \<open>machinery\<close>.
\<close>

locale scheme_api =
  fixes L :: "('b, 'sch) scheme_lib"
    and types_of :: "'b \<Rightarrow> string \<times> string \<times> string set"
    and provides :: "api_package \<Rightarrow> gvk set"
    and knows :: "'sch \<Rightarrow> gvk set"
    and machinery :: "string \<Rightarrow> string \<Rightarrow> gvk set"
  assumes builder_types: "types_of (sl_builder L g v) = (g, v, {})"
    and register_types:
      "types_of b = (g, v, ks) \<Longrightarrow> types_of (sl_register L b names) = (g, v, ks \<union> set names)"
    and builder_add_knows:
      "sl_builder_add L b s = (None, s') \<Longrightarrow> types_of b = (g, v, ks) \<Longrightarrow>
         ks \<noteq> {} \<Longrightarrow> knows s' = knows s \<union> {(g, v, k) |k. k \<in> ks} \<union> machinery g v"
    and package_add_knows: "sl_package_add L p s = (None, s') \<Longrightarrow> knows s' = knows s \<union> provides p"
    and new_knows: "knows (sl_new_scheme L) = {}"
begin

lemma must_add_ok:
  "must_add add r = Returns s' \<Longrightarrow> \<exists>s. r = Returns s \<and> add s = (None, s')"
  by (auto simp: must_add_def split: go_result.splits prod.splits option.splits)

lemma must_packages:
  "fold must_add (map (sl_package_add L) ps) (Returns s) = Returns s' \<Longrightarrow>
     knows s' = knows s \<union> (\<Union>p \<in> set ps. provides p)"
proof (induction ps arbitrary: s' rule: rev_induct)
  case (snoc p ps)
  then obtain t where t: "fold must_add (map (sl_package_add L) ps) (Returns s) = Returns t"
      "sl_package_add L p t = (None, s')"
    using must_add_ok by fastforce
  from snoc.IH [OF t(1)] package_add_knows [OF t(2)] show ?case by auto
qed simp

lemma builders_types:
  "types_of (tenant_SchemeBuilder L) = (''tenant.otterscale.io'', ''v1alpha1'', {''Workspace'', ''WorkspaceList''})"
  "types_of (addons_SchemeBuilder L) = (''addons.otterscale.io'', ''v1alpha1'',
     {''Module'', ''ModuleList'', ''ModuleTemplate'', ''ModuleTemplateList''})"
  using register_types [OF builder_types] register_types [OF register_types [OF builder_types]]
  by (auto simp: tenant_SchemeBuilder_def addons_SchemeBuilder_def init_workspace_types_def
      init_module_types_def init_moduletemplate_types_def tenant_GroupVersion_def addons_GroupVersion_def)

lemma init_knows:
  assumes "main_init L = Returns s"
  shows "knows s = (\<Union>p. provides p)
    \<union> {(''tenant.otterscale.io'', ''v1alpha1'', k) |k. k \<in> {''Workspace'', ''WorkspaceList''}}
    \<union> {(''addons.otterscale.io'', ''v1alpha1'', k) |k.
         k \<in> {''Module'', ''ModuleList'', ''ModuleTemplate'', ''ModuleTemplateList''}}
    \<union> machinery ''tenant.otterscale.io'' ''v1alpha1'' \<union> machinery ''addons.otterscale.io'' ''v1alpha1''"
proof -
  let ?ps = "[ClientGoScheme, ApiExtensionsV1, IstioSecurityV1, HelmV2, KustomizeV1]"
  have all: "(\<Union>p \<in> set ?ps. provides p) = (\<Union>p. provides p)"
    by (auto intro: api_package.exhaust) (metis api_package.exhaust)
  have "main_init L = must_add (sl_builder_add L (addons_SchemeBuilder L))
      (must_add (sl_builder_add L (tenant_SchemeBuilder L))
        (fold must_add (map (sl_package_add L) ?ps) (Returns (sl_new_scheme L))))"
    by (simp add: main_init_def)
  with assms obtain u where s: "sl_builder_add L (addons_SchemeBuilder L) u = (None, s)"
    and u': "must_add (sl_builder_add L (tenant_SchemeBuilder L))
        (fold must_add (map (sl_package_add L) ?ps) (Returns (sl_new_scheme L))) = Returns u"
    using must_add_ok by metis
  then obtain t where t: "fold must_add (map (sl_package_add L) ?ps) (Returns (sl_new_scheme L)) = Returns t"
    and u: "sl_builder_add L (tenant_SchemeBuilder L) t = (None, u)"
    using must_add_ok by metis
  have "knows t = (\<Union>p. provides p)" using must_packages [OF t] new_knows all by simp
  moreover have "knows u = knows t \<union> {(''tenant.otterscale.io'', ''v1alpha1'', k) |k. k \<in> {''Workspace'', ''WorkspaceList''}}
      \<union> machinery ''tenant.otterscale.io'' ''v1alpha1''"
    by (rule builder_add_knows [OF u builders_types(1)]) simp
  moreover have "knows s = knows u \<union> {(''addons.otterscale.io'', ''v1alpha1'', k) |k.
         k \<in> {''Module'', ''ModuleList'', ''ModuleTemplate'', ''ModuleTemplateList''}}
      \<union> machinery ''addons.otterscale.io'' ''v1alpha1''"
    by (rule builder_add_knows [OF s builders_types(2)]) simp
  ultimately show ?thesis by (simp only: Un_ac)
qed

end

section \<open>The registered types are the copyable ones\<close>

text \<open>The kind under which the API server knows a root object, by its dynamic type.\<close>

fun object_kind :: "runtime_object \<Rightarrow> gvk" where
  "object_kind (WorkspaceObject p) = (''tenant.otterscale.io'', ''v1alpha1'', ''Workspace'')"
| "object_kind (WorkspaceListObject p) = (''tenant.otterscale.io'', ''v1alpha1'', ''WorkspaceList'')"
| "object_kind (ModuleObject p) = (''addons.otterscale.io'', ''v1alpha1'', ''Module'')"
| "object_kind (ModuleListObject p) = (''addons.otterscale.io'', ''v1alpha1'', ''ModuleList'')"
| "object_kind (ModuleTemplateObject p) = (''addons.otterscale.io'', ''v1alpha1'', ''ModuleTemplate'')"
| "object_kind (ModuleTemplateListObject p) = (''addons.otterscale.io'', ''v1alpha1'', ''ModuleTemplateList'')"

lemma object_kinds:
  "range object_kind =
     {(''tenant.otterscale.io'', ''v1alpha1'', k) |k. k \<in> {''Workspace'', ''WorkspaceList''}}
     \<union> {(''addons.otterscale.io'', ''v1alpha1'', k) |k.
          k \<in> {''Module'', ''ModuleList'', ''ModuleTemplate'', ''ModuleTemplateList''}}"
proof -
  have pairs: "{(g, v, k) |k. k \<in> {a, b}} \<union> {(g', v', k) |k. k \<in> {c, d, e, f}} =
      {(g, v, a), (g, v, b), (g', v', c), (g', v', d), (g', v', e), (g', v', f)}"
    for g v a b g' v' c d e f :: string by auto
  let ?obs = "{WorkspaceObject None, WorkspaceListObject None, ModuleObject None, ModuleListObject None,
      ModuleTemplateObject None, ModuleTemplateListObject None}"
  have kind: "object_kind ob \<in> object_kind ` ?obs" for ob
    by (cases ob) (simp_all only: image_insert image_empty object_kind.simps insert_iff simp_thms)
  have "range object_kind = object_kind ` ?obs" using kind by blast
  then show ?thesis by (simp only: pairs image_insert image_empty object_kind.simps)
qed

text \<open>
  C36: Every type is registered under its kind. When the \<open>init\<close> functions end without a panic, the
  scheme of the manager knows, in the operator's two API groups, exactly the kinds of the six root
  types that have a \<open>DeepCopyObject\<close> method and the kinds that the library gives every group
  version, and it knows everything that the imported packages provide.
\<close>

theorem scheme_serves_own_types:
  assumes "scheme_api L types_of provides knows machinery" and "main_init L = Returns s"
    and "\<And>p g v k. (g, v, k) \<in> provides p \<Longrightarrow> g \<noteq> ''tenant.otterscale.io'' \<and> g \<noteq> ''addons.otterscale.io''"
    and "g = ''tenant.otterscale.io'' \<or> g = ''addons.otterscale.io''"
  shows "((g, v, k) \<in> knows s \<longleftrightarrow>
      (\<exists>ob. object_kind ob = (g, v, k))
      \<or> (g, v, k) \<in> machinery ''tenant.otterscale.io'' ''v1alpha1'' \<union> machinery ''addons.otterscale.io'' ''v1alpha1'')
    \<and> provides p \<subseteq> knows s"
proof -
  have "knows s = (\<Union>p. provides p) \<union> range object_kind
      \<union> machinery ''tenant.otterscale.io'' ''v1alpha1'' \<union> machinery ''addons.otterscale.io'' ''v1alpha1''"
    unfolding object_kinds using scheme_api.init_knows [OF assms(1,2)] by (simp only: Un_assoc)
  moreover have "(g, v, k) \<notin> (\<Union>p. provides p)" using assms(3,4) by blast
  moreover have "(g, v, k) \<in> range object_kind \<longleftrightarrow> (\<exists>ob. object_kind ob = (g, v, k))"
    unfolding image_iff by (simp only: bex_UNIV eq_commute [of "(g, v, k)"])
  ultimately show ?thesis by blast
qed

section \<open>A scheme in memory\<close>

fun mem_provides :: "api_package \<Rightarrow> gvk list" where
  "mem_provides ClientGoScheme =
     [('''', ''v1'', ''Namespace''), ('''', ''v1'', ''ResourceQuota''), ('''', ''v1'', ''LimitRange''),
      (''rbac.authorization.k8s.io'', ''v1'', ''RoleBinding''),
      (''networking.k8s.io'', ''v1'', ''NetworkPolicy'')]"
| "mem_provides ApiExtensionsV1 = [(''apiextensions.k8s.io'', ''v1'', ''CustomResourceDefinition'')]"
| "mem_provides IstioSecurityV1 =
     [(''security.istio.io'', ''v1'', ''PeerAuthentication''),
      (''security.istio.io'', ''v1'', ''AuthorizationPolicy'')]"
| "mem_provides HelmV2 = [(''helm.toolkit.fluxcd.io'', ''v2'', ''HelmRelease'')]"
| "mem_provides KustomizeV1 = [(''kustomize.toolkit.fluxcd.io'', ''v1'', ''Kustomization'')]"

text \<open>The kinds of \<open>metav1.AddToGroupVersion\<close>.\<close>

definition mem_machinery :: "string \<Rightarrow> string \<Rightarrow> gvk list" where
  "mem_machinery g v =
     map (\<lambda>k. (g, v, k))
       [''WatchEvent'', ''ListOptions'', ''GetOptions'', ''DeleteOptions'', ''CreateOptions'',
        ''UpdateOptions'', ''PatchOptions'']
     @ (g, ''__internal'', ''WatchEvent'')
     # map (\<lambda>k. ('''', ''v1'', k))
       [''Status'', ''APIVersions'', ''APIGroupList'', ''APIGroup'', ''APIResourceList'']"

definition mem_scheme_lib :: "(string \<times> string \<times> string list, gvk list) scheme_lib" where
  "mem_scheme_lib =
     \<lparr> sl_builder = (\<lambda>g v. (g, v, [])),
       sl_register = (\<lambda>(g, v, ks) names. (g, v, ks @ names)),
       sl_builder_add = (\<lambda>(g, v, ks) s. (None, s @ map (\<lambda>k. (g, v, k)) ks @ mem_machinery g v)),
       sl_package_add = (\<lambda>p s. (None, s @ mem_provides p)),
       sl_new_scheme = [] \<rparr>"

interpretation mem_scheme: scheme_api mem_scheme_lib "\<lambda>(g, v, ks). (g, v, set ks)"
  "\<lambda>p. set (mem_provides p)" set "\<lambda>g v. set (mem_machinery g v)"
  by unfold_locales (auto simp: mem_scheme_lib_def split: prod.splits)

theorem scheme_serves_own_types_witness:
  "\<exists>s. main_init mem_scheme_lib = Returns s
     \<and> (''addons.otterscale.io'', ''v1alpha1'', ''ModuleTemplate'') \<in> set s
     \<and> (''addons.otterscale.io'', ''v1alpha1'', ''Workspace'') \<notin> set s"
proof -
  have "main_init mem_scheme_lib \<noteq> Panics"
    by (simp add: main_init_def must_add_def mem_scheme_lib_def tenant_SchemeBuilder_def
        addons_SchemeBuilder_def init_workspace_types_def init_module_types_def
        init_moduletemplate_types_def)
  then obtain s where s: "main_init mem_scheme_lib = Returns s"
    by (cases "main_init mem_scheme_lib") auto
  have foreign: "g \<noteq> ''tenant.otterscale.io'' \<and> g \<noteq> ''addons.otterscale.io''"
    if "(g, v, k) \<in> set (mem_provides p)" for p g v k
    using that by (cases p) auto
  have own: "(''addons.otterscale.io'', v, k) \<in> set s \<longleftrightarrow>
      (\<exists>ob. object_kind ob = (''addons.otterscale.io'', v, k))
      \<or> (''addons.otterscale.io'', v, k) \<in> set (mem_machinery ''tenant.otterscale.io'' ''v1alpha1'')
          \<union> set (mem_machinery ''addons.otterscale.io'' ''v1alpha1'')" for v k
    by (rule conjunct1 [OF scheme_serves_own_types [OF mem_scheme.scheme_api_axioms s]])
      (use foreign in simp_all)
  have free: "(''addons.otterscale.io'', ''v1alpha1'', ''Workspace'') \<notin>
      set (mem_machinery ''tenant.otterscale.io'' ''v1alpha1'') \<union> set (mem_machinery ''addons.otterscale.io'' ''v1alpha1'')"
    by (simp add: mem_machinery_def)
  have "\<exists>ob. object_kind ob = (''addons.otterscale.io'', ''v1alpha1'', ''ModuleTemplate'')"
    by (rule exI [of _ "ModuleTemplateObject None"]) simp
  moreover have "\<nexists>ob. object_kind ob = (''addons.otterscale.io'', ''v1alpha1'', ''Workspace'')"
  proof
    assume "\<exists>ob. object_kind ob = (''addons.otterscale.io'', ''v1alpha1'', ''Workspace'')"
    then obtain ob where "object_kind ob = (''addons.otterscale.io'', ''v1alpha1'', ''Workspace'')" by blast
    then show False by (cases ob) simp_all
  qed
  ultimately show ?thesis using s own free by blast
qed

end
