(* ===== verification/Workspace_Stability.thy ===== *)
theory Workspace_Stability
  imports Workspace_Convergence
begin

text \<open>
  A Workspace that is ready stays ready: no reconciliation of it, failed ones included, disturbs
  a child that is as desired, and a namespace that has a controller is kept by it. The contract
  \<open>stable_on\<close> composes like the other contracts of a reconcile step.
\<close>

section \<open>Stable steps\<close>

definition stable_on :: "('s \<Rightarrow> 'k \<Rightarrow> 'o option) \<Rightarrow> 's step \<Rightarrow> (('k \<Rightarrow> 'o option) \<Rightarrow> bool) \<Rightarrow> bool" where
  "stable_on view f P \<longleftrightarrow> (\<forall>s r s'. P (view s) \<longrightarrow> f s = (r, s') \<longrightarrow> P (view s'))"

lemma stable_onD: "stable_on view f P \<Longrightarrow> P (view s) \<Longrightarrow> f s = (r, s') \<Longrightarrow> P (view s')"
  by (auto simp: stable_on_def)

lemma stable_on_then:
  assumes f: "stable_on view f P" "reconcile_step view f F P"
    and g: "stable_on view g Q" "reconcile_step view g G Q"
    and disjoint: "F \<inter> G = {}"
  shows "stable_on view (then_ok f g) (\<lambda>v. P v \<and> Q v)"
  unfolding stable_on_def
proof (intro allI impI)
  fix s r s'
  assume goal: "P (view s) \<and> Q (view s)" and run: "then_ok f g s = (r, s')"
  obtain e t where ft: "f s = (e, t)" by force
  have P: "P (view t)" using stable_onD [OF f(1) _ ft] goal by blast
  have "\<forall>k \<in> G. view t k = view s k" by (rule reconcile_step.frame_set [OF f(2) ft disjoint])
  then have Q: "Q (view t)" using reconcile_step.goal_survives [OF g(2)] goal by blast
  show "P (view s') \<and> Q (view s')"
  proof (cases e)
    case None
    with ft run have gt: "g t = (r, s')" by (simp add: then_ok_def)
    have "\<forall>k \<in> F. view s' k = view t k"
      by (rule reconcile_step.frame_set [OF g(2) gt]) (use disjoint in blast)
    then have "P (view s')" using reconcile_step.goal_survives [OF f(2) P] by blast
    with stable_onD [OF g(1) Q gt] show ?thesis by blast
  next
    case (Some err)
    with ft run P Q show ?thesis by (simp add: then_ok_def)
  qed
qed

lemma stable_on_run:
  assumes "\<And>x. x \<in> set xs \<Longrightarrow> stable_on view (f x) (P x)"
    and "\<And>x. x \<in> set xs \<Longrightarrow> reconcile_step view (f x) (F x) (P x)"
    and "distinct xs"
    and "\<And>x y. x \<in> set xs \<Longrightarrow> y \<in> set xs \<Longrightarrow> x \<noteq> y \<Longrightarrow> F x \<inter> F y = {}"
  shows "stable_on view (run_steps (map f xs)) (\<lambda>v. \<forall>x \<in> set xs. P x v)"
  using assms
proof (induction xs)
  case Nil
  show ?case by (simp add: stable_on_def)
next
  case (Cons x xs)
  have "F x \<inter> (\<Union>x \<in> set xs. F x) = {}" using Cons.prems(3,4) by fastforce
  moreover have "reconcile_step view (run_steps (map f xs)) (\<Union>x \<in> set xs. F x)
      (\<lambda>v. \<forall>x \<in> set xs. P x v)"
    by (rule reconcile_step_run) (use Cons.prems in auto)
  ultimately have "stable_on view (then_ok (f x) (run_steps (map f xs)))
      (\<lambda>v. P x v \<and> (\<forall>y \<in> set xs. P y v))"
    using Cons by (intro stable_on_then) auto
  then show ?case by (simp add: run_steps_Cons)
qed

section \<open>The steps of a Workspace\<close>

context kube_api
begin

lemma create_or_update_stable:
  assumes "\<And>b ob' x. key_of b = key_of ob \<Longrightarrow> f b = Inr ob' \<Longrightarrow> written dflt ob' x \<Longrightarrow> Q x"
  shows "stable_on view (k_create_or_update K ob f) (\<lambda>v. \<exists>x. v (key_of ob) = Some x \<and> Q x)"
  unfolding stable_on_def
proof (intro allI impI)
  fix s r s'
  assume goal: "\<exists>x. view s (key_of ob) = Some x \<and> Q x" and run: "k_create_or_update K ob f s = (r, s')"
  have key: "key_of (base_of view s ob) = key_of ob"
    using view_key by (auto simp: base_of_def split: option.splits)
  have written: "\<exists>x. view s' (key_of ob) = Some x \<and> Q x"
    if f: "f (base_of view s ob) = Inr ob'" and app: "applied view dflt (key_of ob) ob' s s'" for ob'
    using applied_written [OF app] assms [OF key f] by blast
  show "\<exists>x. view s' (key_of ob) = Some x \<and> Q x"
  proof (cases r)
    case None
    with run create_or_update_ok [of ob f s s'] written show ?thesis by blast
  next
    case (Some e)
    with run have "view s' = view s \<or> (\<exists>ob'. f (base_of view s ob) = Inr ob'
        \<and> applied view dflt (key_of ob) ob' s s')"
      using create_or_update_error [of ob f s e s'] by blast
    then show ?thesis
    proof
      assume "view s' = view s"
      with goal show ?thesis by simp
    qed (use written in blast)
  qed
qed

lemma manage_child_stable:
  "stable_on view (manage_child K nm w version k d) (\<lambda>v. conforms K dflt w version d (v k))"
proof (cases d)
  case MustBeAbsent
  have "view s' = view s" if "gone_or_terminating (view s) k" "k_delete K k s = (r, s')" for r s s'
    using delete_gone that by blast
  then show ?thesis
    by (auto simp: stable_on_def MustBeAbsent manage_child_def conforms_absent_iff
        delete_ignoring_not_found_def delete_ignoring_no_match_def split: prod.splits if_splits)
next
  case (MustExist sp)
  obtain kd ns name where k: "k = (kd, ns, name)" by (cases k)
  have "stable_on view (k_create_or_update K (new_object kd ns name) (write_child K w version sp))
      (\<lambda>v. \<exists>x. v (key_of (new_object kd ns name)) = Some x
         \<and> conforms K dflt w version (MustExist sp) (Some x))"
    by (rule create_or_update_stable) (rule write_child_ok)
  then show ?thesis by (simp add: MustExist k manage_child_def exists_conforms_eq)
qed

lemma namespace_stable:
  "stable_on view (ReconcileNamespace K w version istio)
     (\<lambda>v. namespace_ready K dflt w version istio (v (namespace_key w)))"
proof -
  have "stable_on view (ReconcileNamespace K w version istio)
      (\<lambda>v. \<exists>x. v (key_of (new_object NamespaceKind '''' (w_namespace w))) = Some x
         \<and> namespace_ready K dflt w version istio (Some x))"
    unfolding ReconcileNamespace_def by (rule create_or_update_stable) (rule mutate_namespace_ok)
  then show ?thesis by (simp add: namespace_key_def namespace_goal_eq)
qed

lemma role_bindings_stable:
  "stable_on view (ReconcileRoleBindings K w version)
     (\<lambda>v. \<forall>role \<in> set orderedRoles.
        conforms K dflt w version (desired_role_binding w role) (v (role_binding_key w role)))"
  unfolding ReconcileRoleBindings_manage
  by (rule stable_on_run [OF manage_child_stable manage_child_step distinct_orderedRoles])
    (auto simp: role_binding_key_def role_binding_name_def)

lemma isolation_stable:
  "stable_on view (ReconcileNetworkIsolation K w version istio) (network_isolated K dflt w version istio)"
  unfolding ReconcileNetworkIsolation_def network_isolation_manage network_isolated_def [abs_def]
  by (rule stable_on_then [OF manage_child_stable manage_child_step
        stable_on_then [OF manage_child_stable manage_child_step manage_child_stable manage_child_step]
        reconcile_step_then [OF manage_child_step manage_child_step]])
    (auto simp: child_keys)

lemma resources_stable:
  "stable_on view (reconcileResources K w version istio) (workspace_ready K dflt w version istio)"
proof -
  note quota = manage_child_step [where k = "quota_key w" and d = "desired_quota w" and nm = False
      and w = w and version = version]
  note limits = manage_child_step [where k = "limits_key w" and d = "desired_limits w" and nm = False
      and w = w and version = version]
  note last = reconcile_step_then [OF limits network_isolation_step]
  note rest = reconcile_step_then [OF quota last]
  show ?thesis
    unfolding reconcileResources_def workspace_ready_split [abs_def]
      ReconcileResourceQuota_manage ReconcileLimitRange_manage
    by (rule stable_on_then [OF namespace_stable namespace_step
          stable_on_then [OF role_bindings_stable role_bindings_step
            stable_on_then [OF manage_child_stable quota
              stable_on_then [OF manage_child_stable limits isolation_stable network_isolation_step]
              last] rest] reconcile_step_then [OF role_bindings_step rest]])
      (auto simp: network_isolation_keys_def child_keys)
qed

end

section \<open>The controller of a namespace\<close>

text \<open>The namespace of the Workspace exists and the Workspace is its controller.\<close>

definition holds_namespace :: "workspace \<Rightarrow> (key \<Rightarrow> kobject option) \<Rightarrow> bool" where
  "holds_namespace w v \<longleftrightarrow>
     (case v (namespace_key w) of None \<Rightarrow> False
      | Some x \<Rightarrow> controlled_by (workspace_owner w) (obj_meta x) \<and> creation_timestamp (obj_meta x) \<noteq> None)"

lemma holds_namespace_cong:
  "v (namespace_key w) = v' (namespace_key w) \<Longrightarrow> holds_namespace w v = holds_namespace w v'"
  by (simp add: holds_namespace_def)

lemma holds_namespace_same:
  "w_name w' = w_name w \<Longrightarrow> w_uid w' = w_uid w \<Longrightarrow> w_namespace w' = w_namespace w \<Longrightarrow>
     holds_namespace w' = holds_namespace w"
  by (simp add: fun_eq_iff holds_namespace_def workspace_owner_def namespace_key_def
      cong: option.case_cong)

lemma ready_holds_namespace: "workspace_ready K dflt w version istio v \<Longrightarrow> holds_namespace w v"
  by (auto simp: workspace_ready_def namespace_ready_def holds_namespace_def settled_owner_def
      split: option.splits)

text \<open>
  The namespace is held by one Workspace at a time: where one holds it, no Workspace of another
  name is ready with it.
\<close>

lemma held_excludes_ready:
  assumes K: "kube_api K view dflt" and held: "holds_namespace w v"
    and ready: "workspace_ready K dflt w' version istio v" and ns: "w_namespace w' = w_namespace w"
  shows "w_name w' = w_name w"
proof (rule ccontr)
  assume name: "w_name w' \<noteq> w_name w"
  have key: "namespace_key w' = namespace_key w" using ns by (simp add: namespace_key_def)
  obtain x where x: "v (namespace_key w) = Some x" "controlled_by (workspace_owner w) (obj_meta x)"
    using held by (auto simp: holds_namespace_def split: option.splits)
  have "controlled_by_other (workspace_owner w') (obj_meta x)"
    by (rule controlled_by_one [OF x(2)]) (use name in simp)
  then obtain e where "k_set_controller_reference K (workspace_owner w') (obj_meta x) = Inl e"
    using kube_api.set_controller_reference_taken [OF K] by blast
  moreover have "settled_owner K (workspace_owner w') (obj_meta x)"
    using ready x(1) by (simp add: workspace_ready_def namespace_ready_def key)
  ultimately show False by (simp add: settled_owner_def)
qed

lemma reconcile_step_weaken:
  assumes "reconcile_step view f F P"
  shows "reconcile_step view f F (\<lambda>_. True)"
  by unfold_locales (auto intro: reconcile_step.step_frame [OF assms])

context kube_api
begin

text \<open>A namespace another Workspace controls makes the step fail and stays as it is.\<close>

lemma namespace_taken:
  assumes held: "holds_namespace w (view s)" and ns: "w_namespace w' = w_namespace w"
    and name: "w_name w' \<noteq> w_name w" and run: "ReconcileNamespace K w' version istio s = (r, s')"
  shows "r \<noteq> None \<and> view s' = view s"
proof -
  obtain x where x: "view s (namespace_key w) = Some x" "controlled_by (workspace_owner w) (obj_meta x)"
    using held by (auto simp: holds_namespace_def split: option.splits)
  let ?l = "Some (namespace_labels w' version istio (meta_labels (obj_meta x)))"
  have "controlled_by (workspace_owner w) (obj_meta (set_labels ?l x))"
    using x(2) by (simp add: controlled_by_def)
  then have "controlled_by_other (workspace_owner w') (obj_meta (set_labels ?l x))"
    by (rule controlled_by_one) (use name in simp)
  then obtain e where "own_by K (workspace_owner w') (set_labels ?l x) = Inl e" using own_by_taken by blast
  then have "\<exists>c. mutate_namespace K w' version istio x = Inl c" by (simp add: mutate_namespace_def)
  then obtain c where "mutate_namespace K w' version istio x = Inl c" by blast
  then have "mutate_namespace K w' version istio
      (base_of view s (new_object NamespaceKind '''' (w_namespace w'))) = Inl c"
    using x(1) ns by (simp add: base_of_def namespace_key_def)
  from create_or_update_refused [OF run [unfolded ReconcileNamespace_def] this] show ?thesis by blast
qed

lemma namespace_hold_step:
  "reconcile_step view (ReconcileNamespace K w version istio) {namespace_key w} (holds_namespace w)"
  "stable_on view (ReconcileNamespace K w version istio) (holds_namespace w)"
proof -
  let ?ob = "new_object NamespaceKind '''' (w_namespace w)"
  let ?Q = "\<lambda>x. controlled_by (workspace_owner w) (obj_meta x) \<and> creation_timestamp (obj_meta x) \<noteq> None"
  have eq: "(\<lambda>v. \<exists>x. v (key_of ?ob) = Some x \<and> ?Q x) = holds_namespace w"
    by (auto simp: fun_eq_iff holds_namespace_def namespace_key_def split: option.splits)
  have Q: "?Q x" if "key_of b = key_of ?ob" "mutate_namespace K w version istio b = Inr ob'" "written dflt ob' x" for b ob' x
    using mutate_namespace_ok [OF that] by (auto simp: namespace_ready_def settled_owner_def)
  have key: "key_of ?ob = namespace_key w" by (simp add: namespace_key_def)
  show "reconcile_step view (ReconcileNamespace K w version istio) {namespace_key w} (holds_namespace w)"
    unfolding eq [symmetric] ReconcileNamespace_def key [symmetric]
    by (rule create_or_update_step) (rule Q)
  show "stable_on view (ReconcileNamespace K w version istio) (holds_namespace w)"
    unfolding eq [symmetric] ReconcileNamespace_def by (rule create_or_update_stable) (rule Q)
qed

lemma resources_hold_namespace:
  "stable_on view (reconcileResources K w version istio) (holds_namespace w)"
proof -
  have rest: "reconcile_step view
      (then_ok (ReconcileRoleBindings K w version)
        (then_ok (ReconcileResourceQuota K w version)
          (then_ok (ReconcileLimitRange K w version) (ReconcileNetworkIsolation K w version istio))))
      (role_binding_key w ` set orderedRoles \<union> ({quota_key w} \<union> ({limits_key w} \<union> network_isolation_keys w)))
      (\<lambda>_. True)"
    by (rule reconcile_step_weaken [OF reconcile_step_then [OF role_bindings_step
          reconcile_step_then [OF quota.reconcile_step_axioms
            reconcile_step_then [OF limits.reconcile_step_axioms network_isolation_step]]]])
      (auto simp: network_isolation_keys_def child_keys)
  have "stable_on view (reconcileResources K w version istio) (\<lambda>v. holds_namespace w v \<and> True)"
    unfolding reconcileResources_def
    by (rule stable_on_then [OF namespace_hold_step(2,1) _ rest])
      (auto simp: stable_on_def network_isolation_keys_def child_keys)
  then show ?thesis by simp
qed

end

section \<open>A pass of the reconciler\<close>

lemma workspace_ready_same:
  assumes "w_meta w' = w_meta w" and "w_spec w' = w_spec w"
  shows "workspace_ready K dflt w' = workspace_ready K dflt w"
proof -
  have "w' = w\<lparr> w_status := w_status w' \<rparr>" using assms by simp
  moreover have "workspace_ready K dflt (w\<lparr> w_status := w_status w' \<rparr>) = workspace_ready K dflt w"
    by (intro ext) (rule workspace_ready_status)
  ultimately show ?thesis by metis
qed

context workspace_store
begin

lemma reconcile_view:
  assumes rec: "rec_recorder R = Some emit" and w: "wc_get W name s = Inr w"
    and run: "Reconcile K W R istio1 istio2 name s = (out, s')"
  obtains r t where "reconcileResources K w (rec_version R) istio1 s = (r, t)" and "view s' = view t"
  using run w
proof (cases rule: reconcile_cases)
  case (synced t)
  with update_status_objects [OF rec] that show thesis by blast
next
  case (failed err t)
  with handle_error_cases(2) [OF rec] that show thesis by blast
qed

text \<open>
  A pass over any Workspace, however it ends, leaves a held namespace with its holder. A
  Workspace that has the holder's name is the holder.
\<close>

lemma reconcile_holds:
  assumes rec: "rec_recorder R = Some emit" and w': "wc_get W name s = Inr w'"
    and run: "Reconcile K W R istio1 istio2 name s = (out, s')"
    and held: "holds_namespace w (view s)"
    and same: "w_name w' = w_name w \<Longrightarrow> w_uid w' = w_uid w \<and> w_namespace w' = w_namespace w"
  shows "holds_namespace w (view s')"
proof -
  obtain r t where res: "reconcileResources K w' (rec_version R) istio1 s = (r, t)"
    and t: "view s' = view t" using reconcile_view [OF rec w' run] .
  consider (mine) "w_name w' = w_name w" | (apart) "w_namespace w' \<noteq> w_namespace w"
    | (rival) "w_name w' \<noteq> w_name w" "w_namespace w' = w_namespace w" by blast
  then have "holds_namespace w (view t)"
  proof cases
    case mine
    then have "holds_namespace w' = holds_namespace w" using same holds_namespace_same by blast
    with stable_onD [OF resources_hold_namespace _ res] held show ?thesis by simp
  next
    case apart
    then have "namespace_key w \<notin> workspace_keys w'"
      using workspace_keys_disjoint [of w w'] by (auto simp: workspace_keys_split)
    with resources.step_frame [OF res] held holds_namespace_cong show ?thesis by metis
  next
    case rival
    obtain e u where ns: "ReconcileNamespace K w' (rec_version R) istio1 s = (Some e, u)" "view u = view s"
      using namespace_taken [OF held rival(2,1)] by (metis option.exhaust prod.collapse)
    have "reconcileResources K w' (rec_version R) istio1 s = (Some e, u)"
      unfolding reconcileResources_def by (rule then_ok_first_error) (rule ns(1))
    with res ns(2) held show ?thesis by simp
  qed
  with t show ?thesis by simp
qed

text \<open>A pass over any Workspace leaves a Workspace that is ready as it should be.\<close>

lemma reconcile_stays_ready:
  assumes rec: "rec_recorder R = Some emit" and w': "wc_get W name s = Inr w'"
    and run: "Reconcile K W R istio1 istio2 name s = (out, s')"
    and ready: "workspace_ready K dflt w (rec_version R) istio (view s)"
    and same: "w_name w' = w_name w \<Longrightarrow> w_meta w' = w_meta w \<and> w_spec w' = w_spec w \<and> istio1 = istio"
  shows "workspace_ready K dflt w (rec_version R) istio (view s')"
proof -
  obtain r t where res: "reconcileResources K w' (rec_version R) istio1 s = (r, t)"
    and t: "view s' = view t" using reconcile_view [OF rec w' run] .
  consider (mine) "w_name w' = w_name w" | (apart) "w_namespace w \<noteq> w_namespace w'"
    | (rival) "w_name w' \<noteq> w_name w" "w_namespace w' = w_namespace w" by metis
  then have "workspace_ready K dflt w (rec_version R) istio (view t)"
  proof cases
    case mine
    then show ?thesis
      using stable_onD [OF resources_stable _ res] ready same workspace_ready_same [of w' w K dflt] by simp
  next
    case apart
    show ?thesis
      by (rule resources.goal_survives [OF ready])
        (use workspace_keys_disjoint [OF apart] resources.step_frame [OF res] in blast)
  next
    case rival
    obtain e u where ns: "ReconcileNamespace K w' (rec_version R) istio1 s = (Some e, u)" "view u = view s"
      using namespace_taken [OF ready_holds_namespace [OF ready] rival(2,1)]
      by (metis option.exhaust prod.collapse)
    have "reconcileResources K w' (rec_version R) istio1 s = (Some e, u)"
      unfolding reconcileResources_def by (rule then_ok_first_error) (rule ns(1))
    with res ns(2) ready show ?thesis by simp
  qed
  with t show ?thesis by simp
qed

end

end
