(* ===== verification/Operator_Runs.thy ===== *)
theory Operator_Runs
  imports Workspace_Stability Workspace_Webhook Module_Properties Module_Frame Manager_Main
begin

text \<open>
  The operator at work: the passes of both controllers, the refreshes of the Istio flag, the
  requests of users and the writes of other programs, in any order. A state is the outside world
  and the detector; a run is a list of events, each a step of the relation \<open>operator_step\<close>. A
  pass is one step: controller-runtime runs at most one pass per controller at a time, and the
  interleaving of a pass with other writers is outside the promises of the client. The flag is
  the exception: it is refreshed by another goroutine, so any number of refreshes may happen
  between the two loads of a pass.
\<close>

section \<open>Events and steps\<close>

record 's operator_setup =
  op_kube :: "'s kube"
  op_workspaces :: "'s workspace_client"
  op_modules :: "'s module_client"
  op_workspace_reconciler :: "'s reconciler"
  op_module_reconciler :: "'s reconciler"
  op_identity :: string

record ('s, 'd) operator_state =
  os_world :: 's
  os_detector :: "'d istio_detector"

datatype 'd operator_event =
    WorkspacePass string "('d \<Rightarrow> string \<Rightarrow> go_error option) list"
  | ModulePass string
  | CRDChanged "'d \<Rightarrow> string \<Rightarrow> go_error option"
  | ApiRequests "request list"
  | OtherWrites "key set"

text \<open>
  The API server does not let a request change the identity of a Workspace that exists
  throughout: \<open>uids_kept\<close>.
\<close>

definition uids_kept :: "request list \<Rightarrow> store \<Rightarrow> store \<Rightarrow> bool" where
  "uids_kept rs S S' \<longleftrightarrow>
     (\<forall>n w w'. S n = Some w \<longrightarrow> S' n = Some w' \<longrightarrow> \<not> list_ex (deletes n) rs \<longrightarrow> w_uid w' = w_uid w)"

inductive operator_step ::
  "'s operator_setup \<Rightarrow> ('s \<Rightarrow> key \<Rightarrow> kobject option) \<Rightarrow> ('s \<Rightarrow> string \<Rightarrow> workspace option)
     \<Rightarrow> ('s, 'd) operator_state \<Rightarrow> 'd operator_event \<Rightarrow> ('s, 'd) operator_state \<Rightarrow> bool"
  for P view ws_view where
  workspace_pass:
    "\<lbrakk> d' = refreshes (op_kube P) asks (os_detector x);
       Reconcile (op_kube P) (op_workspaces P) (op_workspace_reconciler P)
         (IsEnabled (os_detector x)) (IsEnabled d') name (os_world x) = (out, s') \<rbrakk>
     \<Longrightarrow> operator_step P view ws_view x (WorkspacePass name asks)
           \<lparr> os_world = s', os_detector = d' \<rparr>"
| module_pass:
    "Reconcile_module (op_kube P) (op_modules P) (op_module_reconciler P) name (os_world x) = (out, s')
     \<Longrightarrow> operator_step P view ws_view x (ModulePass name) (x\<lparr> os_world := s' \<rparr>)"
| crd_changed:
    "mapCRDToWorkspaces (op_kube P) (op_workspaces P) ask (os_detector x) (os_world x) = (names, d')
     \<Longrightarrow> operator_step P view ws_view x (CRDChanged ask) (x\<lparr> os_detector := d' \<rparr>)"
| api_requests:
    "\<lbrakk> requests (op_identity P) (ws_view (os_world x)) rs (ws_view s'); view s' = view (os_world x);
       uids_kept rs (ws_view (os_world x)) (ws_view s') \<rbrakk>
     \<Longrightarrow> operator_step P view ws_view x (ApiRequests rs) (x\<lparr> os_world := s' \<rparr>)"
| other_writes:
    "\<lbrakk> ws_view s' = ws_view (os_world x); \<forall>k. k \<notin> F \<longrightarrow> view s' k = view (os_world x) k \<rbrakk>
     \<Longrightarrow> operator_step P view ws_view x (OtherWrites F) (x\<lparr> os_world := s' \<rparr>)"

inductive operator_run ::
  "'s operator_setup \<Rightarrow> ('s \<Rightarrow> key \<Rightarrow> kobject option) \<Rightarrow> ('s \<Rightarrow> string \<Rightarrow> workspace option)
     \<Rightarrow> ('s, 'd) operator_state \<Rightarrow> 'd operator_event list \<Rightarrow> ('s, 'd) operator_state \<Rightarrow> bool"
  for P view ws_view where
  finished: "operator_run P view ws_view x [] x"
| more: "operator_step P view ws_view x ev y \<Longrightarrow> operator_run P view ws_view y evs z \<Longrightarrow>
    operator_run P view ws_view x (ev # evs) z"

inductive_cases operator_stepE: "operator_step P view ws_view x ev y"

lemma run_invariant:
  assumes "operator_run P view ws_view x evs y" and "I x"
    and "\<And>x ev y. ev \<in> set evs \<Longrightarrow> operator_step P view ws_view x ev y \<Longrightarrow> I x \<Longrightarrow> I y"
  shows "I y"
  using assms
proof (induction rule: operator_run.induct)
  case (more x ev y evs z)
  have "I y" by (rule more.prems(2) [OF _ more.hyps(1) more.prems(1)]) simp
  then show ?case by (rule more.IH) (rule more.prems(2); simp)
qed

text \<open>What an event brings with it.\<close>

fun answers_of :: "'d operator_event \<Rightarrow> ('d \<Rightarrow> string \<Rightarrow> go_error option) list" where
  "answers_of (WorkspacePass n asks) = asks"
| "answers_of (CRDChanged ask) = [ask]"
| "answers_of _ = []"

fun requests_of :: "'d operator_event \<Rightarrow> request list" where
  "requests_of (ApiRequests rs) = rs"
| "requests_of _ = []"

fun writes_of :: "'d operator_event \<Rightarrow> key set" where
  "writes_of (OtherWrites F) = F"
| "writes_of _ = {}"

text \<open>An answer of the API server that does not contradict the flag.\<close>

definition agrees :: "'s kube \<Rightarrow> 'd istio_detector \<Rightarrow> bool \<Rightarrow> ('d \<Rightarrow> string \<Rightarrow> go_error option) \<Rightarrow> bool" where
  "agrees K d istio ask \<longleftrightarrow>
     (case det_client d of None \<Rightarrow> True | Some dc \<Rightarrow> answer K dc ask \<in> {None, Some istio})"

section \<open>The laws of the two clients together\<close>

text \<open>The two controllers write no object in common.\<close>

lemma controllers_disjoint: "flux_keys n \<inter> workspace_keys w = {}"
  by (auto simp: flux_keys_def workspace_keys_split network_isolation_keys_def child_keys)

locale operator_clients =
  workspace_store K view dflt W ws_view emit + module_store K view dflt M mod_view tmpl_view emit_mod
  for K :: "'s kube"
    and view :: "'s \<Rightarrow> key \<Rightarrow> kobject option"
    and dflt :: "obj_spec \<Rightarrow> obj_spec"
    and W :: "'s workspace_client"
    and ws_view :: "'s \<Rightarrow> string \<Rightarrow> workspace option"
    and emit :: "event \<Rightarrow> 's \<Rightarrow> 's"
    and M :: "'s module_client"
    and mod_view :: "'s \<Rightarrow> string \<Rightarrow> module option"
    and tmpl_view :: "'s \<Rightarrow> string \<Rightarrow> module_template option"
    and emit_mod :: "event \<Rightarrow> 's \<Rightarrow> 's" +
  assumes ws_named: "ws_view s n = Some w \<Longrightarrow> w_name w = n"
    and mod_patch_workspaces: "mc_patch M m m' s = (q, s') \<Longrightarrow> ws_view s' = ws_view s"
    and mod_patch_status_workspaces: "mc_patch_status M m m' s = (r, s') \<Longrightarrow> ws_view s' = ws_view s"
    and mod_emit_workspaces: "ws_view (emit_mod ev s) = ws_view s"

text \<open>A pass over a Module leaves the Workspaces alone, with or without a recorder.\<close>

sublocale operator_clients \<subseteq> workspace_frame: module_frame K view dflt M mod_view tmpl_view emit_mod
  "\<lambda>n s s'. ws_view s' = ws_view s"
  by unfold_locales
    (auto dest: mod_patch_workspaces mod_patch_status_workspaces ws_create_or_update ws_delete
      simp: mod_emit_workspaces)

context operator_clients
begin

lemma module_pass_same:
  assumes "rec_recorder R \<in> {None, Some emit_mod}" and "Reconcile_module K M R name s = (out, s')"
  shows "ws_view s' = ws_view s" and "k \<notin> flux_keys name \<Longrightarrow> view s' k = view s k"
  using workspace_frame.pass_rel [OF assms] object_frame.pass_rel [OF assms] by blast+

end

section \<open>A pass over a Workspace\<close>

context workspace_store
begin

text \<open>No pass changes the metadata or the spec of any Workspace.\<close>

definition same_guarded :: "'s \<Rightarrow> 's \<Rightarrow> bool" where
  "same_guarded s s' \<longleftrightarrow>
     (\<forall>n. map_option guarded_part (ws_view s' n) = map_option guarded_part (ws_view s n))"

lemma same_guardedD:
  "same_guarded s s' \<Longrightarrow> ws_view s n = Some w \<Longrightarrow> \<exists>w'. ws_view s' n = Some w' \<and> guarded_part w' = guarded_part w"
  by (auto simp: same_guarded_def) (metis map_option_eq_Some)

lemma same_guarded_back:
  "same_guarded s s' \<Longrightarrow> ws_view s' n = Some w' \<Longrightarrow> \<exists>w. ws_view s n = Some w \<and> guarded_part w' = guarded_part w"
  by (auto simp: same_guarded_def) (metis map_option_eq_Some)

lemma same_guarded_status:
  assumes "ws_view s n = Some w" and "ws_view s' = ws_view s \<or> ws_view s' = (ws_view s)(n \<mapsto> w\<lparr> w_status := st \<rparr>)"
  shows "same_guarded s s'"
  using assms by (auto simp: same_guarded_def guarded_part_def)

lemma update_status_guarded:
  assumes rec: "rec_recorder R = Some emit" and w: "ws_view s (w_name w) = Some w"
    and run: "updateStatus K W R w istio s = (out, s')"
  shows "same_guarded s s'"
proof -
  let ?st = "updated_status K w istio"
  obtain r t where p: "wc_patch_status W w (w\<lparr> w_status := ?st \<rparr>) s = (r, t)" by force
  have "ws_view t = ws_view s \<or> ws_view t = (ws_view s)(w_name w \<mapsto> w\<lparr> w_status := ?st \<rparr>)"
    using ws_patch_ok [of w ?st s t] ws_patch_error [of w ?st s _ t] p w by (cases r) auto
  moreover have "ws_view s' = ws_view s \<or> ws_view s' = ws_view t"
    using run p by (auto simp: updateStatus_def Let_def event_then_recorder [OF rec] emit_workspaces
        split: if_splits option.splits)
  ultimately show ?thesis using same_guarded_status [OF w] by metis
qed

lemma workspace_pass_guarded:
  assumes rec: "rec_recorder R = Some emit" and run: "Reconcile K W R istio1 istio2 name s = (out, s')"
  shows "same_guarded s s'"
proof (cases "wc_get W name s")
  case (Inl e)
  with reconcile_missing [OF run] show ?thesis by (simp add: same_guarded_def)
next
  case (Inr w)
  have stored: "ws_view s (w_name w) = Some w" using ws_get_ok [OF Inr] by auto
  show ?thesis
    using run Inr
  proof (cases rule: reconcile_cases)
    case (synced t)
    have "ws_view t = ws_view s" by (rule resources_workspaces [OF synced(1)])
    with update_status_guarded [OF rec _ synced(2)] stored show ?thesis by (simp add: same_guarded_def)
  next
    case (failed err t)
    have "ws_view t = ws_view s" by (rule resources_workspaces [OF failed(1)])
    with handle_error_cases(3) [OF rec failed(2)] stored show ?thesis
      using same_guarded_status [OF stored, of s'] by metis
  qed
qed

end

section \<open>The operator as it is set up\<close>

locale operator_system =
  operator_clients "op_kube P" view dflt "op_workspaces P" ws_view emit "op_modules P" mod_view
    tmpl_view emit_mod
  for P :: "'s operator_setup"
    and view :: "'s \<Rightarrow> key \<Rightarrow> kobject option"
    and dflt :: "obj_spec \<Rightarrow> obj_spec"
    and ws_view :: "'s \<Rightarrow> string \<Rightarrow> workspace option"
    and emit :: "event \<Rightarrow> 's \<Rightarrow> 's"
    and mod_view :: "'s \<Rightarrow> string \<Rightarrow> module option"
    and tmpl_view :: "'s \<Rightarrow> string \<Rightarrow> module_template option"
    and emit_mod :: "event \<Rightarrow> 's \<Rightarrow> 's" +
  assumes workspace_recorder: "rec_recorder (op_workspace_reconciler P) = Some emit"
    and module_recorder: "rec_recorder (op_module_reconciler P) \<in> {None, Some emit_mod}"
begin

text \<open>What a step does to a stored Workspace that no request of the step deletes.\<close>

lemma step_stored:
  assumes step: "operator_step P view ws_view x ev y" and w: "ws_view (os_world x) n = Some w"
    and no_delete: "\<not> list_ex (deletes n) (requests_of ev)"
  shows "\<exists>w'. ws_view (os_world y) n = Some w' \<and> w_name w' = w_name w \<and> w_uid w' = w_uid w
    \<and> w_namespace w' = w_namespace w"
  using step
proof (cases rule: operator_step.cases)
  case (workspace_pass d' asks name out s')
  from same_guardedD [OF workspace_pass_guarded [OF workspace_recorder workspace_pass(4)] w]
  show ?thesis by (auto simp: workspace_pass guarded_part_def)
next
  case (module_pass name out s')
  with module_pass_same(1) [OF module_recorder module_pass(3)] w show ?thesis by simp
next
  case (api_requests rs s')
  from requests_namespace [OF api_requests(3) w] no_delete api_requests(1)
  obtain w' where w': "ws_view s' n = Some w'" "w_namespace w' = w_namespace w" by auto
  with api_requests(1,5) w no_delete have "w_uid w' = w_uid w" by (simp add: uids_kept_def)
  with w' ws_named [OF w] ws_named [OF w'(1)] api_requests(2) show ?thesis by simp
qed (use w in simp_all)

text \<open>A namespace stays with its holder.\<close>

definition stays_held :: "string \<Rightarrow> workspace \<Rightarrow> ('s, 'd) operator_state \<Rightarrow> bool" where
  "stays_held n w x \<longleftrightarrow>
     (\<exists>w'. ws_view (os_world x) n = Some w' \<and> w_name w' = w_name w \<and> w_uid w' = w_uid w
        \<and> w_namespace w' = w_namespace w \<and> holds_namespace w' (view (os_world x)))"

lemma step_held:
  assumes step: "operator_step P view ws_view x ev y" and held: "stays_held n w x"
    and no_delete: "\<not> list_ex (deletes n) (requests_of ev)"
    and others: "namespace_key w \<notin> writes_of ev"
  shows "stays_held n w y"
proof -
  obtain v where v: "ws_view (os_world x) n = Some v" "w_name v = w_name w" "w_uid v = w_uid w"
      "w_namespace v = w_namespace w" and h: "holds_namespace v (view (os_world x))"
    using held by (auto simp: stays_held_def)
  have key: "namespace_key v = namespace_key w" using v(4) by (simp add: namespace_key_def)
  obtain v' where v': "ws_view (os_world y) n = Some v'" "w_name v' = w_name v" "w_uid v' = w_uid v"
      "w_namespace v' = w_namespace v"
    using step_stored [OF step v(1) no_delete] by blast
  have "holds_namespace v (view (os_world y))"
    using step
  proof (cases rule: operator_step.cases)
    case (workspace_pass d' asks name out s')
    show ?thesis
    proof (cases "wc_get (op_workspaces P) name (os_world x)")
      case (Inl e)
      with reconcile_missing [OF workspace_pass(4)] h workspace_pass(2) show ?thesis by simp
    next
      case (Inr u)
      have "w_uid u = w_uid v \<and> w_namespace u = w_namespace v" if "w_name u = w_name v"
        using that ws_get_ok [OF Inr] ws_named [OF v(1)] v(1) by auto
      from reconcile_holds [OF workspace_recorder Inr workspace_pass(4) h this] workspace_pass(2)
      show ?thesis by simp
    qed
  next
    case (module_pass name out s')
    have "namespace_key v \<notin> flux_keys name"
      using controllers_disjoint [of name v] by (auto simp: workspace_keys_split)
    from module_pass_same(2) [OF module_recorder module_pass(3) this]
    have "holds_namespace v (view s') = holds_namespace v (view (os_world x))" by (rule holds_namespace_cong)
    with h module_pass(2) show ?thesis by simp
  next
    case (other_writes s' F)
    then have "namespace_key v \<notin> F" using others key by simp
    with other_writes(4) have "view s' (namespace_key v) = view (os_world x) (namespace_key v)" by blast
    then have "holds_namespace v (view s') = holds_namespace v (view (os_world x))" by (rule holds_namespace_cong)
    with h other_writes(2) show ?thesis by simp
  qed (use h in simp_all)
  with holds_namespace_same [OF v'(2-4)] v v' show ?thesis by (auto simp: stays_held_def)
qed

text \<open>A Workspace that is ready, its metadata, spec and the flag included, stays so.\<close>

lemma refreshes_agree:
  assumes "IsEnabled d = istio" and "\<And>ask. ask \<in> set asks \<Longrightarrow> agrees (op_kube P) d istio ask"
  shows "IsEnabled (refreshes (op_kube P) asks d) = istio"
    and "det_client (refreshes (op_kube P) asks d) = det_client d"
proof -
  have "IsEnabled (refreshes (op_kube P) asks d) = istio
      \<and> det_client (refreshes (op_kube P) asks d) = det_client d"
    using assms
  proof (induction asks arbitrary: d)
    case Nil
    then show ?case by (simp add: refreshes_def)
  next
    case (Cons ask asks)
    have "agrees (op_kube P) d istio ask" by (rule Cons.prems(2)) simp
    then have "IsEnabled (Refresh (op_kube P) ask d) = istio"
      using Cons.prems(1)
      by (auto simp: agrees_def IsEnabled_def Refresh_without_client Refresh_enabled split: option.splits)
    moreover have "agrees (op_kube P) (Refresh (op_kube P) ask d) istio ask'" if "ask' \<in> set asks" for ask'
      using Cons.prems(2) [of ask'] that by (simp add: agrees_def)
    ultimately show ?case
      using Cons.IH [of "Refresh (op_kube P) ask d"] by (simp add: refreshes_def)
  qed
  then show "IsEnabled (refreshes (op_kube P) asks d) = istio"
    and "det_client (refreshes (op_kube P) asks d) = det_client d" by blast+
qed

definition stays_ready_with ::
  "string \<Rightarrow> workspace \<Rightarrow> bool \<Rightarrow> 'd option \<Rightarrow> ('s, 'd) operator_state \<Rightarrow> bool" where
  "stays_ready_with n w istio dc x \<longleftrightarrow>
     (\<exists>w'. ws_view (os_world x) n = Some w' \<and> guarded_part w' = guarded_part w)
     \<and> workspace_ready (op_kube P) dflt w (rec_version (op_workspace_reconciler P)) istio (view (os_world x))
     \<and> IsEnabled (os_detector x) = istio \<and> det_client (os_detector x) = dc"

lemma ready_elsewhere:
  assumes "workspace_ready (op_kube P) dflt w version istio (view s)"
    and "\<And>k. k \<in> workspace_keys w \<Longrightarrow> view s' k = view s k"
  shows "workspace_ready (op_kube P) dflt w version istio (view s')"
  using resources.goal_local assms by blast

lemma step_ready:
  assumes step: "operator_step P view ws_view x ev y" and ready: "stays_ready_with n w istio dc x"
    and answers: "\<And>ask. ask \<in> set (answers_of ev) \<Longrightarrow> agrees (op_kube P) (os_detector x) istio ask"
    and users: "\<And>r. r \<in> set (requests_of ev) \<Longrightarrow> \<not> may_modify (op_identity P) (issuer r) w"
    and others: "writes_of ev \<inter> workspace_keys w = {}"
  shows "stays_ready_with n w istio dc y"
proof -
  obtain v where v: "ws_view (os_world x) n = Some v" "guarded_part v = guarded_part w"
    using ready by (auto simp: stays_ready_with_def)
  have r: "workspace_ready (op_kube P) dflt w (rec_version (op_workspace_reconciler P)) istio
      (view (os_world x))" and flag: "IsEnabled (os_detector x) = istio" "det_client (os_detector x) = dc"
    using ready by (simp_all add: stays_ready_with_def)
  show ?thesis
    using step
  proof (cases rule: operator_step.cases)
    case (workspace_pass d' asks name out s')
    have d': "IsEnabled d' = istio" "det_client d' = dc"
      using refreshes_agree [OF flag(1), of asks] answers workspace_pass(1,3) flag(2) by auto
    have kept: "\<exists>w'. ws_view s' n = Some w' \<and> guarded_part w' = guarded_part w"
      using same_guardedD [OF workspace_pass_guarded [OF workspace_recorder workspace_pass(4)] v(1)] v(2)
      by simp
    have "workspace_ready (op_kube P) dflt w (rec_version (op_workspace_reconciler P)) istio (view s')"
    proof (cases "wc_get (op_workspaces P) name (os_world x)")
      case (Inl e)
      with reconcile_missing [OF workspace_pass(4)] r show ?thesis by simp
    next
      case (Inr u)
      have "w_meta u = w_meta w \<and> w_spec u = w_spec w \<and> IsEnabled (os_detector x) = istio"
        if "w_name u = w_name w"
        using that ws_get_ok [OF Inr] ws_named [OF v(1)] v flag(1) by (auto simp: guarded_part_def)
      from reconcile_stays_ready [OF workspace_recorder Inr workspace_pass(4) r this] show ?thesis by simp
    qed
    with kept d' workspace_pass(2) show ?thesis by (simp add: stays_ready_with_def)
  next
    case (module_pass name out s')
    have "view s' k = view (os_world x) k" if "k \<in> workspace_keys w" for k
      using module_pass_same(2) [OF module_recorder module_pass(3)] that controllers_disjoint by blast
    from ready_elsewhere [OF r this] module_pass(2) module_pass_same(1) [OF module_recorder module_pass(3)] ready
    show ?thesis by (simp add: stays_ready_with_def)
  next
    case (crd_changed ask names d')
    have "d' = refreshes (op_kube P) [ask] (os_detector x)"
      using crd_changed(3) by (simp add: mapCRDToWorkspaces_def Let_def refreshes_def split: sum.splits)
    with refreshes_agree [OF flag(1), of "[ask]"] answers crd_changed(1,2) flag(2) ready show ?thesis
      by (simp add: stays_ready_with_def)
  next
    case (api_requests rs s')
    have "\<not> may_modify (op_identity P) (issuer q) v" if "q \<in> set rs" for q
      using users [of q] that api_requests(1) v(2)
        AuthorizeModification_members_only [of v w "issuer q" "op_identity P"]
      by (simp add: may_modify_def guarded_part_def)
    from requests_guarded [OF api_requests(3) v(1) this] v(2) api_requests(2,4) ready show ?thesis
      by (auto simp: stays_ready_with_def)
  next
    case (other_writes s' F)
    have "view s' k = view (os_world x) k" if "k \<in> workspace_keys w" for k
    proof -
      have "k \<notin> F" using that others other_writes(1) by auto
      with other_writes(4) show ?thesis by blast
    qed
    from ready_elsewhere [OF r this] other_writes(2,3) ready show ?thesis
      by (simp add: stays_ready_with_def)
  qed
qed

text \<open>Runs.\<close>

lemma run_held:
  assumes run: "operator_run P view ws_view x evs y"
    and w: "ws_view (os_world x) n = Some w" and held: "holds_namespace w (view (os_world x))"
    and calm: "\<And>ev. ev \<in> set evs \<Longrightarrow>
      \<not> list_ex (deletes n) (requests_of ev) \<and> namespace_key w \<notin> writes_of ev"
  shows "\<exists>w'. ws_view (os_world y) n = Some w' \<and> w_namespace w' = w_namespace w
    \<and> holds_namespace w' (view (os_world y))
    \<and> (\<forall>m v version istio. ws_view (os_world y) m = Some v \<longrightarrow> m \<noteq> n \<longrightarrow>
         w_namespace v = w_namespace w \<longrightarrow>
         \<not> workspace_ready (op_kube P) dflt v version istio (view (os_world y)))"
proof -
  have "stays_held n w x" using w held by (auto simp: stays_held_def)
  then have "stays_held n w y"
    by (rule run_invariant [OF run]) (use calm in \<open>blast intro: step_held\<close>)
  then obtain w' where w': "ws_view (os_world y) n = Some w'" "w_namespace w' = w_namespace w"
    "holds_namespace w' (view (os_world y))" by (auto simp: stays_held_def)
  have "\<not> workspace_ready (op_kube P) dflt v version istio (view (os_world y))"
    if v: "ws_view (os_world y) m = Some v" "m \<noteq> n" "w_namespace v = w_namespace w" for m v version istio
  proof
    assume ready: "workspace_ready (op_kube P) dflt v version istio (view (os_world y))"
    have "w_name v = w_name w'"
      by (rule held_excludes_ready [OF kube_api_axioms w'(3) ready]) (simp add: v(3) w'(2))
    with v(1,2) w'(1) ws_named show False by metis
  qed
  with w' show ?thesis by blast
qed

lemma run_ready:
  assumes run: "operator_run P view ws_view x evs y"
    and w: "ws_view (os_world x) n = Some w"
    and ready: "workspace_ready (op_kube P) dflt w (rec_version (op_workspace_reconciler P))
      (IsEnabled (os_detector x)) (view (os_world x))"
    and answers: "\<And>ev ask. ev \<in> set evs \<Longrightarrow> ask \<in> set (answers_of ev) \<Longrightarrow>
      agrees (op_kube P) (os_detector x) (IsEnabled (os_detector x)) ask"
    and users: "\<And>ev r. ev \<in> set evs \<Longrightarrow> r \<in> set (requests_of ev) \<Longrightarrow>
      \<not> may_modify (op_identity P) (issuer r) w"
    and others: "\<And>ev. ev \<in> set evs \<Longrightarrow> writes_of ev \<inter> workspace_keys w = {}"
  shows "\<exists>w'. ws_view (os_world y) n = Some w' \<and> guarded_part w' = guarded_part w
    \<and> workspace_ready (op_kube P) dflt w' (rec_version (op_workspace_reconciler P))
        (IsEnabled (os_detector y)) (view (os_world y))"
proof -
  let ?istio = "IsEnabled (os_detector x)" and ?dc = "det_client (os_detector x)"
  have "stays_ready_with n w ?istio ?dc x" using w ready by (auto simp: stays_ready_with_def)
  then have y: "stays_ready_with n w ?istio ?dc y"
  proof (rule run_invariant [OF run])
    fix u ev v
    assume ev: "ev \<in> set evs" and step: "operator_step P view ws_view u ev v"
      and u: "stays_ready_with n w ?istio ?dc u"
    show "stays_ready_with n w ?istio ?dc v"
    proof (rule step_ready [OF step u _ users [OF ev] others [OF ev]])
      fix ask
      assume "ask \<in> set (answers_of ev)"
      then show "agrees (op_kube P) (os_detector u) ?istio ask"
        using answers [OF ev] u by (simp add: agrees_def stays_ready_with_def)
    qed
  qed
  then obtain w' where w': "ws_view (os_world y) n = Some w'" "guarded_part w' = guarded_part w"
    by (auto simp: stays_ready_with_def)
  then have "workspace_ready (op_kube P) dflt w' = workspace_ready (op_kube P) dflt w"
    by (intro workspace_ready_same) (simp_all add: guarded_part_def)
  with w' y show ?thesis by (auto simp: stays_ready_with_def)
qed

end

end
