(* ===== verification/Operator_Sweep.thy ===== *)
theory Operator_Sweep
  imports Operator_Runs
begin

text \<open>
  What the event of an Istio CRD sets off: \<open>mapCRDToWorkspaces\<close> refreshes the flag and enqueues
  every Workspace, and the reconciler works through the queue. The passes of a sweep do not get
  into each other's way, so that every Workspace nothing stands in the way of ends up ready for
  the new flag, whatever becomes of the others.
\<close>

definition sweep ::
  "'s kube \<Rightarrow> 's workspace_client \<Rightarrow> 's reconciler \<Rightarrow> bool \<Rightarrow> string list \<Rightarrow> 's \<Rightarrow> 's" where
  "sweep K W R istio names s = fold (\<lambda>n t. snd (Reconcile K W R istio istio n t)) names s"

lemma sweep_simps [simp]:
  "sweep K W R istio [] s = s"
  "sweep K W R istio (n # ns) s = sweep K W R istio ns (snd (Reconcile K W R istio istio n s))"
  "sweep K W R istio (ns @ ms) s = sweep K W R istio ms (sweep K W R istio ns s)"
  by (simp_all add: sweep_def)

text \<open>While its turn has not come, a Workspace stays as it is and nothing gets in its way.\<close>

definition waiting ::
  "('s \<Rightarrow> key \<Rightarrow> kobject option) \<Rightarrow> ('s \<Rightarrow> string \<Rightarrow> workspace option) \<Rightarrow> string \<Rightarrow> workspace \<Rightarrow> 's \<Rightarrow> bool" where
  "waiting view ws_view n w s \<longleftrightarrow>
     (\<exists>w'. ws_view s n = Some w' \<and> guarded_part w' = guarded_part w) \<and> unobstructed w (view s)
     \<and> (\<forall>m v. ws_view s m = Some v \<longrightarrow> m \<noteq> n \<longrightarrow> w_namespace v \<noteq> w_namespace w)"

text \<open>A client whose listing is complete.\<close>

locale listing_workspace_store =
  reliable_workspace_store K view dflt W ws_view emit served
  for K :: "'s kube" and view dflt W ws_view emit and served :: "kind \<Rightarrow> bool" +
  assumes ws_list: "\<exists>items. wc_list W s = Inr items \<and> (\<forall>n w. ws_view s n = Some w \<longrightarrow> w \<in> set items)"
    and ws_named: "ws_view s n = Some w \<Longrightarrow> w_name w = n"
begin

text \<open>The queue holds every stored Workspace.\<close>

lemma crd_enqueues:
  assumes "mapCRDToWorkspaces K W ask d s = (names, d')" and w: "ws_view s n = Some w"
  shows "n \<in> set names"
proof -
  obtain items where items: "wc_list W s = Inr items" "w \<in> set items" using ws_list w by blast
  then have "names = map w_name items" using assms(1) by (simp add: mapCRDToWorkspaces_def Let_def)
  with items(2) ws_named [OF w] show ?thesis by force
qed

lemma unobstructed_same:
  assumes "guarded_part w' = guarded_part w"
  shows "unobstructed w' = unobstructed w" "workspace_keys w' = workspace_keys w"
proof -
  have w': "w' = w\<lparr> w_status := w_status w' \<rparr>" using assms by (simp add: guarded_part_def)
  have keys: "workspace_keys (w\<lparr> w_status := st \<rparr>) = workspace_keys w" for st
    by (simp add: workspace_keys_split network_isolation_keys_def child_keys)
  have owner: "workspace_owner (w\<lparr> w_status := st \<rparr>) = workspace_owner w" for st
    by (simp add: workspace_owner_def)
  have "clear_for (w\<lparr> w_status := st \<rparr>) = clear_for w" for st
    by (simp add: fun_eq_iff clear_for_def owner namespace_key_def foreign_namespace_def
        cong: option.case_cong)
  with keys have "unobstructed (w\<lparr> w_status := st \<rparr>) = unobstructed w" for st
    unfolding unobstructed_def by presburger
  then show "unobstructed w' = unobstructed w" "workspace_keys w' = workspace_keys w"
    using w' keys by metis+
qed

lemma pass_waiting:
  assumes rec: "rec_recorder R = Some emit" and wait: "waiting view ws_view n w s" and m: "m \<noteq> n"
    and run: "Reconcile K W R istio istio2 m s = (out, s')"
  shows "waiting view ws_view n w s'"
proof -
  have same: "same_guarded s s'" by (rule workspace_pass_guarded [OF rec run])
  have "view s' k = view s k" if k: "k \<in> workspace_keys w" for k
  proof (cases "wc_get W m s")
    case (Inl e)
    with reconcile_missing [OF run] show ?thesis by simp
  next
    case (Inr v)
    have "ws_view s m = Some v" using ws_get_ok [OF Inr] by blast
    with wait m have "w_namespace w \<noteq> w_namespace v" unfolding waiting_def by metis
    with workspace_keys_disjoint k have "k \<notin> workspace_keys v" by blast
    with reconcile_frame [OF rec run Inr] show ?thesis .
  qed
  then have "unobstructed w (view s')" using wait by (simp add: waiting_def unobstructed_def)
  moreover obtain w1 where w1: "ws_view s n = Some w1" "guarded_part w1 = guarded_part w"
    using wait by (auto simp: waiting_def)
  moreover have "w_namespace v \<noteq> w_namespace w" if v: "ws_view s' j = Some v" "j \<noteq> n" for j v
  proof -
    obtain v1 where v1: "ws_view s j = Some v1" "guarded_part v = guarded_part v1"
      using same_guarded_back [OF same v(1)] by blast
    with wait v(2) have "w_namespace v1 \<noteq> w_namespace w" by (auto simp: waiting_def)
    with v1(2) show ?thesis by (simp add: guarded_part_def)
  qed
  ultimately show ?thesis using same_guardedD [OF same w1(1)] by (auto simp: waiting_def)
qed

lemma sweep_waiting:
  assumes "rec_recorder R = Some emit" and "waiting view ws_view n w s" and "n \<notin> set names"
  shows "waiting view ws_view n w (sweep K W R istio names s)"
  using assms(2,3)
proof (induction names arbitrary: s)
  case (Cons m names)
  from pass_waiting [OF assms(1) Cons.prems(1), of m istio istio] Cons.prems(2)
  have "waiting view ws_view n w (snd (Reconcile K W R istio istio m s))" by (metis list.set_intros(1) prod.collapse)
  with Cons show ?case by simp
qed simp

text \<open>Once it is ready it stays so for the rest of the sweep.\<close>

lemma pass_settled:
  assumes rec: "rec_recorder R = Some emit" and run: "Reconcile K W R istio istio2 m s = (out, s')"
    and w: "ws_view s n = Some w1" "guarded_part w1 = guarded_part w"
    and ready: "workspace_ready K dflt w (rec_version R) istio (view s)"
  shows "workspace_ready K dflt w (rec_version R) istio (view s')"
proof (cases "wc_get W m s")
  case (Inl e)
  with reconcile_missing [OF run] ready show ?thesis by simp
next
  case (Inr v)
  have "w_meta v = w_meta w \<and> w_spec v = w_spec w \<and> istio = istio" if "w_name v = w_name w"
    using that ws_get_ok [OF Inr] ws_named [OF w(1)] w by (auto simp: guarded_part_def)
  from reconcile_stays_ready [OF rec Inr run ready this] show ?thesis .
qed

lemma sweep_settled:
  assumes rec: "rec_recorder R = Some emit"
    and "ws_view s n = Some w1" and "guarded_part w1 = guarded_part w"
    and "workspace_ready K dflt w (rec_version R) istio (view s)"
  shows "workspace_ready K dflt w (rec_version R) istio (view (sweep K W R istio names s))"
  using assms(2-4)
proof (induction names arbitrary: s w1)
  case (Cons m names)
  obtain out s' where run: "Reconcile K W R istio istio m s = (out, s')" by force
  obtain w2 where "ws_view s' n = Some w2" "guarded_part w2 = guarded_part w1"
    using same_guardedD [OF workspace_pass_guarded [OF rec run] Cons.prems(1)] by blast
  with Cons.IH [of s' w2] Cons.prems(2) pass_settled [OF rec run Cons.prems] run show ?case by simp
qed simp

lemma sweep_ready:
  assumes rec: "rec_recorder R = Some emit" and wait: "waiting view ws_view n w s" and n: "n \<in> set names"
    and served: "\<forall>kd \<in> core_kinds. served kd" "istio \<Longrightarrow> \<forall>kd \<in> istio_kinds. served kd"
  shows "workspace_ready K dflt w (rec_version R) istio (view (sweep K W R istio names s))"
proof -
  obtain xs ys where names: "names = xs @ n # ys" and first: "n \<notin> set xs" using n by (meson split_list_first)
  let ?t = "sweep K W R istio xs s"
  have "waiting view ws_view n w ?t" by (rule sweep_waiting [OF rec wait first])
  then obtain w1 where w1: "ws_view ?t n = Some w1" "guarded_part w1 = guarded_part w"
    and w: "unobstructed w (view ?t)"
    unfolding waiting_def by blast
  have free: "unobstructed w1 (view ?t)" using w unobstructed_same(1) [OF w1(2)] by simp
  obtain u where run: "Reconcile K W R istio istio n ?t = (Returns None, u)"
    and ready: "workspace_ready K dflt w1 (rec_version R) istio (view u)"
    and stored: "ws_view u n = Some (w1\<lparr> w_status := updated_status K w1 istio \<rparr>)"
    using reconcile_succeeds [OF rec w1(1) ws_named [OF w1(1)] served free, of istio] by blast
  have "workspace_ready K dflt w (rec_version R) istio (view u)"
    using ready workspace_ready_same [of w1 w K dflt] w1(2) by (simp add: guarded_part_def)
  from sweep_settled [OF rec stored _ this, of ys] w1(2) names run show ?thesis
    by (simp add: guarded_part_def)
qed

end

end
