(* ===== verification/Operator_Properties.thy ===== *)
theory Operator_Properties
  imports Operator_Sweep
begin

text \<open>
  What holds of the operator over time, however the passes of the two controllers, the
  refreshes of the flag, the requests of users and the writes of others follow each other. The
  laws are interpreted on the cluster in memory, and the operator is set up there the way
  \<open>main\<close> sets it up, with a Module reconciler that has no recorder.
\<close>

section \<open>The set-up of the manager\<close>

definition main_setup ::
  "(string \<Rightarrow> string) \<Rightarrow> string \<Rightarrow> (string \<Rightarrow> event \<Rightarrow> 's \<Rightarrow> 's) \<Rightarrow> 's kube \<Rightarrow> 's workspace_client
     \<Rightarrow> 's module_client \<Rightarrow> 's operator_setup" where
  "main_setup getenv version recorder K W M =
     \<lparr> op_kube = K, op_workspaces = W, op_modules = M,
       op_workspace_reconciler = main_workspace_reconciler version recorder,
       op_module_reconciler = main_module_reconciler,
       op_identity = main_operatorSA getenv \<rparr>"

definition mem_setup :: "mem operator_setup" where
  "mem_setup = main_setup (\<lambda>_. '''') ''v1'' (\<lambda>_. mem_emit) (mem_kube all_kinds) mem_wc mem_mc"

lemma mem_setup_simps [simp]:
  "op_kube mem_setup = mem_kube all_kinds" "op_workspaces mem_setup = mem_wc"
  "op_modules mem_setup = mem_mc" "rec_version (op_workspace_reconciler mem_setup) = ''v1''"
  "rec_recorder (op_workspace_reconciler mem_setup) = Some mem_emit"
  "rec_recorder (op_module_reconciler mem_setup) = None"
  "op_identity mem_setup = main_operatorSA (\<lambda>_. '''')"
  by (simp_all add: mem_setup_def main_setup_def main_workspace_reconciler_def main_module_reconciler_def)

lemma mem_patch_module_ws:
  "mem_patch_module m m' s = (q, s') \<Longrightarrow> mem_ws s' = mem_ws s"
  "mem_patch_module_status m m' s = (r, s') \<Longrightarrow> mem_ws s' = mem_ws s"
  by (auto simp: mem_patch_module_def mem_patch_module_status_def Let_def mem_ws_def fun_eq_iff
      split: option.splits)

lemma faulty_patch_module_ws:
  assumes "faulty (mem_patch_module_status m m') s = (r, s')"
  shows "mem_ws s' = mem_ws s"
  using assms
proof (cases rule: faulty_cases)
  case (through s1)
  then show ?thesis using mem_patch_module_ws(2) [OF through(1)] by simp
qed simp

interpretation mem_clients:
  operator_clients "mem_kube L" "mem_view L" mem_default mem_wc mem_ws mem_emit mem_mc mem_mod
    mem_tmpl mem_emit for L
  by (unfold_locales, unfold mc_simps) (auto dest: mem_ws_name mem_patch_module_ws)

interpretation faulty_clients:
  operator_clients "faulty_kube L" "mem_view L" mem_default faulty_wc mem_ws mem_emit faulty_mc mem_mod
    mem_tmpl mem_emit for L
  by (unfold_locales, unfold mc_simps)
    (auto dest: mem_ws_name mem_patch_module_ws faulty_patch_module_ws)

interpretation mem_system:
  operator_system mem_setup "mem_view all_kinds" mem_default mem_ws mem_emit mem_mod mem_tmpl mem_emit
  using mem_clients.operator_clients_axioms [of all_kinds]
  by (simp add: operator_system_def operator_system_axioms_def)

interpretation mem_listing:
  listing_workspace_store "mem_kube L" "mem_view L" mem_default mem_wc mem_ws mem_emit
    "\<lambda>kd. kd \<in> set L" for L
proof unfold_locales
  fix s
  have "w \<in> set (mem_workspaces s)" if "mem_ws s n = Some w" for n w
    using that by (auto simp: mem_ws_def keyed_def find_Some_iff)
  then show "\<exists>items. wc_list mem_wc s = Inr items \<and> (\<forall>n w. mem_ws s n = Some w \<longrightarrow> w \<in> set items)"
    by auto
qed (rule mem_ws_name)

section \<open>Safety over time\<close>

text \<open>
  C8: A namespace keeps its owner. From any state in which a stored Workspace is the controller
  of its namespace, in every run in which nobody deletes the Workspace and nobody but the
  operator writes the namespace object, whoever edits Workspaces and whatever fails, the
  Workspace is still stored with that namespace and still its controller, and no Workspace of
  another name is ever ready with the same namespace.
\<close>

theorem namespace_keeps_owner:
  assumes "operator_system P view dflt ws_view emit mod_view tmpl_view emit_mod"
    and "operator_run P view ws_view x evs y"
    and "ws_view (os_world x) n = Some w" and "holds_namespace w (view (os_world x))"
    and "\<And>ev. ev \<in> set evs \<Longrightarrow> \<not> list_ex (deletes n) (requests_of ev) \<and> namespace_key w \<notin> writes_of ev"
  shows "\<exists>w'. ws_view (os_world y) n = Some w' \<and> w_namespace w' = w_namespace w
    \<and> holds_namespace w' (view (os_world y))
    \<and> (\<forall>m v version istio. ws_view (os_world y) m = Some v \<longrightarrow> m \<noteq> n \<longrightarrow>
         w_namespace v = w_namespace w \<longrightarrow>
         \<not> workspace_ready (op_kube P) dflt v version istio (view (os_world y)))"
  by (rule operator_system.run_held [OF assms])

text \<open>A second Workspace asks for the namespace that the sample team has.\<close>

definition rival :: workspace where
  "rival = team\<lparr> w_meta := team_meta\<lparr> meta_name := ''rival'', meta_uid := ''uid-rival'' \<rparr> \<rparr>"

definition settled_team :: workspace where
  "settled_team = team\<lparr> w_status := updated_status (mem_kube all_kinds) team True \<rparr>"

lemma settled_team_simps [simp]:
  "w_meta settled_team = team_meta" "w_spec settled_team = team_spec" "w_namespace rival = ''team-a''"
  "w_name rival = ''rival''"
  by (simp_all add: settled_team_def rival_def)

lemma settled_ready:
  "workspace_ready (mem_kube all_kinds) mem_default settled_team =
     workspace_ready (mem_kube all_kinds) mem_default team"
  by (rule workspace_ready_same) simp_all

definition istio_on :: "unit istio_detector" where
  "istio_on = \<lparr> det_client = Some (), det_enabled = True \<rparr>"

text \<open>A state in which the team is ready and its rival is stored beside it.\<close>

lemma team_and_rival:
  obtains x :: "(mem, unit) operator_state" where
    "mem_ws (os_world x) ''team'' = Some settled_team" "mem_ws (os_world x) ''rival'' = Some rival"
    "os_detector x = istio_on"
    "workspace_ready (mem_kube all_kinds) mem_default settled_team ''v1'' True
       (mem_view all_kinds (os_world x))"
proof -
  obtain s where
    ready: "workspace_ready (mem_kube all_kinds) mem_default team ''v1'' True (mem_view all_kinds s)"
    using team_reconciled [of True] by blast
  let ?x = "\<lparr> os_world = s\<lparr> mem_workspaces := [settled_team, rival] \<rparr>, os_detector = istio_on \<rparr>"
  show thesis
    by (rule that [of ?x]) (use ready in \<open>simp_all add: mem_ws_def keyed_def settled_ready\<close>)
qed

text \<open>Any two passes are steps.\<close>

lemma two_passes:
  obtains y where
    "operator_run P view ws_view x [WorkspacePass n asks, ModulePass m] y"
proof -
  obtain out s' where ws: "Reconcile (op_kube P) (op_workspaces P) (op_workspace_reconciler P)
      (IsEnabled (os_detector x)) (IsEnabled (refreshes (op_kube P) asks (os_detector x))) n (os_world x)
      = (out, s')" by force
  obtain out' t where md: "Reconcile_module (op_kube P) (op_modules P) (op_module_reconciler P) m s' = (out', t)"
    by force
  show thesis
    by (rule that, rule operator_run.more [OF operator_step.workspace_pass [OF refl ws]],
        rule operator_run.more [OF operator_step.module_pass operator_run.finished])
      (use md in simp)
qed

theorem namespace_keeps_owner_witness:
  "\<exists>y :: (mem, unit) operator_state.
     mem_ws (os_world y) ''team'' \<noteq> None
     \<and> (\<forall>v version istio. mem_ws (os_world y) ''rival'' = Some v \<longrightarrow> w_namespace v = ''team-a'' \<longrightarrow>
          \<not> workspace_ready (mem_kube all_kinds) mem_default v version istio
              (mem_view all_kinds (os_world y)))"
proof -
  obtain x :: "(mem, unit) operator_state" where x: "mem_ws (os_world x) ''team'' = Some settled_team"
    "workspace_ready (mem_kube all_kinds) mem_default settled_team ''v1'' True
       (mem_view all_kinds (os_world x))"
    by (rule team_and_rival)
  obtain y where run: "operator_run mem_setup (mem_view all_kinds) mem_ws x
      [WorkspacePass ''rival'' [], ModulePass ''app''] y" by (rule two_passes)
  have "\<not> list_ex (deletes ''team'') (requests_of ev) \<and> namespace_key settled_team \<notin> writes_of ev"
    if "ev \<in> set [WorkspacePass ''rival'' [], ModulePass ''app'']"
    for ev :: "unit operator_event"
    using that by auto
  from namespace_keeps_owner [OF mem_system.operator_system_axioms run x(1)
      ready_holds_namespace [OF x(2)] this]
  have "mem_ws (os_world y) ''team'' \<noteq> None
    \<and> (\<forall>v version istio. mem_ws (os_world y) ''rival'' = Some v \<longrightarrow> w_namespace v = ''team-a'' \<longrightarrow>
          \<not> workspace_ready (mem_kube all_kinds) mem_default v version istio
              (mem_view all_kinds (os_world y)))" by auto
  then show ?thesis by blast
qed

text \<open>
  C7: A Workspace that is ready stays ready. In every run in which the Istio flag's answers do
  not change, no user acts who may modify the Workspace, and nobody but the operator writes its
  objects, the Workspace keeps its metadata and spec and all its objects stay as desired:
  neither failed passes, passes over rival Workspaces and over Modules, nor any number of
  requests of users who are not its admins make a difference.
\<close>

theorem ready_stays_ready:
  assumes "operator_system P view dflt ws_view emit mod_view tmpl_view emit_mod"
    and "operator_run P view ws_view x evs y"
    and "ws_view (os_world x) n = Some w"
    and "workspace_ready (op_kube P) dflt w (rec_version (op_workspace_reconciler P))
      (IsEnabled (os_detector x)) (view (os_world x))"
    and "\<And>ev ask. ev \<in> set evs \<Longrightarrow> ask \<in> set (answers_of ev) \<Longrightarrow>
      agrees (op_kube P) (os_detector x) (IsEnabled (os_detector x)) ask"
    and "\<And>ev r. ev \<in> set evs \<Longrightarrow> r \<in> set (requests_of ev) \<Longrightarrow>
      \<not> may_modify (op_identity P) (issuer r) w"
    and "\<And>ev. ev \<in> set evs \<Longrightarrow> writes_of ev \<inter> workspace_keys w = {}"
  shows "\<exists>w'. ws_view (os_world y) n = Some w' \<and> guarded_part w' = guarded_part w
    \<and> workspace_ready (op_kube P) dflt w' (rec_version (op_workspace_reconciler P))
        (IsEnabled (os_detector y)) (view (os_world y))"
  by (rule operator_system.run_ready [OF assms])

lemma bob_may_not:
  assumes "w_spec w = team_spec"
  shows "\<not> may_modify (main_operatorSA (\<lambda>_. '''')) bob_user w"
  using assms by (simp add: may_modify_def bob_user_def AuthorizeModification_def isPrivileged_def
      isWorkspaceAdmin_def privilegedGroups_def slices_contains_def MemberRoleAdmin_def
      main_operatorSA_def OperatorServiceAccountIdentity_def)

theorem ready_stays_ready_witness:
  "\<exists>(y :: (mem, unit) operator_state) w.
     mem_ws (os_world y) ''team'' = Some w \<and> w_spec w = team_spec
     \<and> workspace_ready (mem_kube all_kinds) mem_default w ''v1'' (IsEnabled (os_detector y))
         (mem_view all_kinds (os_world y))"
proof -
  obtain x :: "(mem, unit) operator_state" where x: "mem_ws (os_world x) ''team'' = Some settled_team"
    "os_detector x = istio_on"
    "workspace_ready (mem_kube all_kinds) mem_default settled_team ''v1'' True
       (mem_view all_kinds (os_world x))"
    by (rule team_and_rival)
  let ?r = "DeleteWorkspace bob_user ''team''"
  have "requests (op_identity mem_setup) (mem_ws (os_world x)) [?r] (mem_ws (os_world x))"
    using bob_may_not [of settled_team] x(1)
    by (intro requests.refuse requests.none) (auto simp: admitted_delete)
  from operator_step.api_requests [where P = mem_setup and x = x and s' = "os_world x"
      and view = "mem_view all_kinds" and ws_view = mem_ws, OF this]
  have step: "operator_step mem_setup (mem_view all_kinds) mem_ws x (ApiRequests [?r]) x"
    by (simp add: uids_kept_def)
  let ?ask = "\<lambda>_ _. None :: go_error option"
  obtain y where "operator_run mem_setup (mem_view all_kinds) mem_ws x
      [WorkspacePass ''rival'' [?ask], ModulePass ''app''] y" by (rule two_passes)
  then have run: "operator_run mem_setup (mem_view all_kinds) mem_ws x
      [ApiRequests [?r], WorkspacePass ''rival'' [?ask], ModulePass ''app''] y"
    by (rule operator_run.more [OF step])
  have flag: "IsEnabled (os_detector x) = True" by (simp add: x(2) istio_on_def IsEnabled_def)
  have "agrees (mem_kube all_kinds) istio_on True ?ask"
    by (simp add: agrees_def istio_on_def answer_def)
  then have "\<exists>w'. mem_ws (os_world y) ''team'' = Some w' \<and> guarded_part w' = guarded_part settled_team
    \<and> workspace_ready (op_kube mem_setup) mem_default w' (rec_version (op_workspace_reconciler mem_setup))
        (IsEnabled (os_detector y)) (mem_view all_kinds (os_world y))"
    by (intro ready_stays_ready [OF mem_system.operator_system_axioms run x(1)])
      (use x(2,3) flag bob_may_not [of settled_team] in auto)
  then show ?thesis by (auto simp: guarded_part_def)
qed

section \<open>Liveness over a change of the flag\<close>

text \<open>
  C9: Switching the isolation back end completes. When a CRD event of the Istio group arrives,
  the flag is refreshed and every stored Workspace enqueued; once the reconciler has been
  through the queue, without faults of the client, every Workspace that nothing stands in the
  way of (a foreign namespace, another controller, a second Workspace for the same namespace) is
  ready for the new flag, whatever became of the other Workspaces.
\<close>

theorem istio_switch_completes:
  assumes "listing_workspace_store K view dflt W ws_view emit served"
    and "rec_recorder R = Some emit"
    and "mapCRDToWorkspaces K W ask d s = (names, d')"
    and "ws_view s n = Some w" and "unobstructed w (view s)"
    and "\<And>m v. ws_view s m = Some v \<Longrightarrow> m \<noteq> n \<Longrightarrow> w_namespace v \<noteq> w_namespace w"
    and "\<forall>kd \<in> core_kinds. served kd" and "IsEnabled d' \<Longrightarrow> \<forall>kd \<in> istio_kinds. served kd"
  shows "n \<in> set names
    \<and> workspace_ready K dflt w (rec_version R) (IsEnabled d')
        (view (sweep K W R (IsEnabled d') names s))"
proof -
  have "n \<in> set names" by (rule listing_workspace_store.crd_enqueues [OF assms(1,3,4)])
  moreover have "waiting view ws_view n w s" using assms(4-6) by (auto simp: waiting_def)
  ultimately show ?thesis
    using listing_workspace_store.sweep_ready [OF assms(1,2) _ _ assms(7)] assms(8) by blast
qed

theorem istio_switch_completes_witness:
  "\<exists>names d' s'. mapCRDToWorkspaces (mem_kube all_kinds) mem_wc (\<lambda>_ _. None) (istio_on\<lparr> det_enabled := False \<rparr>)
       (team_cluster\<lparr> mem_workspaces := [other_team, team] \<rparr>) = (names, d')
     \<and> workspace_ready (mem_kube all_kinds) mem_default team ''v1'' True (mem_view all_kinds s')"
proof -
  let ?s = "team_cluster\<lparr> mem_workspaces := [other_team, team] \<rparr>"
  obtain names d' where crd: "mapCRDToWorkspaces (mem_kube all_kinds) mem_wc (\<lambda>_ _. None)
      (istio_on\<lparr> det_enabled := False \<rparr>) ?s = (names, d')" by force
  then have d': "IsEnabled d'"
    by (auto simp: mapCRDToWorkspaces_def Let_def Refresh_def istio_on_def isResourceSupported_def IsEnabled_def)
  have stored: "mem_ws ?s ''team'' = Some team" by (simp add: mem_ws_def keyed_def other_team_def)
  have apart: "w_namespace v \<noteq> w_namespace team" if "mem_ws ?s m = Some v" "m \<noteq> ''team''" for m v
    using that by (auto simp: mem_ws_def keyed_def other_team_def split: if_splits)
  have "''team'' \<in> set names \<and> workspace_ready (mem_kube all_kinds) mem_default team (rec_version mem_rec)
      (IsEnabled d') (mem_view all_kinds (sweep (mem_kube all_kinds) mem_wc mem_rec (IsEnabled d') names ?s))"
    by (rule istio_switch_completes [OF mem_listing.listing_workspace_store_axioms _ crd stored _ apart])
      (use team_unobstructed in simp_all)
  with d' crd show ?thesis by auto
qed

end
