(* ===== verification/Operator_Permissions.thy ===== *)
theory Operator_Permissions
  imports Workspace_Controller Module_Controller
begin

text \<open>
  The permissions of the operator. The \<open>+kubebuilder:rbac\<close> markers above the two \<open>Reconcile\<close>
  methods are the source of the ClusterRole the manager runs with; each marker is a rule here.
  A restricted client refuses, as the API server does, every call that the role does not cover,
  and a restricted recorder loses its events. A reconciliation behaves under the role exactly as
  without any check but for its event: nothing can fail for want of a permission, and the events
  are lost.
\<close>

section \<open>Rules\<close>

record policy_rule =
  pr_groups :: "string list"
  pr_resources :: "string list"
  pr_verbs :: "string list"
  pr_names :: "string list"

definition marker :: "string \<Rightarrow> string list \<Rightarrow> string list \<Rightarrow> policy_rule" where
  "marker grp resources verbs =
     \<lparr> pr_groups = [grp], pr_resources = resources, pr_verbs = verbs, pr_names = [] \<rparr>"

definition all_verbs :: "string list" where
  "all_verbs = [''get'', ''list'', ''watch'', ''create'', ''update'', ''patch'', ''delete'']"

definition workspace_rbac :: "policy_rule list" where
  "workspace_rbac =
     [marker ''tenant.otterscale.io'' [''workspaces''] all_verbs,
      marker ''tenant.otterscale.io'' [''workspaces/status''] [''get'', ''update'', ''patch''],
      marker '''' [''events''] [''create'', ''patch''],
      marker '''' [''namespaces'', ''resourcequotas'', ''limitranges''] all_verbs,
      marker ''apiextensions.k8s.io'' [''customresourcedefinitions''] [''get'', ''list'', ''watch''],
      marker ''networking.k8s.io'' [''networkpolicies''] all_verbs,
      marker ''rbac.authorization.k8s.io'' [''rolebindings''] all_verbs,
      (marker ''rbac.authorization.k8s.io'' [''clusterroles''] [''bind'', ''escalate''])
        \<lparr> pr_names := [''admin'', ''edit'', ''view''] \<rparr>,
      marker ''security.istio.io'' [''authorizationpolicies'', ''peerauthentications''] all_verbs]"

definition module_rbac :: "policy_rule list" where
  "module_rbac =
     [marker ''addons.otterscale.io'' [''modules''] all_verbs,
      marker ''addons.otterscale.io'' [''modules/status''] [''get'', ''update'', ''patch''],
      marker ''addons.otterscale.io'' [''modules/finalizers''] [''update''],
      marker ''addons.otterscale.io'' [''moduletemplates''] [''get'', ''list'', ''watch''],
      marker '''' [''events''] [''create'', ''patch''],
      marker ''helm.toolkit.fluxcd.io'' [''helmreleases''] all_verbs,
      marker ''kustomize.toolkit.fluxcd.io'' [''kustomizations''] all_verbs]"

definition manager_role :: "policy_rule list" where
  "manager_role = workspace_rbac @ module_rbac"

text \<open>How the API server reads a role.\<close>

definition allows :: "policy_rule list \<Rightarrow> string \<Rightarrow> string \<Rightarrow> string \<Rightarrow> string \<Rightarrow> bool" where
  "allows role grp resource verb name \<longleftrightarrow>
     list_ex (\<lambda>r. grp \<in> set (pr_groups r) \<and> resource \<in> set (pr_resources r)
       \<and> verb \<in> set (pr_verbs r) \<and> (pr_names r = [] \<or> name \<in> set (pr_names r))) role"

definition allows_all :: "policy_rule list \<Rightarrow> string \<times> string \<Rightarrow> string list \<Rightarrow> bool" where
  "allows_all role res verbs \<longleftrightarrow> list_all (\<lambda>v. allows role (fst res) (snd res) v '''') verbs"

section \<open>A client under a role\<close>

fun resource_of :: "kind \<Rightarrow> string \<times> string" where
  "resource_of NamespaceKind = ('''', ''namespaces'')"
| "resource_of RoleBindingKind = (''rbac.authorization.k8s.io'', ''rolebindings'')"
| "resource_of ResourceQuotaKind = ('''', ''resourcequotas'')"
| "resource_of LimitRangeKind = ('''', ''limitranges'')"
| "resource_of NetworkPolicyKind = (''networking.k8s.io'', ''networkpolicies'')"
| "resource_of PeerAuthenticationKind = (''security.istio.io'', ''peerauthentications'')"
| "resource_of AuthorizationPolicyKind = (''security.istio.io'', ''authorizationpolicies'')"
| "resource_of HelmReleaseKind = (''helm.toolkit.fluxcd.io'', ''helmreleases'')"
| "resource_of KustomizationKind = (''kustomize.toolkit.fluxcd.io'', ''kustomizations'')"

text \<open>The manager's client reads through a cache, which lists and watches.\<close>

definition read_verbs :: "string list" where
  "read_verbs = [''get'', ''list'', ''watch'']"

definition forbidden :: go_error where
  "forbidden = ExternalError ''Forbidden'' ''forbidden''"

text \<open>
  To write a RoleBinding takes the verb \<open>bind\<close> on the role it refers to, unless the writer has
  every permission of that role.
\<close>

definition may_bind :: "policy_rule list \<Rightarrow> obj_spec \<Rightarrow> bool" where
  "may_bind role sp =
     (case sp of
        RoleBindingSpec subs ref \<Rightarrow>
          role_ref_kind ref = ''ClusterRole''
          \<and> allows role (role_ref_api_group ref) ''clusterroles'' ''bind'' (role_ref_name ref)
      | _ \<Rightarrow> False)"

definition binding_checked ::
  "policy_rule list \<Rightarrow> kobject \<Rightarrow> (kobject \<Rightarrow> go_error + kobject) \<Rightarrow> kobject \<Rightarrow> go_error + kobject" where
  "binding_checked role ob f b =
     (if obj_kind ob = RoleBindingKind
      then (case f b of Inl e \<Rightarrow> Inl e
            | Inr ob' \<Rightarrow> if may_bind role (obj_spec ob') then Inr ob' else Inl forbidden)
      else f b)"

definition restrict_kube :: "policy_rule list \<Rightarrow> 's kube \<Rightarrow> 's kube" where
  "restrict_kube role K =
     K\<lparr> k_get := (\<lambda>k s.
          if allows_all role (resource_of (fst k)) read_verbs then k_get K k s else Inl forbidden),
        k_create_or_update := (\<lambda>ob f s.
          if allows_all role (resource_of (obj_kind ob)) (read_verbs @ [''create'', ''update''])
          then k_create_or_update K ob (binding_checked role ob f) s else (Some forbidden, s)),
        k_delete := (\<lambda>k s.
          if allows_all role (resource_of (fst k)) [''delete''] then k_delete K k s
          else (Some forbidden, s)) \<rparr>"

definition workspace_resource :: "string \<times> string" where
  "workspace_resource = (''tenant.otterscale.io'', ''workspaces'')"

definition module_resource :: "string \<times> string" where
  "module_resource = (''addons.otterscale.io'', ''modules'')"

definition template_resource :: "string \<times> string" where
  "template_resource = (''addons.otterscale.io'', ''moduletemplates'')"

definition status_of :: "string \<times> string \<Rightarrow> string \<times> string" where
  "status_of res = (fst res, snd res @ ''/status'')"

definition restrict_workspaces :: "policy_rule list \<Rightarrow> 's workspace_client \<Rightarrow> 's workspace_client" where
  "restrict_workspaces role W =
     W\<lparr> wc_get := (\<lambda>n s.
          if allows_all role workspace_resource read_verbs then wc_get W n s else Inl forbidden),
        wc_list := (\<lambda>s.
          if allows_all role workspace_resource read_verbs then wc_list W s else Inl forbidden),
        wc_patch_status := (\<lambda>w w' s.
          if allows_all role (status_of workspace_resource) [''patch''] then wc_patch_status W w w' s
          else (Some forbidden, s)) \<rparr>"

definition restrict_modules :: "policy_rule list \<Rightarrow> 's module_client \<Rightarrow> 's module_client" where
  "restrict_modules role M =
     M\<lparr> mc_get := (\<lambda>n s.
          if allows_all role module_resource read_verbs then mc_get M n s else Inl forbidden),
        mc_get_template := (\<lambda>n s.
          if allows_all role template_resource read_verbs then mc_get_template M n s else Inl forbidden),
        mc_list := (\<lambda>s.
          if allows_all role module_resource read_verbs then mc_list M s else Inl forbidden),
        mc_patch := (\<lambda>m m' s.
          if allows_all role module_resource [''patch''] then mc_patch M m m' s else (Inl forbidden, s)),
        mc_patch_status := (\<lambda>m m' s.
          if allows_all role (status_of module_resource) [''patch''] then mc_patch_status M m m' s
          else (Some forbidden, s)) \<rparr>"

text \<open>
  The recorder of \<open>mgr.GetEventRecorder\<close> (\<open>client-go/tools/events\<close>) creates its events in the
  API group \<open>events.k8s.io\<close>. It does so in the background: the caller of \<open>Eventf\<close> sees no error when
  the API server refuses the event, which is then dropped.
\<close>

definition restrict_recorder :: "policy_rule list \<Rightarrow> 's reconciler \<Rightarrow> 's reconciler" where
  "restrict_recorder role R =
     R\<lparr> rec_recorder := map_option (\<lambda>emit ev s.
          if allows role ''events.k8s.io'' ''events'' ''create'' '''' then emit ev s else s) (rec_recorder R) \<rparr>"

section \<open>The role of the manager covers what the operator does\<close>

lemmas role_defs = allows_all_def allows_def manager_role_def workspace_rbac_def module_rbac_def
  marker_def all_verbs_def read_verbs_def

lemma role_covers_kinds:
  "allows_all manager_role (resource_of kd) (read_verbs @ [''create'', ''update''])"
  "allows_all manager_role (resource_of kd) read_verbs"
  "allows_all manager_role (resource_of kd) [''delete'']"
  by (cases kd; simp add: role_defs)+

lemma role_covers_resources:
  "allows_all manager_role workspace_resource read_verbs"
  "allows_all manager_role (status_of workspace_resource) [''patch'']"
  "allows_all manager_role module_resource read_verbs"
  "allows_all manager_role template_resource read_verbs"
  "allows_all manager_role module_resource [''patch'']"
  "allows_all manager_role (status_of module_resource) [''patch'']"
  by (simp_all add: role_defs workspace_resource_def module_resource_def template_resource_def status_of_def)

lemma restricted_workspaces: "restrict_workspaces manager_role W = W"
  by (simp add: restrict_workspaces_def role_covers_resources)

lemma restricted_modules: "restrict_modules manager_role M = M"
  by (simp add: restrict_modules_def role_covers_resources)

lemma restricted_kube:
  "restrict_kube manager_role K =
     K\<lparr> k_create_or_update := (\<lambda>ob f. k_create_or_update K ob (binding_checked manager_role ob f)) \<rparr>"
  by (simp add: restrict_kube_def role_covers_kinds fun_eq_iff)

text \<open>The only roles the manager may bind are those of the members.\<close>

lemma bind_iff:
  "allows manager_role ''rbac.authorization.k8s.io'' ''clusterroles'' ''bind'' role \<longleftrightarrow>
     role \<in> set orderedRoles"
proof -
  have "set orderedRoles = {''admin'', ''edit'', ''view''}"
    by (simp add: orderedRoles_def MemberRoleAdmin_def MemberRoleEdit_def MemberRoleView_def)
  moreover have "allows manager_role ''rbac.authorization.k8s.io'' ''clusterroles'' ''bind'' role \<longleftrightarrow>
      role \<in> {''admin'', ''edit'', ''view''}"
    by (simp add: role_defs)
  ultimately show ?thesis by simp
qed

lemma may_bind_member_role:
  "role \<in> set orderedRoles \<Longrightarrow>
     may_bind manager_role (RoleBindingSpec subs (cluster_role_ref role))"
  by (simp add: may_bind_def cluster_role_ref_def bind_iff)

text \<open>A write of another kind, or of a binding to a member role, is not held up.\<close>

lemma checked_other: "obj_kind ob \<noteq> RoleBindingKind \<Longrightarrow> binding_checked role ob f = f"
  by (simp add: fun_eq_iff binding_checked_def)

lemma own_by_spec: "own_by K ow ob = Inr ob' \<Longrightarrow> obj_spec ob' = obj_spec ob"
  by (auto simp: own_by_def split: sum.splits)

lemma checked_child:
  assumes "kd = RoleBindingKind \<Longrightarrow> may_bind role sp"
  shows "binding_checked role (new_object kd ns name) (write_child K w version sp) = write_child K w version sp"
proof -
  have "obj_spec ob' = sp" if "write_child K w version sp b = Inr ob'" for b ob'
    using own_by_spec that by (fastforce simp: write_child_def)
  with assms show ?thesis
    by (auto simp: fun_eq_iff binding_checked_def split: sum.split)
qed

abbreviation as_manager :: "'s kube \<Rightarrow> 's kube" where
  "as_manager K \<equiv> restrict_kube manager_role K"

lemma as_manager_helpers [simp]:
  "k_delete (as_manager K) = k_delete K" "k_get (as_manager K) = k_get K"
  "k_is_not_found (as_manager K) = k_is_not_found K"
  "k_ignore_not_found (as_manager K) = k_ignore_not_found K"
  "k_is_no_match (as_manager K) = k_is_no_match K"
  "k_reason_for_error (as_manager K) = k_reason_for_error K"
  "k_set_status_condition (as_manager K) = k_set_status_condition K"
  "k_find_status_condition (as_manager K) = k_find_status_condition K"
  "k_contains_finalizer (as_manager K) = k_contains_finalizer K"
  "k_add_finalizer (as_manager K) = k_add_finalizer K"
  "k_remove_finalizer (as_manager K) = k_remove_finalizer K"
  "k_set_controller_reference (as_manager K) = k_set_controller_reference K"
  "k_create_or_update (as_manager K) ob f = k_create_or_update K ob (binding_checked manager_role ob f)"
  by (simp_all add: restricted_kube)

lemma as_manager_own_by [simp]: "own_by (as_manager K) = own_by K"
  by (simp add: fun_eq_iff own_by_def)

lemma as_manager_deletes [simp]:
  "delete_ignoring_not_found (as_manager K) = delete_ignoring_not_found K"
  "delete_ignoring_no_match (as_manager K) = delete_ignoring_no_match K"
  by (simp_all add: fun_eq_iff delete_ignoring_not_found_def delete_ignoring_no_match_def
      IgnoreNoMatchNotFound_def split: prod.split option.split)

lemma as_manager_child:
  assumes "fst k = RoleBindingKind \<Longrightarrow> \<exists>role \<in> set orderedRoles. d = desired_role_binding w role"
  shows "manage_child (as_manager K) nm w version k d = manage_child K nm w version k d"
proof (cases d)
  case MustBeAbsent
  then show ?thesis by (simp add: manage_child_def)
next
  case (MustExist sp)
  have "may_bind manager_role sp" if "fst k = RoleBindingKind"
    using assms [OF that] MustExist may_bind_member_role
    by (auto simp: desired_role_binding_def neq_Nil_conv split: list.splits)
  moreover have "write_child (as_manager K) = write_child K" by (simp add: fun_eq_iff write_child_def)
  ultimately show ?thesis
    by (cases k) (simp add: manage_child_def MustExist checked_child)
qed

lemma as_manager_resources [simp]: "reconcileResources (as_manager K) w version istio = reconcileResources K w version istio"
proof -
  have other: "manage_child (as_manager K) nm w version k d = manage_child K nm w version k d"
    if "k \<in> {quota_key w, limits_key w} \<union> network_isolation_keys w" for nm k d
    by (rule as_manager_child) (use that in \<open>auto simp: network_isolation_keys_def child_keys\<close>)
  have mutate: "mutate_namespace (as_manager K) w version istio = mutate_namespace K w version istio"
    by (simp add: fun_eq_iff mutate_namespace_def)
  have "ReconcileNamespace (as_manager K) w version istio = ReconcileNamespace K w version istio"
    by (simp add: fun_eq_iff ReconcileNamespace_def mutate checked_other)
  moreover have "ReconcileRoleBindings (as_manager K) w version = ReconcileRoleBindings K w version"
    unfolding ReconcileRoleBindings_manage
    by (rule arg_cong [where f = run_steps], rule map_cong [OF refl], rule as_manager_child) auto
  ultimately show ?thesis
    unfolding reconcileResources_def ReconcileResourceQuota_manage ReconcileLimitRange_manage
      ReconcileNetworkIsolation_def network_isolation_manage
    by (simp add: other network_isolation_keys_def)
qed

lemma as_manager_reconcile: "Reconcile (as_manager K) W R istio1 istio2 name = Reconcile K W R istio1 istio2 name"
proof -
  have status: "ready_false_status (as_manager K) = ready_false_status K"
    "updated_status (as_manager K) = updated_status K"
    by (simp_all add: fun_eq_iff ready_false_status_def updated_status_def Let_def)
  have "handleReconcileError (as_manager K) W R w err = handleReconcileError K W R w err" for w err
    by (simp add: fun_eq_iff handleReconcileError_def setReadyConditionFalse_def status Let_def
        split: option.split)
  moreover have "updateStatus (as_manager K) W R w istio = updateStatus K W R w istio" for w istio
    by (simp add: fun_eq_iff updateStatus_def status Let_def)
  ultimately show ?thesis by (simp add: fun_eq_iff Reconcile_def split: sum.split prod.split option.split)
qed

lemma as_manager_flux: "reconcileResources_module (as_manager K) m mt version = reconcileResources_module K m mt version"
proof -
  have "write_flux (as_manager K) m mt version = write_flux K m mt version"
    by (rule ext) (simp add: fun_eq_iff write_flux_def)
  then show ?thesis
    by (intro ext) (simp add: reconcileResources_module_def ReconcileHelmRelease_def
        ReconcileKustomization_def mutate_helm_release_write mutate_kustomization_write checked_other
        split: option.split)
qed

lemma as_manager_reconcile_module: "Reconcile_module (as_manager K) M R name = Reconcile_module K M R name"
proof -
  have fetch: "fetchModuleTemplate (as_manager K) M = fetchModuleTemplate K M"
    by (simp add: fun_eq_iff fetchModuleTemplate_def split: sum.split)
  have observe: "observeFluxResourceStatus (as_manager K) m mt ns s = observeFluxResourceStatus K m mt ns s"
    for m mt ns s
    by (simp add: observeFluxResourceStatus_def observeHelmReleaseStatus_def observeKustomizationStatus_def
        split: sum.split)
  have status: "ready_false_status_module (as_manager K) = ready_false_status_module K"
    "updated_status_module (as_manager K) = updated_status_module K"
    by (simp_all add: fun_eq_iff ready_false_status_module_def updated_status_module_def Let_def observe)
  have "handleReconcileError_module (as_manager K) M R m err = handleReconcileError_module K M R m err" for m err
    by (simp add: fun_eq_iff handleReconcileError_module_def setReadyConditionFalse_module_def status
        Let_def split: option.split)
  moreover have "updateStatus_module (as_manager K) M R m mt = updateStatus_module K M R m mt" for m mt
    by (simp add: fun_eq_iff updateStatus_module_def status Let_def)
  ultimately have sync: "sync_module (as_manager K) M R m = sync_module K M R m" for m
    by (simp add: fun_eq_iff sync_module_def fetch as_manager_flux
        split: sum.split prod.split option.split)
  have "DeleteHelmRelease (as_manager K) m ns = DeleteHelmRelease K m ns"
    "DeleteKustomization (as_manager K) m ns = DeleteKustomization K m ns" for m ns
    by (simp_all add: fun_eq_iff DeleteHelmRelease_def DeleteKustomization_def split: prod.split option.split)
  then have "cleanup_flux (as_manager K) m ns = cleanup_flux K m ns" for m ns
    by (simp add: cleanup_flux_def)
  moreover have "resolveCleanupNamespace (as_manager K) M m s = resolveCleanupNamespace K M m s" for m s
    by (simp add: resolveCleanupNamespace_def fetch Let_def split: option.split)
  ultimately have "reconcileDelete (as_manager K) M m = reconcileDelete K M m" for m
    by (simp add: fun_eq_iff reconcileDelete_def split: prod.split option.split)
  moreover have "ensure_finalizer (as_manager K) M m = ensure_finalizer K M m" for m
    by (simp add: fun_eq_iff ensure_finalizer_def)
  ultimately show ?thesis
    by (simp add: fun_eq_iff Reconcile_module_def sync split: sum.split prod.split)
qed

text \<open>
  The events. The markers grant the verbs only for the events of the core group, so the recorder
  loses every event: a pass that records one leaves the state before it.
\<close>

lemma recorder_forbidden:
  "allows manager_role '''' ''events'' ''create'' name
   \<and> \<not> allows manager_role ''events.k8s.io'' ''events'' ''create'' name"
  by (simp add: role_defs)

lemma restricted_recorder:
  "rec_version (restrict_recorder manager_role R) = rec_version R"
  "rec_recorder (restrict_recorder manager_role R) = map_option (\<lambda>emit ev s. s) (rec_recorder R)"
  by (simp_all add: restrict_recorder_def recorder_forbidden)

definition same_but_event :: "'s reconciler \<Rightarrow> 'r \<times> 's \<Rightarrow> 'r \<times> 's \<Rightarrow> bool" where
  "same_but_event R a b \<longleftrightarrow> fst b = fst a
     \<and> (snd b = snd a \<or> (\<exists>emit ev. rec_recorder R = Some emit \<and> snd b = emit ev (snd a)))"

lemma same_but_event_refl [simp]: "same_but_event R a a"
  by (simp add: same_but_event_def)

lemma same_but_event_then [simp]:
  "same_but_event R (event_then (restrict_recorder manager_role R) ev res s) (event_then R ev res s)"
  by (cases "rec_recorder R")
    (auto simp: same_but_event_def event_then_def Eventf_def restricted_recorder)

lemma handle_error_but_event:
  "same_but_event R (handleReconcileError K W (restrict_recorder manager_role R) w err s)
     (handleReconcileError K W R w err s)"
  by (simp add: handleReconcileError_def Let_def split: option.split)

lemma update_status_but_event:
  "same_but_event R (updateStatus K W (restrict_recorder manager_role R) w istio s) (updateStatus K W R w istio s)"
proof -
  obtain r t where "wc_patch_status W w (w\<lparr> w_status := updated_status K w istio \<rparr>) s = (r, t)" by force
  then show ?thesis by (cases r) (simp_all add: updateStatus_def Let_def)
qed

lemma reconcile_but_event:
  "same_but_event R (Reconcile K W (restrict_recorder manager_role R) istio1 istio2 name s)
     (Reconcile K W R istio1 istio2 name s)"
proof (cases "wc_get W name s")
  case (Inl e)
  then show ?thesis by (simp add: Reconcile_def)
next
  case (Inr w)
  obtain r t where "reconcileResources K w (rec_version R) istio1 s = (r, t)" by force
  with Inr show ?thesis
    by (cases r) (simp_all add: Reconcile_def restricted_recorder(1) handle_error_but_event update_status_but_event)
qed

lemma handle_error_module_but_event:
  "same_but_event R (handleReconcileError_module K M (restrict_recorder manager_role R) m err s)
     (handleReconcileError_module K M R m err s)"
  by (simp add: handleReconcileError_module_def Let_def split: option.split)

lemma update_status_module_but_event:
  "same_but_event R (updateStatus_module K M (restrict_recorder manager_role R) m mt s)
     (updateStatus_module K M R m mt s)"
proof -
  obtain r t where "mc_patch_status M m (m\<lparr> m_status := updated_status_module K m mt s \<rparr>) s = (r, t)" by force
  then show ?thesis by (cases r) (simp_all add: updateStatus_module_def Let_def)
qed

lemma sync_but_event:
  "same_but_event R (sync_module K M (restrict_recorder manager_role R) m s) (sync_module K M R m s)"
proof (cases "fetchModuleTemplate K M (ms_template_ref (m_spec m)) s")
  case (Inl e)
  then show ?thesis by (simp add: sync_module_def handle_error_module_but_event)
next
  case (Inr mt)
  obtain r t where "reconcileResources_module K m mt (rec_version R) s = (r, t)" by force
  with Inr show ?thesis
    by (cases r) (simp_all add: sync_module_def restricted_recorder(1) handle_error_module_but_event
        update_status_module_but_event)
qed

lemma reconcile_module_but_event:
  "same_but_event R (Reconcile_module K M (restrict_recorder manager_role R) name s) (Reconcile_module K M R name s)"
proof (cases "mc_get M name s")
  case (Inl e)
  then show ?thesis by (simp add: Reconcile_module_def)
next
  case (Inr m)
  obtain q t where "ensure_finalizer K M m s = (q, t)" by force
  with Inr show ?thesis by (cases q) (simp_all add: Reconcile_module_def sync_but_event)
qed

section \<open>Properties\<close>

text \<open>
  C24: The role suffices but for the events. A reconciliation of a Workspace or of a Module under
  the role that the markers of the two controllers generate, with every call and every event
  checked against it, has the same result as without any check, and leaves the same state but for
  the one event it records at its end, which is lost; the two map functions do the same. So no
  call of a client is ever forbidden, the bindings of the member roles included.
\<close>

theorem role_suffices:
  "same_but_event R
     (Reconcile (restrict_kube manager_role K) (restrict_workspaces manager_role W)
        (restrict_recorder manager_role R) istio1 istio2 name s)
     (Reconcile K W R istio1 istio2 name s)
   \<and> mapCRDToWorkspaces (restrict_kube manager_role K) (restrict_workspaces manager_role W) ask d s =
     mapCRDToWorkspaces K W ask d s
   \<and> same_but_event R'
       (Reconcile_module (restrict_kube manager_role K) (restrict_modules manager_role M)
          (restrict_recorder manager_role R') name' s)
       (Reconcile_module K M R' name' s)
   \<and> mapModuleTemplateToModules (restrict_modules manager_role M) template s =
     mapModuleTemplateToModules M template s"
proof -
  have "mapCRDToWorkspaces (as_manager K) W ask d s = mapCRDToWorkspaces K W ask d s"
    by (simp add: mapCRDToWorkspaces_def Refresh_def isResourceSupported_def split: option.split)
  then show ?thesis
    by (simp add: restricted_workspaces restricted_modules as_manager_reconcile as_manager_reconcile_module
        reconcile_but_event reconcile_module_but_event)
qed

text \<open>
  The role does not let the operator hand out more than the member roles: the ClusterRoles it
  may bind are exactly those the RoleBindings of a Workspace can refer to, and among the
  resources it may write there are no ClusterRoles and no ClusterRoleBindings.
\<close>

theorem bindable_roles_exact:
  "(allows manager_role ''rbac.authorization.k8s.io'' ''clusterroles'' ''bind'' role \<longleftrightarrow>
     role \<in> set orderedRoles)
   \<and> list_all (\<lambda>verb.
       \<not> allows manager_role ''rbac.authorization.k8s.io'' ''clusterroles'' verb name
       \<and> \<not> allows manager_role ''rbac.authorization.k8s.io'' ''clusterrolebindings'' verb name)
     [''create'', ''update'', ''patch'', ''delete'']"
  by (simp only: bind_iff)
    (simp add: role_defs)

end
