(* ===== verification/Label_Bounds.thy ===== *)
theory Label_Bounds
  imports Workspace_Webhook Module_Core
begin

text \<open>
  The bounds the API server puts on labels, and which of the labels the operator writes keep
  them: those of the defaulter always do, because the rules of the CRD bound a subject the way a
  label is bounded; those of the children carry the name of a custom resource, which may be four
  times as long as a label value.
\<close>

section \<open>Names and labels as the API server checks them\<close>

text \<open>
  A DNS-1123 subdomain, the form of the names of custom resources, as the automaton of its
  regular expression: \<open>Fresh\<close> at the start and after a dot, \<open>Letter\<close> after an alphanumeric
  character, \<open>Dash\<close> after a dash.
\<close>

datatype dns_state = Fresh | Letter | Dash

fun dns_run :: "dns_state \<Rightarrow> string \<Rightarrow> bool" where
  "dns_run q [] = (q = Letter)"
| "dns_run q (c # cs) =
     (if lower_alnum c then dns_run Letter cs
      else if c = CHR ''-'' then q \<noteq> Fresh \<and> dns_run Dash cs
      else c = CHR ''.'' \<and> q = Letter \<and> dns_run Fresh cs)"

definition dns_subdomain :: "string \<Rightarrow> bool" where
  "dns_subdomain s \<longleftrightarrow> length s \<le> 253 \<and> dns_run Fresh s"

definition label_name :: "string \<Rightarrow> bool" where
  "label_name s \<longleftrightarrow> length s \<le> 63 \<and> bounded_pattern alnum subject_inner s"

definition valid_label_value :: "string \<Rightarrow> bool" where
  "valid_label_value s \<longleftrightarrow> s = '''' \<or> label_name s"

text \<open>A key is a name, or a subdomain, a slash and a name.\<close>

definition valid_label_key :: "string \<Rightarrow> bool" where
  "valid_label_key k =
     (case dropWhile (\<lambda>c. c \<noteq> CHR ''/'') k of
        [] \<Rightarrow> label_name k
      | _ # name \<Rightarrow> dns_subdomain (takeWhile (\<lambda>c. c \<noteq> CHR ''/'') k) \<and> label_name name)"

definition valid_labels :: "labels \<Rightarrow> bool" where
  "valid_labels l \<longleftrightarrow> (\<forall>k v. l k = Some v \<longrightarrow> valid_label_key k \<and> valid_label_value v)"

section \<open>Patterns\<close>

lemma inner_then_end_iff:
  "(\<And>c. e c \<Longrightarrow> i c) \<Longrightarrow>
     inner_then_end e i s \<longleftrightarrow> s \<noteq> [] \<and> e (last s) \<and> list_all i s"
  by (induction e i s rule: inner_then_end.induct) auto

lemma bounded_pattern_iff:
  assumes "\<And>c. e c \<Longrightarrow> i c"
  shows "bounded_pattern e i s \<longleftrightarrow> s \<noteq> [] \<and> e (hd s) \<and> e (last s) \<and> list_all i s"
  using assms by (auto simp: bounded_pattern_def inner_then_end_iff split: list.split)

lemma alnum_inner: "alnum c \<Longrightarrow> subject_inner c"
  by (simp add: subject_inner_def)

lemmas label_name_iff = label_name_def bounded_pattern_iff [of alnum subject_inner, OF alnum_inner]

lemma dns_run_chars: "dns_run q s \<Longrightarrow> list_all subject_inner s"
  by (induction q s rule: dns_run.induct) (auto simp: subject_inner_def alnum_def split: if_splits)

lemma dns_run_last: "dns_run q s \<Longrightarrow> s = [] \<or> alnum (last s)"
  by (induction q s rule: dns_run.induct) (auto simp: alnum_def split: if_splits)

lemma dns_run_head: "dns_run Fresh s \<Longrightarrow> s \<noteq> [] \<and> alnum (hd s)"
  by (cases s) (auto simp: alnum_def split: if_splits)

text \<open>A name of a custom resource is a label value as soon as it is short enough.\<close>

lemma subdomain_label:
  assumes "dns_subdomain s"
  shows "valid_label_value s \<longleftrightarrow> length s \<le> 63"
  using assms dns_run_chars [of Fresh s] dns_run_last [of Fresh s] dns_run_head [of s]
  by (auto simp: valid_label_value_def label_name_iff dns_subdomain_def)

lemma valid_labels_insert:
  "valid_labels (l(k \<mapsto> v)) \<longleftrightarrow> valid_label_key k \<and> valid_label_value v \<and> valid_labels (l(k := None))"
  by (auto simp: valid_labels_def)

lemma valid_prefixed_key:
  assumes "CHR ''/'' \<notin> set p" and "dns_subdomain p"
  shows "valid_label_key (p @ CHR ''/'' # name) \<longleftrightarrow> label_name name"
proof -
  have "dropWhile (\<lambda>c. c \<noteq> CHR ''/'') (p @ CHR ''/'' # name) = CHR ''/'' # name"
    "takeWhile (\<lambda>c. c \<noteq> CHR ''/'') (p @ CHR ''/'' # name) = p"
    using assms(1) by (induction p) auto
  with assms(2) show ?thesis by (simp add: valid_label_key_def)
qed

section \<open>The labels of the members\<close>

lemma user_label_key: "valid_label_key (UserLabelPrefix @ u) \<longleftrightarrow> label_name u"
proof -
  have "dns_subdomain ''user.otterscale.io''" by code_simp
  then have "valid_label_key (''user.otterscale.io'' @ CHR ''/'' # u) \<longleftrightarrow> label_name u"
    by (intro valid_prefixed_key) simp_all
  then show ?thesis by (simp add: UserLabelPrefix_def)
qed

lemma valid_subject_label: "valid_subject s \<longleftrightarrow> 1 \<le> length s \<and> label_name s"
  by (auto simp: valid_subject_def label_name_def)

text \<open>
  C31: The labels of the members are always valid. The rules of the CRD admit a subject exactly
  when it is the name part of a label key; so the defaulter turns valid labels of a Workspace
  that satisfies the rules into valid labels, and can never be the reason that the API server
  refuses the Workspace.
\<close>

theorem member_labels_valid:
  assumes "valid_workspace_spec (w_spec w)"
    and "valid_labels (labels_or_empty (meta_labels (w_meta w)))"
  shows "valid_labels (labels_or_empty (meta_labels (w_meta (snd (Default w)))))"
proof -
  have "valid_label_key k \<and> valid_label_value v"
    if kv: "labels_or_empty (meta_labels (w_meta (defaultMemberLabels w))) k = Some v" for k v
  proof (cases "k \<in> desired_user_labels (w_members w)")
    case True
    then obtain m where m: "m \<in> set (w_members w)" "k = UserLabelPrefix @ wm_subject m"
      by (auto simp: desired_user_labels_iff)
    then have "valid_subject (wm_subject m)"
      using assms(1) by (auto simp: valid_workspace_spec_def list_all_iff valid_member_def)
    then have "valid_label_key k" using m(2) by (simp add: user_label_key valid_subject_label)
    moreover have "v = ''true''" using kv default_label [of w k] True by (auto simp: labels_or_empty_def)
    moreover have "valid_label_value ''true''" by code_simp
    ultimately show ?thesis by simp
  next
    case False
    then have "labels_or_empty (meta_labels (w_meta w)) k = Some v"
      using kv default_label [of w k] by (auto simp: labels_or_empty_def split: if_splits)
    with assms(2) show ?thesis by (auto simp: valid_labels_def)
  qed
  then show ?thesis by (simp add: Default_def valid_labels_def)
qed

theorem member_labels_valid_witness:
  "valid_labels (labels_or_empty (meta_labels (w_meta (snd (Default team)))))"
  by (rule member_labels_valid) (simp_all add: team_valid valid_labels_def labels_or_empty_def)

section \<open>The labels of the children\<close>

lemma standard_keys:
  "valid_label_key labels_Instance" "valid_label_key labels_Component" "valid_label_key labels_PartOf"
  "valid_label_key labels_ManagedBy" "valid_label_key labels_Version"
  "valid_label_key LabelModuleTemplate"
  by code_simp+

lemma standard_valid:
  assumes "label_name component"
  shows "valid_labels (Standard '''' inst component version) \<longleftrightarrow>
    valid_label_value inst \<and> valid_label_value version"
proof -
  have fixed: "valid_label_value ''otterscale''" "valid_label_value ''otterscale-operator''"
    by code_simp+
  have "valid_labels (Standard '''' inst component version) \<longleftrightarrow>
      (\<forall>k \<in> dom (Standard '''' inst component version). valid_label_key k
         \<and> valid_label_value (the (Standard '''' inst component version k)))"
    by (auto simp: valid_labels_def dom_def)
  with standard_keys fixed assms show ?thesis
    by (auto simp: dom_Standard valid_label_value_def)
qed

text \<open>
  The labels of the children are valid exactly for short names. For a Workspace or a Module
  with any name the API server accepts, the labels the operator puts on its objects are valid if
  and only if the name has at most 63 characters (for a Module, the name of its template too),
  although names of custom resources may have 253.
\<close>

theorem child_labels_valid_iff:
  assumes "dns_subdomain (w_name w)" and "dns_subdomain (m_name m)" and "dns_subdomain (mt_name mt)"
    and "valid_label_value version"
  shows "(valid_labels (LabelsForWorkspace (w_name w) version) \<longleftrightarrow> length (w_name w) \<le> 63)
    \<and> (valid_labels (LabelsForModule (m_name m) (mt_name mt) version) \<longleftrightarrow>
         length (m_name m) \<le> 63 \<and> length (mt_name mt) \<le> 63)"
proof -
  have names: "label_name ''workspace''" "label_name ''module''" by code_simp+
  have fresh: "(Standard '''' inst c version)(LabelModuleTemplate := None) = Standard '''' inst c version"
    for inst c
  proof -
    have "LabelModuleTemplate \<notin> dom (Standard '''' inst c version)"
      by (simp add: dom_Standard LabelModuleTemplate_fresh)
    then show ?thesis by (simp add: domIff fun_upd_idem)
  qed
  show ?thesis
    using standard_valid [OF names(1)] standard_valid [OF names(2)] assms(4) standard_keys(6)
      subdomain_label [OF assms(1)] subdomain_label [OF assms(2)] subdomain_label [OF assms(3)]
    by (auto simp: LabelsForWorkspace_def LabelsForModule_def valid_labels_insert fresh)
qed

definition long_name :: string where
  "long_name = replicate 64 CHR ''a''"

theorem child_labels_valid_iff_witness:
  "dns_subdomain long_name \<and> \<not> valid_labels (LabelsForWorkspace long_name ''v1'')"
proof -
  let ?w = "team\<lparr> w_meta := team_meta\<lparr> meta_name := long_name \<rparr> \<rparr>"
  let ?m = "\<lparr> m_meta = object_meta_named '''' ''app'',
    m_spec = \<lparr> ms_template_ref = ''chart'', ms_namespace = None, ms_values = None \<rparr>,
    m_status = \<lparr> mst_observed_generation = 0, mst_template_generation = 0, mst_helm_release_ref = None,
       mst_kustomization_ref = None, mst_conditions = [] \<rparr> \<rparr> :: module"
  let ?mt = "\<lparr> mt_meta = object_meta_named '''' ''chart'', mt_spec = \<lparr> mts_description = '''',
       mts_namespace = ''apps'', mts_helm_release = None, mts_kustomization = None \<rparr> \<rparr> :: module_template"
  have ok: "dns_subdomain long_name" "dns_subdomain ''app''" "dns_subdomain ''chart''"
    "valid_label_value ''v1''" by code_simp+
  have long: "length long_name = 64" by (simp add: long_name_def)
  from child_labels_valid_iff [of ?w ?m ?mt "''v1''"] ok long
  show ?thesis by (simp add: object_meta_named_def)
qed

end
