(* ===== verification/Watch_Events.thy ===== *)
theory Watch_Events
  imports Kube_Api
begin

text \<open>
  The event handlers of controller-runtime that the controllers register with their watches
  (\<open>handler.EnqueueRequestsFromMapFunc\<close> and, behind \<open>Owns\<close>, \<open>handler.EnqueueRequestForOwner\<close>),
  with the laws of their documentation: on an update event the requests of both the old and the
  new object are enqueued, and \<open>Owns\<close> asks for the controller of the object.
\<close>

datatype 'o watch_event = Created 'o | Updated 'o 'o | Deleted 'o

text \<open>The event of a change of an existing object.\<close>

definition change_event :: "'o \<Rightarrow> 'o option \<Rightarrow> 'o watch_event" where
  "change_event x y = (case y of None \<Rightarrow> Deleted x | Some y' \<Rightarrow> Updated x y')"

locale map_func_handler =
  fixes enqueue :: "('o \<Rightarrow> string list) \<Rightarrow> 'o watch_event \<Rightarrow> string list"
  assumes enqueue_created: "set (enqueue f (Created x)) = set (f x)"
    and enqueue_updated: "set (enqueue f (Updated x y)) = set (f x) \<union> set (f y)"
    and enqueue_deleted: "set (enqueue f (Deleted x)) = set (f x)"
begin

text \<open>Whatever is done to an object, the requests of what it was are enqueued.\<close>

lemma enqueue_change: "n \<in> set (f x) \<Longrightarrow> n \<in> set (enqueue f (change_event x y))"
  by (simp add: change_event_def enqueue_updated enqueue_deleted split: option.split)

end

locale owner_handler = map_func_handler enqueue
  for enqueue :: "(kobject \<Rightarrow> string list) \<Rightarrow> kobject watch_event \<Rightarrow> string list" +
  fixes owners :: "string \<Rightarrow> kobject \<Rightarrow> string list"
  assumes owners_controller:
    "controlled_by ow (obj_meta x) \<Longrightarrow> owner_name ow \<in> set (owners (owner_kind ow) x)"
begin

lemma enqueue_owner:
  assumes "controlled_by ow (obj_meta x)"
  shows "owner_name ow \<in> set (enqueue (owners (owner_kind ow)) (change_event x y))"
  by (rule enqueue_change) (rule owners_controller [OF assms])

end

text \<open>An instance: the requests without duplicates.\<close>

fun plain_enqueue :: "('o \<Rightarrow> string list) \<Rightarrow> 'o watch_event \<Rightarrow> string list" where
  "plain_enqueue f (Created x) = remdups (f x)"
| "plain_enqueue f (Updated x y) = remdups (f x @ f y)"
| "plain_enqueue f (Deleted x) = remdups (f x)"

definition controller_names :: "string \<Rightarrow> kobject \<Rightarrow> string list" where
  "controller_names kd x =
     map ref_name (filter (\<lambda>r. ref_controller r \<and> ref_kind r = kd) (owner_references (obj_meta x)))"

interpretation plain_handler: map_func_handler plain_enqueue
  by unfold_locales simp_all

interpretation plain_owner_handler: owner_handler plain_enqueue controller_names
  by unfold_locales (force simp: controller_names_def controlled_by_def)

end
