(* ===== verification/Workspace_Drift.thy ===== *)
theory Workspace_Drift
  imports Workspace_Properties Watch_Events
begin

text \<open>
  What the \<open>Owns\<close> watches of \<open>SetupWithManager\<close> are for: somebody changes or deletes an object of
  a ready Workspace, the event of the change leads back to the Workspace through the owner
  reference, and the pass restores the object. The Istio kinds are only watched when they were
  there when the operator started.
\<close>

text \<open>The types that \<open>SetupWithManager\<close> names, by kind.\<close>

fun owned_type :: "kind \<Rightarrow> string" where
  "owned_type NamespaceKind = ''Namespace''"
| "owned_type RoleBindingKind = ''RoleBinding''"
| "owned_type ResourceQuotaKind = ''ResourceQuota''"
| "owned_type LimitRangeKind = ''LimitRange''"
| "owned_type NetworkPolicyKind = ''NetworkPolicy''"
| "owned_type PeerAuthenticationKind = ''PeerAuthentication''"
| "owned_type AuthorizationPolicyKind = ''AuthorizationPolicy''"
| "owned_type HelmReleaseKind = ''HelmRelease''"
| "owned_type KustomizationKind = ''Kustomization''"

definition watched :: "bool \<Rightarrow> kind \<Rightarrow> bool" where
  "watched istioAtStartup kd \<longleftrightarrow> Owns (owned_type kd) \<in> set (SetupWithManager_watches istioAtStartup)"

lemma watched_iff:
  "watched istioAtStartup kd \<longleftrightarrow> kd \<in> core_kinds \<or> istioAtStartup \<and> kd \<in> istio_kinds"
  by (cases kd) (simp_all add: watched_def SetupWithManager_watches_def core_kinds_def istio_kinds_def)

text \<open>The objects that a Workspace should have.\<close>

definition wanted_keys :: "workspace \<Rightarrow> bool \<Rightarrow> key set" where
  "wanted_keys w istio =
     insert (namespace_key w) {k. \<exists>sp. (k, MustExist sp) \<in> set (desired_children w istio)}"

lemma wanted_kinds:
  assumes "k \<in> wanted_keys w istio"
  shows "fst k \<in> core_kinds \<or> istio \<and> fst k \<in> istio_kinds"
  using assms
  by (auto simp: wanted_keys_def desired_children_def core_kinds_def istio_kinds_def child_keys
      desired_peer_authentication_def desired_authorization_policy_def split: if_splits)

lemma wanted_controlled:
  assumes "workspace_ready K dflt w version istio v" and "k \<in> wanted_keys w istio" and "v k = Some x"
  shows "controlled_by (workspace_owner w) (obj_meta x)"
  using assms
  by (fastforce simp: workspace_ready_def wanted_keys_def namespace_ready_def conforms_exists_iff
      settled_owner_def)

text \<open>
  C15: Drift is repaired. Let a Workspace be ready (for this or an earlier version of the
  operator), and let anybody change or delete one of its objects. Then the kind of the object is
  watched, unless it is an Istio kind that was not served when the operator started; the event
  enqueues the Workspace; and the pass over it, without faults and with nothing in the way,
  makes it ready again.
\<close>

theorem owned_drift_repaired:
  assumes "reliable_workspace_store K view dflt W ws_view emit served"
    and "owner_handler enqueue owners" and "rec_recorder R = Some emit"
    and "ws_view s n = Some w" and "w_name w = n"
    and "\<forall>kd \<in> core_kinds. served kd" and "istio \<Longrightarrow> \<forall>kd \<in> istio_kinds. served kd"
    and "workspace_ready K dflt w version istio v" and "k \<in> wanted_keys w istio" and "v k = Some x"
    and "unobstructed w (view s)"
    and "Reconcile K W R istio istio n s = (out, s')"
  shows "(watched istioAtStartup (fst k) \<or> fst k \<in> istio_kinds \<and> \<not> istioAtStartup)
    \<and> n \<in> set (enqueue (owners ''Workspace'') (change_event x (view s k)))
    \<and> out = Returns None \<and> workspace_ready K dflt w (rec_version R) istio (view s')"
proof (intro conjI)
  show "watched istioAtStartup (fst k) \<or> fst k \<in> istio_kinds \<and> \<not> istioAtStartup"
    using wanted_kinds [OF assms(9)] by (auto simp: watched_iff)
  show "n \<in> set (enqueue (owners ''Workspace'') (change_event x (view s k)))"
    using owner_handler.enqueue_owner [OF assms(2) wanted_controlled [OF assms(8-10)]] assms(5)
    by (simp add: workspace_owner_def)
  obtain s1 where "Reconcile K W R istio istio n s = (Returns None, s1)"
    and "workspace_ready K dflt w (rec_version R) istio (view s1)"
    using reliable_workspace_store.reconcile_succeeds [OF assms(1,3-7,11), of istio] by blast
  with assms(12) show "out = Returns None" "workspace_ready K dflt w (rec_version R) istio (view s')"
    by simp_all
qed

theorem owned_drift_repaired_witness:
  "\<exists>x s'. ''team'' \<in> set (plain_enqueue (controller_names ''Workspace'') (Deleted x))
     \<and> workspace_ready (mem_kube all_kinds) mem_default team ''v1'' True (mem_view all_kinds s')"
proof -
  obtain s where ready: "workspace_ready (mem_kube all_kinds) mem_default team ''v1'' True (mem_view all_kinds s)"
    using team_reconciled [of True] by blast
  then obtain x where x: "mem_view all_kinds s (namespace_key team) = Some x"
    by (auto simp: workspace_ready_def namespace_ready_def split: option.splits)
  obtain out s' where run: "Reconcile (mem_kube all_kinds) mem_wc mem_rec True True ''team'' team_cluster
      = (out, s')" by force
  have gone_or_terminating: "mem_view all_kinds team_cluster (namespace_key team) = None" by simp
  from owned_drift_repaired [OF mem_reliable.reliable_workspace_store_axioms [of all_kinds]
      plain_owner_handler.owner_handler_axioms _ _ _ _ _ ready _ x team_unobstructed run,
      unfolded gone_or_terminating change_event_def]
  show ?thesis by (auto simp: wanted_keys_def)
qed

end
