(* ===== verification/Module_Sweep.thy ===== *)
theory Module_Sweep
  imports Module_Properties Module_Convergence Watch_Events
begin

text \<open>
  What the watches of the Module controller set off. A changed template enqueues the Modules
  that refer to it, a changed Flux resource the Module its labels name, and the reconciler works
  through the queue; a Module that is being deleted is let go. Each ends, without faults, in the
  state the template asks for, whatever becomes of the other Modules in the queue.
\<close>

section \<open>Working through the queue\<close>

definition module_sweep ::
  "'s kube \<Rightarrow> 's module_client \<Rightarrow> 's reconciler \<Rightarrow> string list \<Rightarrow> 's \<Rightarrow> 's" where
  "module_sweep K M R names s = fold (\<lambda>n t. snd (Reconcile_module K M R n t)) names s"

lemma module_sweep_simps [simp]:
  "module_sweep K M R [] s = s"
  "module_sweep K M R (n # ns) s = module_sweep K M R ns (snd (Reconcile_module K M R n s))"
  by (simp_all add: module_sweep_def)

text \<open>
  A live Module with a template whose Flux resource nobody else controls: what a pass needs, and
  what every pass of the sweep keeps.
\<close>

definition syncable ::
  "('s \<Rightarrow> key \<Rightarrow> kobject option) \<Rightarrow> ('s \<Rightarrow> string \<Rightarrow> module option)
     \<Rightarrow> ('s \<Rightarrow> string \<Rightarrow> module_template option) \<Rightarrow> string \<Rightarrow> module \<Rightarrow> module_template \<Rightarrow> kind \<Rightarrow> 's \<Rightarrow> bool" where
  "syncable view mod_view tmpl_view n m mt kd s \<longleftrightarrow>
     (\<exists>m'. mod_view s n = Some m' \<and> m_spec m' = m_spec m \<and> module_owner m' = module_owner m
        \<and> deletion_timestamp (m_meta m') = None)
     \<and> tmpl_view s (ms_template_ref (m_spec m)) = Some mt
     \<and> flux_free m (view s (flux_key m mt kd))"

lemma same_spec_flux:
  assumes "m_spec m' = m_spec m" and "module_owner m' = module_owner m"
  shows "desired_flux m' mt = desired_flux m mt" "flux_key m' mt kd = flux_key m mt kd"
    "flux_ready K dflt m' mt version sp x = flux_ready K dflt m mt version sp x"
    "flux_free m' x = flux_free m x"
proof -
  have name: "m_name m' = m_name m" using assms(2) by (simp add: module_owner_def)
  show "desired_flux m' mt = desired_flux m mt"
    using assms(1) by (simp add: desired_flux_def helm_spec_for_def split: option.split)
  show "flux_key m' mt kd = flux_key m mt kd"
    using assms(1) name by (simp add: flux_key_def TargetNamespace_def)
  show "flux_ready K dflt m' mt version sp x = flux_ready K dflt m mt version sp x"
    using assms(2) name by (simp add: flux_ready_def split: option.split)
  show "flux_free m' x = flux_free m x" unfolding flux_free_def assms(2) by (rule refl)
qed

context reliable_module_store
begin

lemma ready_flux_free: "flux_ready K dflt m mt version sp x \<Longrightarrow> flux_free m x"
  using set_controller_reference_taken
  by (fastforce simp: flux_ready_def flux_free_def settled_owner_def split: option.splits)

text \<open>The Module's own pass brings it to its goal, another one leaves it alone.\<close>

lemma own_pass:
  assumes rec: "rec_recorder R \<in> {None, Some emit}"
    and s: "syncable view mod_view tmpl_view n m mt kd s"
    and flux: "desired_flux m mt = Some (kd, sp)" and served: "served kd"
    and run: "Reconcile_module K M R n s = (out, s')"
  shows "syncable view mod_view tmpl_view n m mt kd s'"
    and "flux_ready K dflt m mt (rec_version R) sp (view s' (flux_key m mt kd))"
proof -
  obtain m' where m': "mod_view s n = Some m'" and same: "m_spec m' = m_spec m" "module_owner m' = module_owner m"
    and live: "deletion_timestamp (m_meta m') = None"
    using s by (auto simp: syncable_def)
  note eqs = same_spec_flux [OF same]
  have mt: "tmpl_view s (ms_template_ref (m_spec m')) = Some mt" and flux': "desired_flux m' mt = Some (kd, sp)"
    and free: "flux_free m' (view s (flux_key m' mt kd))"
    using s flux same(1) by (simp_all add: syncable_def eqs)
  note pass = live_pass [OF rec m' live mt flux' served free run]
  then obtain m2 where m2: "mod_view s' n = Some m2" "synced_module m' mt kd m2" by blast
  note m2s = synced_simps [OF m2(2)]
  show ready: "flux_ready K dflt m mt (rec_version R) sp (view s' (flux_key m mt kd))"
    using pass(2) by (simp add: eqs)
  have "tmpl_view s' = tmpl_view s" by (rule template_frame.pass_rel [OF rec run])
  then have "tmpl_view s' (ms_template_ref (m_spec m)) = Some mt" using s by (simp add: syncable_def)
  moreover have "m_spec m2 = m_spec m" "module_owner m2 = module_owner m"
    "deletion_timestamp (m_meta m2) = None"
    by (rule trans [OF m2s(2) same(1)] trans [OF m2s(3) same(2)] trans [OF m2s(4) live])+
  moreover have "flux_free m (view s' (flux_key m mt kd))" by (rule ready_flux_free [OF ready])
  ultimately show "syncable view mod_view tmpl_view n m mt kd s'"
    unfolding syncable_def by - (intro conjI exI [of _ m2] m2(1); assumption)
qed

lemma other_pass:
  assumes rec: "rec_recorder R \<in> {None, Some emit}" and j: "j \<noteq> m_name m" and n: "n = m_name m"
    and kd: "kd \<in> flux_kinds" and run: "Reconcile_module K M R j s = (out, s')"
  shows "syncable view mod_view tmpl_view n m mt kd s' = syncable view mod_view tmpl_view n m mt kd s"
    and "view s' (flux_key m mt kd) = view s (flux_key m mt kd)"
proof -
  show obj: "view s' (flux_key m mt kd) = view s (flux_key m mt kd)"
    by (rule reconcile_module_foot [OF rec run]) (use j in \<open>simp add: flux_key_def\<close>)
  have "mod_view s' n = mod_view s n"
    by (rule reconcile_module_others [OF rec run]) (use j n in simp)
  moreover have "tmpl_view s' = tmpl_view s" by (rule template_frame.pass_rel [OF rec run])
  ultimately show "syncable view mod_view tmpl_view n m mt kd s' = syncable view mod_view tmpl_view n m mt kd s"
    unfolding syncable_def obj by (simp only:)
qed

lemma sweep_reaches:
  assumes rec: "rec_recorder R \<in> {None, Some emit}" and n: "n = m_name m"
    and flux: "desired_flux m mt = Some (kd, sp)" and served: "served kd"
    and s: "syncable view mod_view tmpl_view n m mt kd s"
    and goal: "n \<in> set names \<or> flux_ready K dflt m mt (rec_version R) sp (view s (flux_key m mt kd))"
  shows "flux_ready K dflt m mt (rec_version R) sp (view (module_sweep K M R names s) (flux_key m mt kd))"
  using s goal
proof (induction names arbitrary: s)
  case (Cons j names)
  obtain out s' where run: "Reconcile_module K M R j s = (out, s')" by force
  show ?case
  proof (cases "j = n")
    case True
    note own = own_pass [OF rec Cons.prems(1) flux served run [unfolded True]]
    have "flux_ready K dflt m mt (rec_version R) sp (view (module_sweep K M R names s') (flux_key m mt kd))"
      by (rule Cons.IH [OF own(1) disjI2 [OF own(2)]])
    with run show ?thesis by simp
  next
    case False
    note other = other_pass [OF rec False [unfolded n] n desired_flux_kind [OF flux] run, of mt]
    have "flux_ready K dflt m mt (rec_version R) sp (view (module_sweep K M R names s') (flux_key m mt kd))"
      by (rule Cons.IH) (use other Cons.prems False in auto)
    with run show ?thesis by simp
  qed
qed simp

text \<open>The queue that a changed template fills.\<close>

lemma template_enqueues:
  assumes "mod_view s n = Some m"
  shows "n \<in> set (mapModuleTemplateToModules M (ms_template_ref (m_spec m)) s)"
proof -
  obtain items where "mc_list M s = Inr items" "m \<in> set items" using mod_list assms by blast
  with mod_named [OF assms] show ?thesis by (force simp: mapModuleTemplateToModules_def)
qed

lemma template_sweep:
  assumes rec: "rec_recorder R \<in> {None, Some emit}"
    and mt: "tmpl_view s t = Some mt" and m: "mod_view s n = Some m" "ms_template_ref (m_spec m) = t"
    and live: "deletion_timestamp (m_meta m) = None"
    and flux: "desired_flux m mt = Some (kd, sp)" "served kd"
    and free: "flux_free m (view s (flux_key m mt kd))"
  shows "n \<in> set (mapModuleTemplateToModules M t s)
    \<and> flux_ready K dflt m mt (rec_version R) sp
        (view (module_sweep K M R (mapModuleTemplateToModules M t s) s) (flux_key m mt kd))"
proof -
  have queued: "n \<in> set (mapModuleTemplateToModules M t s)" using template_enqueues [OF m(1)] m(2) by simp
  have "syncable view mod_view tmpl_view n m mt kd s" using mt m live free by (auto simp: syncable_def)
  from sweep_reaches [OF rec mod_named [OF m(1), symmetric] flux this disjI1 [OF queued]] queued
  show ?thesis by blast
qed

end

section \<open>Properties\<close>

text \<open>
  C16: A changed template reaches its Modules. When the watch reports a template, every Module
  that refers to it is enqueued; once the queue has been worked off, without faults, the Flux
  resource of each of them that is live, whose kind is served and whose resource nobody else
  controls, is as the new template asks for it, whatever becomes of the others. This also holds
  of the reconciler without a recorder, whose passes may panic once everything is written.
\<close>

theorem template_change_completes:
  assumes "reliable_module_store K view dflt M mod_view tmpl_view emit served"
    and "rec_recorder R \<in> {None, Some emit}"
    and "tmpl_view s t = Some mt" and "mod_view s n = Some m" and "ms_template_ref (m_spec m) = t"
    and "deletion_timestamp (m_meta m) = None"
    and "desired_flux m mt = Some (kd, sp)" and "served kd"
    and "flux_free m (view s (flux_key m mt kd))"
  shows "n \<in> set (mapModuleTemplateToModules M t s)
    \<and> flux_ready K dflt m mt (rec_version R) sp
        (view (module_sweep K M R (mapModuleTemplateToModules M t s) s) (flux_key m mt kd))"
  by (rule reliable_module_store.template_sweep [OF assms])

definition chart_two :: module_template where
  "chart_two = chart\<lparr> mt_spec := (mt_spec chart)\<lparr> mts_helm_release :=
     Some (chart_spec\<lparr> hr_rest := JObject [(''chart'', JString ''caddy'')] \<rparr>) \<rparr> \<rparr>"

lemma app_fin_flux_free:
  "flux_free app_fin (mem_view all_kinds app_done (HelmReleaseKind, ''apps'', ''app''))"
  using mem_reliable_modules.ready_flux_free [OF app_ready]
  unfolding flux_free_def same_but_finalizers_simps(4) [OF app_fin_same] .

lemma app_fin_simps [simp]:
  "m_name app_fin = ''app''" "m_spec app_fin = m_spec app" "deletion_timestamp (m_meta app_fin) = None"
  "ms_template_ref (m_spec app_fin) = ''chart''" "mem_mod settled_cluster ''app'' = Some app_fin"
  using same_but_finalizers_simps [OF app_fin_same] settled_simps(1)
  by (simp_all add: mem_get_module_def split: option.splits)

theorem template_change_completes_witness:
  "\<exists>s'. flux_ready (mem_kube all_kinds) mem_default app_fin chart_two ''''
     (HelmReleaseSpec (helm_spec_for app_fin (chart_spec\<lparr> hr_rest := JObject [(''chart'', JString ''caddy'')] \<rparr>)))
     (mem_view all_kinds s' (HelmReleaseKind, ''apps'', ''app''))"
proof -
  let ?s = "settled_cluster\<lparr> mem_templates := [chart_two] \<rparr>"
  have mt: "mem_tmpl ?s ''chart'' = Some chart_two" and m: "mem_mod ?s ''app'' = Some app_fin"
    using app_fin_simps(5)
    by (simp_all add: mem_tmpl_def mem_mod_def keyed_def chart_two_def chart_def object_meta_named_def)
  have flux: "desired_flux app_fin chart_two = Some (HelmReleaseKind, HelmReleaseSpec
      (helm_spec_for app_fin (chart_spec\<lparr> hr_rest := JObject [(''chart'', JString ''caddy'')] \<rparr>)))"
    by (simp add: desired_flux_def chart_two_def)
  have key: "flux_key app_fin chart_two HelmReleaseKind = (HelmReleaseKind, ''apps'', ''app'')"
    by (simp add: flux_key_def TargetNamespace_def chart_two_def chart_def app_def)
  have "mem_view all_kinds ?s = mem_view all_kinds app_done"
    by (simp add: settled_cluster_def mem_view_def fun_eq_iff)
  then have free: "flux_free app_fin (mem_view all_kinds ?s (flux_key app_fin chart_two HelmReleaseKind))"
    using app_fin_flux_free key by simp
  from template_change_completes [OF mem_reliable_modules.reliable_module_store_axioms [of all_kinds],
      where R = main_module_reconciler, OF _ mt m _ _ flux _ free]
  show ?thesis by (auto simp: key main_module_reconciler_def)
qed



text \<open>
  C17: Deletion completes as long as Flux is there. A pass over a Module that is being deleted
  and has the finalizer, without faults, looks for one namespace (that of the references in the
  status, else the one the Module or its template names). If the kinds that the status refers to
  are served, or no namespace is found, the pass returns nil, releases the Module (which goes when
  that was its last finalizer) and, where a namespace was found, has deleted the Flux resource of
  each of these kinds with the Module's name there: it is absent, or terminating under finalizers
  of others, for which the operator does not wait. If such a kind is not served any more, every
  pass returns the client's error and leaves the Module as it was.
\<close>

theorem module_deletion_completes:
  assumes "reliable_module_store K view dflt M mod_view tmpl_view emit served"
    and "mod_view s n = Some m" and "deletion_timestamp (m_meta m) \<noteq> None"
    and "has_module_finalizer m" and "Reconcile_module K M R n s = (out, s')"
    and "ns = resolveCleanupNamespace K M m s"
  shows "if ns = '''' \<or> (\<forall>kd \<in> cleanup_kinds m. served kd)
    then out = Returns None \<and> module_released m (mod_view s' n)
      \<and> (ns \<noteq> '''' \<longrightarrow> (\<forall>kd \<in> cleanup_kinds m. gone_or_terminating (view s') (kd, ns, n)))
    else (\<exists>e. out = Returns (Some e)) \<and> mod_view s' = mod_view s"
  using reliable_module_store.deleting_pass [OF assms] by simp

text \<open>The Module of the sample is deleted with Flux in the cluster, and stays without it.\<close>

theorem module_deletion_completes_witness:
  "mem_mod (snd (app_run deleting_cluster)) ''app'' = None
   \<and> mem_mod (snd (Reconcile_module (mem_kube []) mem_mc mem_rec ''app'' deleting_cluster)) ''app''
       = Some app_deleted"
proof -
  have stored: "mem_mod deleting_cluster ''app'' = Some app_deleted"
    using deleting_simps by (simp add: mem_get_module_def split: option.splits)
  have m: "deletion_timestamp (m_meta app_deleted) \<noteq> None" "has_module_finalizer app_deleted"
    "set (meta_finalizers (m_meta app_deleted)) = {ModuleFinalizer}"
    "cleanup_kinds app_deleted = {HelmReleaseKind}"
    by (simp_all add: app_deleted_def app_fin_def has_module_finalizer_def cleanup_kinds_def
        empty_module_status_def)
  have ns: "resolveCleanupNamespace K mem_mc app_deleted deleting_cluster = ''apps''" for K :: "mem kube"
    by (simp add: resolveCleanupNamespace_def app_deleted_def empty_module_status_def Let_def)
  note deletion = module_deletion_completes [OF mem_reliable_modules.reliable_module_store_axioms stored m(1,2)
      prod.collapse [symmetric] refl, unfolded ns m(4)]
  show ?thesis
    using deletion [of all_kinds mem_rec] deletion [of "[]" mem_rec] m(3) stored
    by (simp add: app_run_def module_released_def)
qed

end
