(* ===== verification/Deployment.thy ===== *)
theory Deployment
  imports Operator_Permissions Manager_Main
begin

text \<open>
  The manifests the operator is deployed with (\<open>config/\<close>), as far as the program depends on them:
  the ClusterRole of the manager, the role every authenticated user gets on Workspaces, the rules
  of the two webhooks, and the arguments and environment of the manager's container; and that
  they fit the program.
\<close>

section \<open>Roles\<close>

text \<open>\<open>config/rbac/role.yaml\<close>, generated from the markers with the rules grouped and sorted.\<close>

definition sorted_verbs :: "string list" where
  "sorted_verbs = [''create'', ''delete'', ''get'', ''list'', ''patch'', ''update'', ''watch'']"

definition role_yaml :: "policy_rule list" where
  "role_yaml =
     [marker '''' [''events''] [''create'', ''patch''],
      marker '''' [''limitranges'', ''namespaces'', ''resourcequotas''] sorted_verbs,
      marker ''addons.otterscale.io'' [''modules''] sorted_verbs,
      marker ''addons.otterscale.io'' [''modules/finalizers''] [''update''],
      marker ''addons.otterscale.io'' [''modules/status''] [''get'', ''patch'', ''update''],
      marker ''addons.otterscale.io'' [''moduletemplates''] [''get'', ''list'', ''watch''],
      marker ''apiextensions.k8s.io'' [''customresourcedefinitions''] [''get'', ''list'', ''watch''],
      marker ''helm.toolkit.fluxcd.io'' [''helmreleases''] sorted_verbs,
      marker ''kustomize.toolkit.fluxcd.io'' [''kustomizations''] sorted_verbs,
      marker ''networking.k8s.io'' [''networkpolicies''] sorted_verbs,
      (marker ''rbac.authorization.k8s.io'' [''clusterroles''] [''bind'', ''escalate''])
        \<lparr> pr_names := [''admin'', ''edit'', ''view''] \<rparr>,
      marker ''rbac.authorization.k8s.io'' [''rolebindings''] sorted_verbs,
      marker ''security.istio.io'' [''authorizationpolicies'', ''peerauthentications''] sorted_verbs,
      marker ''tenant.otterscale.io'' [''workspaces''] sorted_verbs,
      marker ''tenant.otterscale.io'' [''workspaces/status''] [''get'', ''patch'', ''update'']]"

text \<open>
  \<open>config/rbac/tenant_workspace_editor_role.yaml\<close>, which \<open>tenant_workspace_binding.yaml\<close> binds to
  the group of all authenticated users.
\<close>

definition workspace_editor_role :: "policy_rule list" where
  "workspace_editor_role =
     [marker ''tenant.otterscale.io'' [''workspaces''] sorted_verbs,
      marker ''tenant.otterscale.io'' [''workspaces/status''] [''get'']]"

section \<open>Webhook rules\<close>

text \<open>The markers in \<open>workspace_webhook.go\<close> and, equally, \<open>config/webhook/manifests.yaml\<close>.\<close>

record webhook_rule =
  wr_operations :: "string list"
  wr_resources :: "string list"

definition mutating_rule :: webhook_rule where
  "mutating_rule = \<lparr> wr_operations = [''CREATE'', ''UPDATE''], wr_resources = [''workspaces''] \<rparr>"

definition validating_rule :: webhook_rule where
  "validating_rule =
     \<lparr> wr_operations = [''CREATE'', ''UPDATE'', ''DELETE''], wr_resources = [''workspaces''] \<rparr>"

definition rule_matches :: "webhook_rule \<Rightarrow> string \<Rightarrow> string \<Rightarrow> bool" where
  "rule_matches r op resource \<longleftrightarrow> op \<in> set (wr_operations r) \<and> resource \<in> set (wr_resources r)"

text \<open>The operation and the resource of a request.\<close>

fun operation_of :: "request \<Rightarrow> string \<times> string" where
  "operation_of (CreateWorkspace u w) = (''CREATE'', ''workspaces'')"
| "operation_of (UpdateWorkspace u w) = (''UPDATE'', ''workspaces'')"
| "operation_of (DeleteWorkspace u n) = (''DELETE'', ''workspaces'')"
| "operation_of (WriteStatus u n st) = (''UPDATE'', ''workspaces/status'')"

definition called :: "webhook_rule \<Rightarrow> request \<Rightarrow> bool" where
  "called rule r = rule_matches rule (fst (operation_of r)) (snd (operation_of r))"

text \<open>
  How the API server handles a request under two rules: the defaulter is called where the
  mutating rule matches, then the CRD's rules are checked, then the validator is called where
  the validating rule matches; with the failure policy \<open>Fail\<close> an error refuses the request.
\<close>

definition mutated :: "webhook_rule \<Rightarrow> request \<Rightarrow> workspace \<Rightarrow> workspace" where
  "mutated rule r w = (if called rule r then snd (Default w) else w)"

definition passes :: "webhook_rule \<Rightarrow> request \<Rightarrow> go_error option \<Rightarrow> bool" where
  "passes rule r e \<longleftrightarrow> called rule r \<longrightarrow> e = None"

fun handled :: "webhook_rule \<Rightarrow> webhook_rule \<Rightarrow> string \<Rightarrow> store \<Rightarrow> request \<Rightarrow> store option" where
  "handled mut val operatorSA S (CreateWorkspace u w) =
     (let r = CreateWorkspace u w; w' = mutated mut r w in
      if S (w_name w) = None \<and> valid_workspace_spec (w_spec w') \<and> passes val r (ValidateCreate w')
      then Some (S(w_name w \<mapsto> w')) else None)"
| "handled mut val operatorSA S (UpdateWorkspace u w) =
     (let r = UpdateWorkspace u w; w' = mutated mut r w in
      case S (w_name w) of
        None \<Rightarrow> None
      | Some old \<Rightarrow>
          if valid_spec_update (w_spec old) (w_spec w')
            \<and> passes val r (ValidateUpdate operatorSA (Inr u) old w')
          then Some (S(w_name w \<mapsto> w')) else None)"
| "handled mut val operatorSA S (DeleteWorkspace u n) =
     (case S n of
        None \<Rightarrow> None
      | Some old \<Rightarrow>
          if passes val (DeleteWorkspace u n) (ValidateDelete operatorSA (Inr u) old)
          then Some (S(n := None)) else None)"
| "handled mut val operatorSA S (WriteStatus u n st) =
     (case S n of None \<Rightarrow> None | Some old \<Rightarrow> Some (S(n \<mapsto> old\<lparr> w_status := st \<rparr>)))"

lemma called_simps [simp]:
  "called mutating_rule (CreateWorkspace u w)" "called mutating_rule (UpdateWorkspace u w)"
  "called validating_rule (CreateWorkspace u w)" "called validating_rule (UpdateWorkspace u w)"
  "called validating_rule (DeleteWorkspace u n)"
  by (simp_all add: called_def rule_matches_def mutating_rule_def validating_rule_def)

text \<open>With the rules of the manifests, this is the relation that the guarantees are about.\<close>

lemma handled_admitted:
  "handled mutating_rule validating_rule operatorSA S r = Some S' \<longleftrightarrow> admitted operatorSA S r S'"
proof (cases r)
  case (CreateWorkspace u w)
  then show ?thesis
    by (auto simp: mutated_def passes_def Default_def ValidateCreate_def elim!: admittedE
        intro!: admitted.create [where w' = "defaultMemberLabels w" for w])
next
  case (UpdateWorkspace u w)
  then show ?thesis
    by (auto simp: Let_def mutated_def passes_def Default_def admitted_update split: option.splits if_splits)
next
  case (DeleteWorkspace u n)
  then show ?thesis by (auto simp: passes_def admitted_delete split: option.splits)
next
  case (WriteStatus u n st)
  then show ?thesis
    by (auto elim!: admittedE intro: admitted.status split: option.splits)
qed

section \<open>The manager's container\<close>

text \<open>
  \<open>config/manager/manager.yaml\<close> with the patches of \<open>config/default\<close>: the metrics patch inserts its
  argument in front, the webhook patch appends one. The environment is filled from the pod.
\<close>

definition deployed_args :: "string list" where
  "deployed_args =
     [''--metrics-bind-address=:8443'', ''--leader-elect'', ''--health-probe-bind-address=:8081'',
      ''--webhook-cert-path=/tmp/k8s-webhook-server/serving-certs'']"

definition pod_env :: "string \<Rightarrow> string \<Rightarrow> string \<Rightarrow> string" where
  "pod_env namespace serviceAccountName name =
     (if name = ''POD_NAMESPACE'' then namespace
      else if name = ''POD_SERVICE_ACCOUNT'' then serviceAccountName else '''')"

text \<open>\<open>config/default/kustomization.yaml\<close>: the namespace, and the prefix of all names.\<close>

definition kustomize_namespace :: string where
  "kustomize_namespace = ''otterscale-system''"

definition kustomize_prefix :: string where
  "kustomize_prefix = ''otterscale-operator-''"

text \<open>The defaults in the code are the names that the manifests deploy.\<close>

lemma identity_defaults_deployed:
  "main_operatorSA (\<lambda>_. '''') =
     main_operatorSA (pod_env kustomize_namespace (kustomize_prefix @ ''controller-manager''))"
  by (simp add: main_operatorSA_def pod_env_def kustomize_namespace_def kustomize_prefix_def cmp_or_def)

definition deployed_flags :: flag_values where
  "deployed_flags = flag_defaults\<lparr> metricsAddr := '':8443'', enableLeaderElection := True,
     webhookCertPath := ''/tmp/k8s-webhook-server/serving-certs'' \<rparr>"

lemma parse_deployed:
  assumes "\<not> redefined extra"
  shows "parse_command_line extra z deployed_args = Inr deployed_flags"
proof -
  let ?F = "all_flags extra"
  let ?f1 = "flag_defaults\<lparr> metricsAddr := '':8443'' \<rparr>"
  let ?f2 = "?f1\<lparr> enableLeaderElection := True \<rparr>"
  define first where "first = [(''metrics-bind-address'', '':8443'')]"
  define others where "others = [(''health-probe-bind-address'', '':8081''),
    (''webhook-cert-path'', ''/tmp/k8s-webhook-server/serving-certs'')]"
  have args: "deployed_args = map setting_text first @ (''--'' @ ''leader-elect'') # map setting_text others"
    by (simp add: deployed_args_def setting_text_def first_def others_def)
  have names: "\<forall>nv \<in> set first. flag_name (fst nv)" "\<forall>nv \<in> set others. flag_name (fst nv)"
    "flag_name ''leader-elect''"
    by (simp_all add: first_def others_def flag_name_def)
  have "apply_settings ?F first (flag_defaults, z) = Some (?f1, z)"
    by (simp add: first_def all_flags_def main_flags_def)
  note step1 = parse_settings [OF this names(1)]
  obtain fl where fl: "?F ''leader-elect'' = Some fl" "flag_is_bool fl" "flag_set fl ''true'' (?f1, z) = Some (?f2, z)"
    by (simp add: all_flags_def main_flags_def parse_bool_def)
  note step2 = parse_setting(4) [where formal = ?F, OF names(3) fl(1,2), of _ "(?f1, z)"]
  have "apply_settings ?F others (?f2, z) = Some (deployed_flags, z)"
    by (simp add: others_def all_flags_def main_flags_def deployed_flags_def flag_defaults_def)
  note step3 = parse_settings [OF this names(2), of "[]"]
  have "parse_flags ?F deployed_args (flag_defaults, z) = Inr ((deployed_flags, z), [])"
    unfolding args step1 step2 set_flag_def fl(3) using step3 by simp
  with assms show ?thesis by (simp add: parse_command_line_def)
qed

section \<open>Properties\<close>

text \<open>A rule that grants everything another one does, and roles compared rule by rule.\<close>

definition covers :: "policy_rule \<Rightarrow> policy_rule \<Rightarrow> bool" where
  "covers r r' \<longleftrightarrow>
     list_all (\<lambda>g. g \<in> set (pr_groups r')) (pr_groups r)
     \<and> list_all (\<lambda>x. x \<in> set (pr_resources r')) (pr_resources r)
     \<and> list_all (\<lambda>v. v \<in> set (pr_verbs r')) (pr_verbs r) \<and> pr_names r = pr_names r'"

lemma allows_covered:
  assumes "list_all (\<lambda>r. list_ex (covers r) role') role" and "allows role grp resource verb name"
  shows "allows role' grp resource verb name"
  using assms unfolding allows_def covers_def list_ex_iff list_all_iff by metis

lemma yaml_covered: "list_all (\<lambda>r. list_ex (covers r) manager_role) role_yaml"
  by code_simp

lemma markers_covered: "list_all (\<lambda>r. list_ex (covers r) role_yaml) manager_role"
  by code_simp

text \<open>
  The deployed role. \<open>config/rbac/role.yaml\<close> grants exactly what the markers of the two
  controllers ask for: no permission is missing from the manifest and none is left over.
\<close>

theorem deployed_role_exact:
  "allows role_yaml = allows manager_role"
  using allows_covered [OF yaml_covered] allows_covered [OF markers_covered] by (intro ext iffI)

text \<open>A request of a user who has nothing but what every authenticated user has.\<close>

fun verb_of :: "request \<Rightarrow> string" where
  "verb_of (CreateWorkspace u w) = ''create''"
| "verb_of (UpdateWorkspace u w) = ''update''"
| "verb_of (DeleteWorkspace u n) = ''delete''"
| "verb_of (WriteStatus u n st) = ''update''"

definition self_service :: "string \<Rightarrow> store \<Rightarrow> request \<Rightarrow> store option" where
  "self_service operatorSA S r =
     (if allows workspace_editor_role ''tenant.otterscale.io'' (snd (operation_of r)) (verb_of r) ''''
      then handled mutating_rule validating_rule operatorSA S r else None)"

text \<open>
  C25: Self-service. In the deployed configuration, a user with no other rights than those of
  every authenticated user can create exactly the valid Workspaces with a new name, can update
  or delete exactly the Workspaces whose stored members list them with the role admin (within
  the rules of the CRD), and can write no status; role, webhook rules, defaulter, CRD rules and
  validator together.
\<close>

theorem self_service_exact:
  assumes "\<not> isPrivileged (issuer r)" and "user_name (issuer r) \<noteq> operatorSA"
  shows "self_service operatorSA S r \<noteq> None \<longleftrightarrow>
    (case r of
       CreateWorkspace u w \<Rightarrow> S (w_name w) = None \<and> valid_workspace_spec (w_spec w)
     | UpdateWorkspace u w \<Rightarrow>
         (case S (w_name w) of None \<Rightarrow> False
          | Some old \<Rightarrow> valid_spec_update (w_spec old) (w_spec w) \<and> isWorkspaceAdmin (user_name u) old)
     | DeleteWorkspace u n \<Rightarrow>
         (case S n of None \<Rightarrow> False | Some old \<Rightarrow> isWorkspaceAdmin (user_name u) old)
     | WriteStatus u n st \<Rightarrow> False)"
proof -
  have guard: "may_modify operatorSA (issuer r) old \<longleftrightarrow> isWorkspaceAdmin (user_name (issuer r)) old" for old
    using assms by (simp add: may_modify_def AuthorizeModification_def)
  show ?thesis
  proof (cases r)
    case (CreateWorkspace u w)
    then show ?thesis
      by (simp add: self_service_def role_defs sorted_verbs_def workspace_editor_role_def mutated_def
          passes_def Default_def ValidateCreate_def Let_def)
  next
    case (UpdateWorkspace u w)
    with guard show ?thesis
      by (simp add: self_service_def role_defs sorted_verbs_def workspace_editor_role_def mutated_def
          passes_def Default_def Let_def split: option.split)
  next
    case (DeleteWorkspace u n)
    with guard show ?thesis
      by (simp add: self_service_def role_defs sorted_verbs_def workspace_editor_role_def passes_def
          split: option.split)
  next
    case (WriteStatus u n st)
    then show ?thesis
      by (simp add: self_service_def role_defs sorted_verbs_def workspace_editor_role_def)
  qed
qed

theorem self_service_exact_witness:
  "self_service ''system:serviceaccount:o:m'' Map.empty (CreateWorkspace bob_user team) \<noteq> None
   \<and> self_service ''system:serviceaccount:o:m'' (Map.empty(''team'' \<mapsto> stored_team))
       (DeleteWorkspace bob_user ''team'') = None"
proof -
  have bob: "\<not> isPrivileged bob_user" "\<not> isWorkspaceAdmin ''bob'' stored_team"
    "user_name bob_user = ''bob''"
    by (simp_all add: isPrivileged_def bob_user_def privilegedGroups_def slices_contains_def
        isWorkspaceAdmin_def MemberRoleAdmin_def)
  then show ?thesis
    using self_service_exact [of "CreateWorkspace bob_user team" "''system:serviceaccount:o:m''" Map.empty]
      self_service_exact [of "DeleteWorkspace bob_user ''team''" "''system:serviceaccount:o:m''"
        "Map.empty(''team'' \<mapsto> stored_team)"] team_valid
    by simp
qed

text \<open>
  C37: The deployed manager. With the arguments and the environment of the manifests the command
  line is accepted, and the manager is configured with leader election, metrics over HTTPS with
  authentication and authorization on port 8443, the webhook's certificates, and HTTP/1.1 only;
  and the webhook exempts the pod's own service account, in whatever namespace it runs.
\<close>

theorem deployed_manager:
  assumes "\<not> redefined extra" and "namespace \<noteq> ''''" and "serviceAccountName \<noteq> ''''"
  shows "\<exists>f. parse_command_line extra z deployed_args = Inr f
    \<and> mgr_leader_election (managerOptions f) \<and> mgr_probe_address (managerOptions f) = '':8081''
    \<and> BindAddress (mgr_metrics (managerOptions f)) = '':8443''
    \<and> SecureServing (mgr_metrics (managerOptions f))
    \<and> WithAuthenticationAndAuthorization (mgr_metrics (managerOptions f))
    \<and> CertDir (mgr_webhook_server (managerOptions f)) = ''/tmp/k8s-webhook-server/serving-certs''
    \<and> NextProtos (apply_tls (TLSOpts (mgr_webhook_server (managerOptions f))) c) = [''http/1.1'']
    \<and> NextProtos (apply_tls (TLSOpts (mgr_metrics (managerOptions f))) c) = [''http/1.1'']
    \<and> main extra z deployed_args (pod_env namespace serviceAccountName) (\<lambda>_. False) =
        ([NewManager, SetupWorkspaceReconciler,
          SetupWorkspaceWebhook (OperatorServiceAccountIdentity namespace serviceAccountName),
          SetupModuleReconciler, AddHealthzCheck, AddReadyzCheck, StartManager], 0)"
  using parse_deployed [OF assms(1), of z] assms(2,3)
  by (intro exI [of _ deployed_flags])
    (simp add: main_def startup_calls_def main_operatorSA_def pod_env_def cmp_or_def managerOptions_def
      webhookServerOptions_def metricsServerOptions_def deployed_flags_def flag_defaults_def tlsOpts_def
      apply_tls_def disableHTTP2_def Let_def)

theorem deployed_manager_witness:
  "snd (main no_extra () deployed_args (pod_env ''otterscale-system'' ''manager'') (\<lambda>_. False)) = 0"
  using deployed_manager [of no_extra "''otterscale-system''" "''manager''" "()" "\<lparr> NextProtos = [], tls_rest = () \<rparr>"]
  by auto

end
