(* ===== verification/Heap_Frame.thy ===== *)
theory Heap_Frame
  imports Workspace_DeepCopy
begin

text \<open>
  Code that works in place: which cells an operation may change, and where in the heap a value
  lies. A value whose cells lie outside of what is changed is seen unchanged, so the effect of a
  sequence of statements is the sum of their effects.
\<close>

section \<open>Operations in sequence\<close>

definition mem_return :: "'a \<Rightarrow> ('c, 'a) mem_op" where
  "mem_return x h = Some (x, h)"

definition mem_bind :: "('c, 'a) mem_op \<Rightarrow> ('a \<Rightarrow> ('c, 'b) mem_op) \<Rightarrow> ('c, 'b) mem_op" where
  "mem_bind f g h = (case f h of None \<Rightarrow> None | Some (x, h') \<Rightarrow> g x h')"

lemma mem_bind_simps [simp]:
  "f h = Some (x, h') \<Longrightarrow> mem_bind f g h = g x h'" "mem_bind (mem_return x) g = g x"
  by (simp_all add: mem_bind_def mem_return_def fun_eq_iff)

lemma mem_bind_assoc: "mem_bind (mem_bind f g) k = mem_bind f (\<lambda>x. mem_bind (g x) k)"
  by (simp add: mem_bind_def fun_eq_iff split: option.split)

section \<open>What is changed\<close>

definition changes_only :: "addr set \<Rightarrow> 'c heap \<Rightarrow> 'c heap \<Rightarrow> bool" where
  "changes_only A h h' \<longleftrightarrow>
     length h \<le> length h' \<and> (\<forall>b < length h. b \<notin> A \<longrightarrow> cell_at h' b = cell_at h b)"

lemma changes_only_refl [simp]: "changes_only A h h"
  by (simp add: changes_only_def)

lemma changes_only_append [simp]: "changes_only A h (h @ e)"
  by (simp add: changes_only_def)

lemma changes_only_update: "a \<in> A \<Longrightarrow> changes_only A h (h[a := c])"
  by (auto simp: changes_only_def cell_at_update)

lemma changes_only_length: "changes_only A h h' \<Longrightarrow> length h \<le> length h'"
  by (simp add: changes_only_def)

lemma changes_only_cell: "changes_only A h h' \<Longrightarrow> b < length h \<Longrightarrow> b \<notin> A \<Longrightarrow> cell_at h' b = cell_at h b"
  by (simp add: changes_only_def)

text \<open>What is changed later in cells that were not there at first does not count.\<close>

lemma changes_only_trans:
  assumes "changes_only A h h1" and "changes_only B h1 h2" and "\<And>b. b \<in> B \<Longrightarrow> b < length h \<Longrightarrow> b \<in> A"
  shows "changes_only A h h2"
  using assms unfolding changes_only_def by (metis order_trans order_less_le_trans)

lemma changes_only_mono: "changes_only A h h' \<Longrightarrow> A \<subseteq> B \<Longrightarrow> changes_only B h h'"
  by (auto simp: changes_only_def)

lemma grows_trans: "changes_only {} h h1 \<Longrightarrow> changes_only {} h1 h2 \<Longrightarrow> changes_only {} h h2"
  by (rule changes_only_trans [where B = "{}"]) simp_all

lemma load_unchanged:
  "changes_only A h h' \<Longrightarrow> a \<notin> A \<Longrightarrow> load proj h a = Some v \<Longrightarrow> load proj h' a = Some v"
  using load_cong [of h' a h proj] by (simp add: changes_only_cell load_bound)

section \<open>Where a value lies\<close>

context deep_copyable
begin

definition placed :: "'c heap \<Rightarrow> nat \<Rightarrow> nat \<Rightarrow> 'v \<Rightarrow> 'a \<Rightarrow> bool" where
  "placed h lo hi v x \<longleftrightarrow> view h v = Some x \<and> set (reach h v) \<subseteq> {lo..<hi}"

lemma view_frame:
  assumes "view h v = Some x" and "changes_only A h h'" and "A \<inter> set (reach h v) = {}"
  shows "view h' v = Some x" and "reach h' v = reach h v"
proof -
  have "cell_at h' a = cell_at h a" if "a \<in> set (reach h v)" for a
    using changes_only_cell [OF assms(2) reach_bound [OF assms(1) that]] assms(3) that by blast
  from view_local [OF assms(1) this] show "view h' v = Some x" "reach h' v = reach h v" by simp_all
qed

lemma placed_frame:
  assumes "placed h lo hi v x" and "changes_only A h h'" and "A \<inter> {lo..<hi} = {}"
  shows "placed h' lo hi v x"
proof -
  have "A \<inter> set (reach h v) = {}" using assms(1,3) by (auto simp: placed_def)
  with assms(1) view_frame [OF _ assms(2) this] show ?thesis by (simp add: placed_def)
qed

lemma placed_append: "placed h lo hi v x \<Longrightarrow> placed (h @ e) lo hi v x"
  by (rule placed_frame [OF _ changes_only_append Int_empty_left])

lemma placed_weaken: "placed h lo hi v x \<Longrightarrow> lo' \<le> lo \<Longrightarrow> hi \<le> hi' \<Longrightarrow> placed h lo' hi' v x"
  by (fastforce simp: placed_def)

lemma placed_later:
  assumes "placed h (length h0) (length h) v x" and "changes_only {} h h'" and "length h1 \<le> length h0"
  shows "placed h' (length h1) (length h') v x"
  using placed_weaken [OF placed_frame [OF assms(1,2)] assms(3) changes_only_length [OF assms(2)]] by simp

text \<open>The same for any set of cells.\<close>

definition lies :: "'c heap \<Rightarrow> addr set \<Rightarrow> 'v \<Rightarrow> 'a \<Rightarrow> bool" where
  "lies h S v x \<longleftrightarrow> view h v = Some x \<and> set (reach h v) \<subseteq> S"

lemma lies_frame:
  assumes "lies h S v x" and "changes_only A h h'" and "A \<inter> S = {}"
  shows "lies h' S v x"
proof -
  have "A \<inter> set (reach h v) = {}" using assms(1,3) by (auto simp: lies_def)
  with assms(1) view_frame [OF _ assms(2) this] show ?thesis by (simp add: lies_def)
qed

lemma lies_mono: "lies h S v x \<Longrightarrow> S \<subseteq> T \<Longrightarrow> lies h T v x"
  by (auto simp: lies_def)

lemma placed_lies: "placed h lo hi v x \<Longrightarrow> lies h {lo..} v x"
  by (auto simp: placed_def lies_def)

lemma lies_placed: "lies h {lo..} v x \<Longrightarrow> placed h lo (length h) v x"
  using reach_bound by (fastforce simp: placed_def lies_def)

lemma copy_placed:
  assumes "view h v = Some x"
  shows "\<exists>v' e. copy v h = Some (v', h @ e) \<and> placed (h @ e) (length h) (length (h @ e)) v' x"
proof -
  obtain v' e where v': "copy v h = Some (v', h @ e)" "view (h @ e) v' = Some x"
    "\<forall>a \<in> set (reach (h @ e) v'). length h \<le> a"
    using copy_ok [OF assms] by (auto simp: fresh_cells_def)
  with reach_bound [OF v'(2)] show ?thesis by (auto simp: placed_def subset_eq)
qed

end

section \<open>References\<close>

interpretation ref_ptr: deep_copyable view_reference reach_reference copy_reference
  by (intro copy_rules) simp_all

abbreviation view_references :: "'x cell heap \<Rightarrow> slice \<Rightarrow> resource_reference list option" where
  "view_references \<equiv> view_slice as_ReferenceArray view_flat"

abbreviation reach_references :: "'x cell heap \<Rightarrow> slice \<Rightarrow> addr list" where
  "reach_references \<equiv> reach_slice as_ReferenceArray reach_flat"

interpretation ref_slice: deep_copyable view_references reach_references
  "copy_slice as_ReferenceArray ReferenceArray copy_flat"
  by (intro copy_rules) simp_all

text \<open>\<open>&ResourceReference{...}\<close>, and \<open>append\<close> to a slice without spare capacity.\<close>

definition new_reference :: "string \<Rightarrow> string \<Rightarrow> ('x cell, addr option) mem_op" where
  "new_reference name namespace =
     mem_bind (alloc (ReferenceCell \<lparr> rr_name = name, rr_namespace = namespace \<rparr>)) (\<lambda>a. mem_return (Some a))"

definition append_reference :: "slice \<Rightarrow> resource_reference \<Rightarrow> ('x cell, slice) mem_op" where
  "append_reference sl r h =
     (case elements as_ReferenceArray h sl of
        None \<Rightarrow> None
      | Some rs \<Rightarrow>
          mem_bind (alloc (ReferenceArray (rs @ [r]))) (\<lambda>a. mem_return (Slice a 0 (length rs + 1))) h)"

lemma view_list_flat [simp]: "view_list view_flat h vs = Some vs"
  by (induction vs) (simp_all add: view_flat_def)

lemma reach_list_flat [simp]: "reach_list reach_flat h vs = []"
  by (simp add: reach_list_def reach_flat_def)

lemma load_new [simp]: "load proj (h @ [c]) (length h) = proj c"
  by (simp add: load_def)

lemma view_ptr_nil: "view_ptr proj view h p = Some y \<Longrightarrow> y = None \<longleftrightarrow> p = None"
  by (auto simp: view_ptr_def split: option.splits)

lemma nil_slice [simp]: "view_slice proj view h NilSlice = Some []" "reach_slice proj reach h NilSlice = []"
  by (simp_all add: view_slice_def reach_slice_def elements_def)

text \<open>An operation that only allocates, with what is known of its result.\<close>

definition builds :: "('c, 'a) mem_op \<Rightarrow> 'c heap \<Rightarrow> ('c heap \<Rightarrow> 'a \<Rightarrow> bool) \<Rightarrow> bool" where
  "builds f h P \<longleftrightarrow> (\<exists>x h'. f h = Some (x, h') \<and> changes_only {} h h' \<and> P h' x)"

lemma buildsE:
  assumes "builds f h P"
  obtains x h' where "f h = Some (x, h')" "changes_only {} h h'" "P h' x"
  using assms by (auto simp: builds_def)

lemma builds_return: "P h x \<Longrightarrow> builds (mem_return x) h P"
  by (simp add: builds_def mem_return_def)

lemma builds_bind:
  assumes "builds f h Q" and "\<And>x h'. changes_only {} h h' \<Longrightarrow> Q h' x \<Longrightarrow> builds (g x) h' P"
  shows "builds (mem_bind f g) h P"
proof -
  obtain x h1 where 1: "f h = Some (x, h1)" "changes_only {} h h1" "Q h1 x"
    using assms(1) by (rule buildsE)
  obtain y h2 where "g x h1 = Some (y, h2)" "changes_only {} h1 h2" "P h2 y"
    using assms(2) [OF 1(2,3)] by (rule buildsE)
  with 1 changes_only_trans [OF 1(2), of "{}" h2] show ?thesis by (auto simp: builds_def)
qed

lemma new_reference_builds:
  "builds (new_reference name namespace) h (\<lambda>h' p. ref_ptr.placed h' (length h) (length h') p
     (Some \<lparr> rr_name = name, rr_namespace = namespace \<rparr>))"
  by (auto simp: builds_def new_reference_def mem_bind_def alloc_def mem_return_def ref_ptr.placed_def
      view_ptr_def reach_ptr_def view_flat_def reach_flat_def)

lemma no_reference_placed: "ref_ptr.placed h lo hi None None"
  by (simp add: ref_ptr.placed_def view_ptr_def reach_ptr_def)

lemma no_references_placed: "ref_slice.placed h lo hi NilSlice []"
  by (simp add: ref_slice.placed_def)

lemma append_reference_builds:
  assumes "ref_slice.placed h lo (length h) sl rs" and "lo \<le> length h"
  shows "builds (append_reference sl r) h (\<lambda>h' sl'. ref_slice.placed h' lo (length h') sl' (rs @ [r]))"
  using assms
  by (auto simp: builds_def append_reference_def mem_bind_def alloc_def mem_return_def
      ref_slice.placed_def view_slice_def reach_slice_def elements_def split: option.splits)

end
