(* ===== verification/Object_Memory.thy ===== *)
theory Object_Memory
  imports Heap_Frame DeepCopy_Properties Reconciler
begin

text \<open>
  What the status functions of both controllers do to memory: library functions that change a
  slice of conditions in place, an object in one cell whose status is a field of the struct, the
  copy that a patch is made from, and the two ways the controllers change the status, by storing
  a new one that was built aside and by changing the conditions where they are.
\<close>

section \<open>Conditions\<close>

text \<open>
  Functions of other modules on structs of theirs: name and generation of a metadata struct,
  \<open>meta.SetStatusCondition\<close> and \<open>slices.SortFunc\<close> (by type) on a slice of conditions. Both
  functions on slices may write to the array of the slice they are given, and to nothing else
  that exists.
\<close>

record 'x condition_methods =
  name_of :: "'x \<Rightarrow> string"
  generation_of :: "'x \<Rightarrow> int"
  set_condition :: "condition \<Rightarrow> slice \<Rightarrow> ('x cell, slice) mem_op"
  sort_by_type :: "slice \<Rightarrow> ('x cell, slice) mem_op"

abbreviation view_conditions :: "'x imported_views \<Rightarrow> 'x cell heap \<Rightarrow> slice \<Rightarrow> condition list option" where
  "view_conditions V \<equiv> view_slice as_ImportedArray (view_Condition V)"

abbreviation reach_conditions :: "'x imported_views \<Rightarrow> 'x cell heap \<Rightarrow> slice \<Rightarrow> addr list" where
  "reach_conditions V \<equiv> reach_slice as_ImportedArray (imported_reach V)"

definition in_place ::
  "'x imported_views \<Rightarrow> (slice \<Rightarrow> ('x cell, slice) mem_op) \<Rightarrow> 'x cell heap \<Rightarrow> slice \<Rightarrow> condition list \<Rightarrow> bool" where
  "in_place V f h sl cs \<longleftrightarrow>
     (\<exists>sl' h'. f sl h = Some (sl', h') \<and> view_conditions V h' sl' = Some cs
        \<and> changes_only (set (reach_conditions V h sl)) h h'
        \<and> set (reach_conditions V h' sl') \<subseteq> set (reach_conditions V h sl) \<union> {length h..})"

lemma in_place_bind:
  assumes "in_place V f h sl cs"
    and "\<And>h' sl'. view_conditions V h' sl' = Some cs \<Longrightarrow> in_place V g h' sl' cs'"
  shows "in_place V (\<lambda>sl. mem_bind (f sl) g) h sl cs'"
proof -
  let ?R = "\<lambda>h sl. set (reach_conditions V h sl)"
  obtain sl1 h1 where 1: "f sl h = Some (sl1, h1)" "view_conditions V h1 sl1 = Some cs"
    "changes_only (?R h sl) h h1" "?R h1 sl1 \<subseteq> ?R h sl \<union> {length h..}"
    using assms(1) by (auto simp: in_place_def)
  obtain sl2 h2 where 2: "g sl1 h1 = Some (sl2, h2)" "view_conditions V h2 sl2 = Some cs'"
    "changes_only (?R h1 sl1) h1 h2" "?R h2 sl2 \<subseteq> ?R h1 sl1 \<union> {length h1..}"
    using assms(2) [OF 1(2)] by (auto simp: in_place_def)
  have "changes_only (?R h sl) h h2"
    by (rule changes_only_trans [OF 1(3) 2(3)]) (use 1(4) in auto)
  moreover have "?R h2 sl2 \<subseteq> ?R h sl \<union> {length h..}"
    using 1(4) 2(4) changes_only_length [OF 1(3)] by fastforce
  ultimately show ?thesis unfolding in_place_def using 1(1) 2(1,2) by (intro exI [of _ sl2] exI [of _ h2]) simp
qed

locale condition_memory = imported_types X V + condition_api K
  for X :: "'x imported_methods" and V :: "'x imported_views" and K :: "'s kube" +
  fixes F :: "'x condition_methods"
  assumes object_name: "view_ObjectMeta V h om = Some m \<Longrightarrow> name_of F om = meta_name m"
    and generation: "view_ObjectMeta V h om = Some m \<Longrightarrow> generation_of F om = meta_generation m"
    and set_in_place:
      "view_conditions V h sl = Some cs \<Longrightarrow> in_place V (set_condition F c) h sl (k_set_status_condition K c cs)"
    and sort_in_place:
      "view_conditions V h sl = Some cs \<Longrightarrow> distinct (map cond_type cs) \<Longrightarrow>
         in_place V (sort_by_type F) h sl (sort_conditions cs)"
begin

lemma set_sort_in_place:
  assumes "view_conditions V h sl = Some cs" and "distinct (map cond_type cs)"
  shows "in_place V (\<lambda>sl. mem_bind (set_condition F c sl) (sort_by_type F)) h sl
    (sort_conditions (k_set_status_condition K c cs))"
  by (rule in_place_bind [OF set_in_place [OF assms(1)]])
    (rule sort_in_place, assumption, rule set_status_condition_distinct [OF assms(2)])

end

sublocale imported_types \<subseteq> conditions_copy: deep_copyable "view_conditions V" "reach_conditions V"
  "copy_slice as_ImportedArray ImportedArray (copy_Condition X)"
  by (intro copy_rules Condition) simp

section \<open>Objects\<close>

text \<open>
  An object is a struct in a cell of its own: what is seen of the cell, whether its parts share a
  cell, and the store to its status.
\<close>

definition seen_at ::
  "('x cell \<Rightarrow> 'v option) \<Rightarrow> ('x cell heap \<Rightarrow> 'v \<Rightarrow> 'o option) \<Rightarrow> 'x cell heap \<Rightarrow> addr \<Rightarrow> 'o option" where
  "seen_at proj view h a = (case load proj h a of None \<Rightarrow> None | Some v \<Rightarrow> view h v)"

definition unshared ::
  "('x cell \<Rightarrow> 'v option) \<Rightarrow> ('x cell heap \<Rightarrow> 'v \<Rightarrow> addr list) \<Rightarrow> 'x cell heap \<Rightarrow> addr \<Rightarrow> bool" where
  "unshared proj reach h a \<longleftrightarrow>
     (case load proj h a of None \<Rightarrow> False | Some v \<Rightarrow> distinct (a # reach h v))"

definition cells_of ::
  "('x cell \<Rightarrow> 'v option) \<Rightarrow> ('x cell heap \<Rightarrow> 'v \<Rightarrow> addr list) \<Rightarrow> 'x cell heap \<Rightarrow> addr \<Rightarrow> addr set" where
  "cells_of proj reach h a = insert a (case load proj h a of None \<Rightarrow> {} | Some v \<Rightarrow> set (reach h v))"

definition store_field ::
  "('x cell \<Rightarrow> 'v option) \<Rightarrow> ('v \<Rightarrow> 'x cell) \<Rightarrow> ('v \<Rightarrow> 'v) \<Rightarrow> addr \<Rightarrow> ('x cell, unit) mem_op" where
  "store_field proj mk upd a h =
     (case load proj h a of None \<Rightarrow> None | Some v \<Rightarrow> Some ((), h[a := mk (upd v)]))"

lemma seen_at_iff: "seen_at proj view h a = Some x \<longleftrightarrow> (\<exists>v. load proj h a = Some v \<and> view h v = Some x)"
  by (auto simp: seen_at_def split: option.splits)

lemma seen_at_ptr: "seen_at proj view h a = Some x \<longleftrightarrow> view_ptr proj view h (Some a) = Some (Some x)"
  by (auto simp: seen_at_def view_ptr_def split: option.splits)

text \<open>An operation on the copy of an object; a nil pointer is dereferenced and panics.\<close>

definition on_copy ::
  "('x cell, addr option) mem_op \<Rightarrow> (addr \<Rightarrow> ('x cell, 'a) mem_op) \<Rightarrow> ('x cell, 'a) mem_op" where
  "on_copy copy f = mem_bind copy (\<lambda>p. case p of None \<Rightarrow> (\<lambda>h. None) | Some b \<Rightarrow> f b)"

text \<open>Objects with a status of their own type.\<close>

locale status_object = obj: deep_copyable view reach copy + status: deep_copyable view_st reach_st copy_st
  for view :: "'x cell heap \<Rightarrow> 'v \<Rightarrow> 'o option" and reach and copy
    and view_st :: "'x cell heap \<Rightarrow> 'w \<Rightarrow> 'a option" and reach_st and copy_st +
  fixes proj :: "'x cell \<Rightarrow> 'v option"
    and mk :: "'v \<Rightarrow> 'x cell"
    and put_st :: "'w \<Rightarrow> 'v \<Rightarrow> 'v"
    and with_st :: "'a \<Rightarrow> 'o \<Rightarrow> 'o"
  assumes proj_mk: "proj (mk v) = Some v"
    and view_put: "view h v = Some x \<Longrightarrow> view_st h st = Some s \<Longrightarrow> view h (put_st st v) = Some (with_st s x)"
begin

lemma load_stored: "a < length h \<Longrightarrow> load proj (h[a := mk v]) a = Some v"
  by (simp add: load_def cell_at_update proj_mk)

text \<open>The copy stays what the object was, whatever is written elsewhere.\<close>

lemma base_copy:
  assumes "load proj h a = Some v" and "view h v = Some x"
  obtains b e where "copy_ptr proj mk copy (Some a) h = Some (Some b, h @ e)"
    and "\<And>A h'. changes_only A (h @ e) h' \<Longrightarrow> A \<inter> {length h..<length (h @ e)} = {} \<Longrightarrow>
      seen_at proj view h' b = Some x"
proof -
  have ptr: "deep_copyable (view_ptr proj view) (reach_ptr proj reach) (copy_ptr proj mk copy)"
    by (rule deep_copyable_ptr) (unfold_locales, rule proj_mk)
  have "view_ptr proj view h (Some a) = Some (Some x)" using assms by (simp add: view_ptr_def)
  from deep_copyable.copy_placed [OF ptr this] obtain p e where
    p: "copy_ptr proj mk copy (Some a) h = Some (p, h @ e)"
      "deep_copyable.placed (view_ptr proj view) (reach_ptr proj reach) (h @ e) (length h) (length (h @ e)) p (Some x)"
    by blast
  then obtain b where b: "p = Some b"
    by (cases p) (simp_all add: deep_copyable.placed_def [OF ptr] view_ptr_def)
  have "seen_at proj view h' b = Some x"
    if "changes_only A (h @ e) h'" "A \<inter> {length h..<length (h @ e)} = {}" for A h'
    using deep_copyable.placed_frame [OF ptr p(2) that]
    by (simp add: seen_at_ptr deep_copyable.placed_def [OF ptr] b)
  with p(1) that show thesis unfolding b by blast
qed

text \<open>
  What the client hands out is a deep copy of the object in its cache: the parts of the copy share
  no cell, even when those of the object in the cache do, and no cell of it was there before.
\<close>

lemma copy_unshared:
  assumes "load proj h c = Some v" and "view h v = Some x"
  obtains b e v' where "copy_ptr proj mk copy (Some c) h = Some (Some b, h @ e)"
    and "load proj (h @ e) b = Some v'" "view (h @ e) v' = Some x"
    and "fresh_cells (length h) (b # reach (h @ e) v')"
proof -
  have ptr: "deep_copyable (view_ptr proj view) (reach_ptr proj reach) (copy_ptr proj mk copy)"
    by (rule deep_copyable_ptr) (unfold_locales, rule proj_mk)
  have "view_ptr proj view h (Some c) = Some (Some x)" using assms by (simp add: view_ptr_def)
  from deep_copyable.copy_ok [OF ptr this] obtain p e where
    p: "copy_ptr proj mk copy (Some c) h = Some (p, h @ e)" "view_ptr proj view (h @ e) p = Some (Some x)"
      "fresh_cells (length h) (reach_ptr proj reach (h @ e) p)"
    by blast
  from p(2) obtain b v' where "p = Some b" "load proj (h @ e) b = Some v'" "view (h @ e) v' = Some x"
    by (auto simp: view_ptr_def split: option.splits)
  with p(1,3) that show thesis by (simp add: reach_ptr_def)
qed

text \<open>So an operation that keeps to the cells of its object leaves all that was there alone.\<close>

lemma on_copy_builds:
  assumes v: "load proj h c = Some v" "view h v = Some x"
    and f: "\<And>b e v'. load proj (h @ e) b = Some v' \<Longrightarrow> view (h @ e) v' = Some x \<Longrightarrow>
      distinct (b # reach (h @ e) v') \<Longrightarrow>
      \<exists>y h'. f b (h @ e) = Some (y, h') \<and> changes_only (insert b (set (reach (h @ e) v'))) (h @ e) h'"
  shows "builds (on_copy (copy_ptr proj mk copy (Some c)) f) h (\<lambda>h' y. seen_at proj view h' c = Some x)"
proof -
  obtain b e v' where copy: "copy_ptr proj mk copy (Some c) h = Some (Some b, h @ e)"
    and v': "load proj (h @ e) b = Some v'" "view (h @ e) v' = Some x"
    and new: "fresh_cells (length h) (b # reach (h @ e) v')"
    using copy_unshared [OF v] .
  have "distinct (b # reach (h @ e) v')" using new by (simp only: fresh_cells_def)
  from f [OF v' this] obtain y h' where run: "f b (h @ e) = Some (y, h')"
    "changes_only (insert b (set (reach (h @ e) v'))) (h @ e) h'"
    by blast
  have grown: "changes_only {} h h'"
    by (rule changes_only_trans [OF changes_only_append run(2)]) (use new in \<open>force simp: fresh_cells_def\<close>)
  have "seen_at proj view h' c = Some x"
    using load_unchanged [OF grown _ v(1)] obj.view_frame(1) [OF v(2) grown] by (simp add: seen_at_iff)
  with copy run(1) grown show ?thesis by (simp add: builds_def on_copy_def)
qed

text \<open>A new status, built in cells of its own, is stored after the copy has been made.\<close>

lemma store_status:
  assumes v: "load proj h a = Some v" "view h v = Some x" and a: "a \<notin> set (reach h v)"
    and grown: "changes_only {} h h1" and st: "status.placed h1 (length h) (length h1) st s"
  obtains b h2 h3 where "copy_ptr proj mk copy (Some a) h1 = Some (Some b, h2)"
    and "store_field proj mk (put_st st) a h2 = Some ((), h3)" "changes_only {a} h h3"
    and "seen_at proj view h3 b = Some x" "seen_at proj view h3 a = Some (with_st s x)"
proof -
  have old: "a < length h" "length h \<le> length h1"
    using load_bound [OF v(1)] changes_only_length [OF grown] by simp_all
  have v1: "load proj h1 a = Some v" "view h1 v = Some x" "reach h1 v = reach h v"
    using load_unchanged [OF grown _ v(1)] obj.view_frame [OF v(2) grown] by simp_all
  obtain b e where copy: "copy_ptr proj mk copy (Some a) h1 = Some (Some b, h1 @ e)"
    and base: "\<And>A h'. changes_only A (h1 @ e) h' \<Longrightarrow> A \<inter> {length h1..<length (h1 @ e)} = {} \<Longrightarrow>
      seen_at proj view h' b = Some x"
    using base_copy [OF v1(1,2)] by metis
  let ?h3 = "(h1 @ e)[a := mk (put_st st v)]"
  have "load proj (h1 @ e) a = Some v"
    by (rule load_unchanged [where A = "{}", OF changes_only_append _ v1(1)]) simp
  then have store: "store_field proj mk (put_st st) a (h1 @ e) = Some ((), ?h3)"
    by (simp add: store_field_def)
  have ch: "changes_only {a} (h1 @ e) ?h3" by (rule changes_only_update) simp
  have h3: "changes_only {a} h1 ?h3" by (rule changes_only_trans [OF changes_only_append ch])
  have "view ?h3 v = Some x" by (rule obj.view_frame(1) [OF v1(2) h3]) (use a v1(3) in simp)
  moreover have "view_st ?h3 st = Some s"
    using status.placed_frame [OF st h3] old by (simp add: status.placed_def)
  ultimately have "seen_at proj view ?h3 a = Some (with_st s x)"
    using load_stored [of a "h1 @ e"] old view_put by (simp add: seen_at_iff)
  moreover have "seen_at proj view ?h3 b = Some x" by (rule base [OF ch]) (use old in simp)
  moreover have "changes_only {a} h ?h3"
    by (rule changes_only_trans [OF changes_only_mono [OF grown empty_subsetI] h3])
  ultimately show thesis using that copy store by blast
qed

end

text \<open>
  Objects with conditions: \<open>bare\<close> is the struct without them, \<open>emptied\<close> what is seen of it;
  \<open>put_conds\<close> and \<open>with_conds\<close> set conditions and observed generation.
\<close>

locale conditions_object = status_object view reach copy view_st reach_st copy_st proj mk put_st with_st
    + imported_types X V
  for view :: "'x cell heap \<Rightarrow> 'v \<Rightarrow> 'o option" and reach and copy
    and view_st :: "'x cell heap \<Rightarrow> 'w \<Rightarrow> 'a option" and reach_st and copy_st
    and proj and mk and put_st and with_st
    and X :: "'x imported_methods" and V :: "'x imported_views" +
  fixes conds :: "'v \<Rightarrow> slice"
    and bare :: "'v \<Rightarrow> 'v"
    and put_conds :: "slice \<Rightarrow> int \<Rightarrow> 'v \<Rightarrow> 'v"
    and emptied :: "'o \<Rightarrow> 'o"
    and with_conds :: "condition list \<Rightarrow> int \<Rightarrow> 'o \<Rightarrow> 'o"
  assumes reach_conds: "reach h v = reach h (bare v) @ reach_conditions V h (conds v)"
    and view_bare: "view h v = Some x \<Longrightarrow> view h (bare v) = Some (emptied x)"
    and view_put_conds:
      "view h (bare v) = Some (emptied x) \<Longrightarrow> view_conditions V h sl = Some cs \<Longrightarrow>
         view h (put_conds sl g v) = Some (with_conds cs g x)"
begin

text \<open>
  Changing the conditions and the observed generation where they are: possible without harm to
  the rest, since an object whose parts share no cell has the conditions for itself.
\<close>

lemma conditions_in_place:
  assumes v: "load proj h a = Some v" "view h v = Some x" and tree: "distinct (a # reach h v)"
    and f: "in_place V f h (conds v) cs"
  obtains sl h1 h2 where "f (conds v) h = Some (sl, h1)"
    and "store_field proj mk (put_conds sl g) a h1 = Some ((), h2)"
    and "changes_only (insert a (set (reach h v))) h h2"
    and "seen_at proj view h2 a = Some (with_conds cs g x)"
proof -
  define A where "A = set (reach_conditions V h (conds v))"
  define rest where "rest = reach h (bare v)"
  obtain sl h1 where run: "f (conds v) h = Some (sl, h1)" "changes_only A h h1"
    and sl: "view_conditions V h1 sl = Some cs" "set (reach_conditions V h1 sl) \<subseteq> A \<union> {length h..}"
    using f by (auto simp: in_place_def A_def)
  let ?h2 = "h1[a := mk (put_conds sl g v)]"
  have old: "a < length h" "length h \<le> length h1"
    using load_bound [OF v(1)] changes_only_length [OF run(2)] by simp_all
  have "reach h v = rest @ reach_conditions V h (conds v)" unfolding rest_def by (rule reach_conds)
  then have A: "A \<inter> insert a (set rest) = {}" "A \<subseteq> set (reach h v)" "a \<notin> set rest"
    using tree by (auto simp: A_def)
  have h2: "changes_only (insert a A) h ?h2"
    by (rule changes_only_trans [OF changes_only_mono [OF run(2) subset_insertI] changes_only_update]) blast+
  have "view ?h2 (bare v) = Some (emptied x)"
    by (rule obj.view_frame(1) [OF view_bare [OF v(2)] h2]) (use A(1,3) in \<open>auto simp: rest_def\<close>)
  moreover have "view_conditions V ?h2 sl = Some cs"
    by (rule conditions_copy.view_frame(1) [OF sl(1) changes_only_update [OF insertI1]])
      (use sl(2) A(1) old in fastforce)
  ultimately have "seen_at proj view ?h2 a = Some (with_conds cs g x)"
    using load_stored [of a h1 "put_conds sl g v"] old view_put_conds by (simp add: seen_at_iff)
  moreover have "load proj h1 a = Some v" by (rule load_unchanged [OF run(2) _ v(1)]) (use A(1) in blast)
  moreover have "changes_only (insert a (set (reach h v))) h ?h2"
    by (rule changes_only_mono [OF h2]) (use A(2) in blast)
  ultimately show thesis using that [OF run(1)] by (simp add: store_field_def)
qed

text \<open>The copy for the patch first, then the change in place.\<close>

lemma copy_then_change:
  assumes v: "load proj h a = Some v" "view h v = Some x" and tree: "distinct (a # reach h v)"
    and f: "\<And>h'. view_conditions V h' (conds v) = view_conditions V h (conds v) \<Longrightarrow>
      in_place V f h' (conds v) cs"
    and cs0: "view_conditions V h (conds v) = Some cs0"
  obtains b h1 sl h2 h3 where "copy_ptr proj mk copy (Some a) h = Some (Some b, h1)"
    and "load proj h1 a = Some v" "f (conds v) h1 = Some (sl, h2)"
    and "store_field proj mk (put_conds sl g) a h2 = Some ((), h3)"
    and "changes_only (insert a (set (reach h v))) h h3"
    and "seen_at proj view h3 b = Some x" "seen_at proj view h3 a = Some (with_conds cs g x)"
proof -
  let ?A = "insert a (set (reach h v))"
  obtain b e where copy: "copy_ptr proj mk copy (Some a) h = Some (Some b, h @ e)"
    and base: "\<And>A h'. changes_only A (h @ e) h' \<Longrightarrow> A \<inter> {length h..<length (h @ e)} = {} \<Longrightarrow>
      seen_at proj view h' b = Some x"
    using base_copy [OF v] by metis
  note view = obj.view_append [OF v(2), of e]
  have v1: "load proj (h @ e) a = Some v"
    by (rule load_unchanged [where A = "{}", OF changes_only_append _ v(1)]) simp
  have f1: "in_place V f (h @ e) (conds v) cs"
    by (rule f) (simp only: cs0 conditions_copy.view_append(1) [OF cs0])
  obtain sl h2 h3 where run: "f (conds v) (h @ e) = Some (sl, h2)"
      "store_field proj mk (put_conds sl g) a h2 = Some ((), h3)" "changes_only ?A (h @ e) h3"
      "seen_at proj view h3 a = Some (with_conds cs g x)"
    using conditions_in_place [OF v1 view(1) _ f1] tree view(2) by metis
  have "?A \<inter> {length h..<length (h @ e)} = {}"
    using load_bound [OF v(1)] obj.reach_bound [OF v(2)] by fastforce
  with base [OF run(3)] have "seen_at proj view h3 b = Some x" .
  moreover have "changes_only ?A h h3" by (rule changes_only_trans [OF changes_only_append run(3)])
  ultimately show thesis using that copy v1 run by blast
qed

end

end
