(* ===== verification/Status_Memory.thy ===== *)
theory Status_Memory
  imports Object_Memory Workspace_Controller
begin

text \<open>
  The status functions of the Workspace controller over memory. The controllers change the object
  they hold in place and give the client a patch made from a copy taken before; which part of the
  status is a copy, which cell is written, and in which order, decides what the patch says. Here
  \<open>updateStatus\<close> and \<open>setReadyConditionFalse\<close> are written over the heap, statement for statement,
  and shown to give the client the objects that \<open>Workspace_Controller\<close> computes with, and to
  write to no cell but the object's own.
\<close>

section \<open>The functions of the controller\<close>

text \<open>
  A Workspace lies in one cell; \<open>w.Status = ...\<close> stores to a field of it. \<open>newStatus\<close> is a pointer
  to a copy that nothing else refers to until its value is stored, so it is kept as a value.
  \<open>deep_equal\<close> is \<open>equality.Semantic.DeepEqual\<close> on two statuses.
\<close>

definition store_status :: "addr \<Rightarrow> go_workspace_status \<Rightarrow> ('x cell, unit) mem_op" where
  "store_status a st = store_field as_WorkspaceCell WorkspaceCell (\<lambda>w. w\<lparr> gw_status := st \<rparr>) a"

text \<open>The two fields that \<open>setReadyConditionFalse\<close> changes where they are.\<close>

definition put_conditions :: "slice \<Rightarrow> int \<Rightarrow> 'x go_workspace \<Rightarrow> 'x go_workspace" where
  "put_conditions sl g v =
     v\<lparr> gw_status := (gw_status v)\<lparr> gst_conditions := sl, gst_observed_generation := g \<rparr> \<rparr>"

definition reference_if :: "bool \<Rightarrow> string \<Rightarrow> string \<Rightarrow> ('x cell, addr option) mem_op" where
  "reference_if b name namespace = (if b then new_reference name namespace else mem_return None)"

fun role_references ::
  "string \<Rightarrow> (member_role \<Rightarrow> bool) \<Rightarrow> member_role list \<Rightarrow> slice \<Rightarrow> ('x cell, slice) mem_op" where
  "role_references namespace rolesInUse [] refs = mem_return refs"
| "role_references namespace rolesInUse (role # roles) refs =
     (if rolesInUse role
      then mem_bind
        (append_reference refs \<lparr> rr_name = RoleBindingName @ ''-'' @ role, rr_namespace = namespace \<rparr>)
        (role_references namespace rolesInUse roles)
      else role_references namespace rolesInUse roles refs)"

text \<open>The loop that fills the map \<open>rolesInUse\<close> reads the members.\<close>

definition roles_in_use :: "slice \<Rightarrow> ('x cell, member_role \<Rightarrow> bool) mem_op" where
  "roles_in_use members h =
     (case elements as_MemberArray h members of
        None \<Rightarrow> None
      | Some ms \<Rightarrow> Some (fold (\<lambda>m f. f(gwm_role m := True)) ms (\<lambda>_. False), h))"

text \<open>The references in the status, assigned to its fields.\<close>

definition status_references ::
  "bool \<Rightarrow> 'x go_workspace \<Rightarrow> go_workspace_status \<Rightarrow> ('x cell, go_workspace_status) mem_op" where
  "status_references istioEnabled w st =
     (let namespace = gws_namespace (gw_spec w);
          isolated = gni_enabled (gws_network_isolation (gw_spec w)) in
      mem_bind (new_reference namespace '''') (\<lambda>namespaceRef.
      mem_bind (roles_in_use (gws_members (gw_spec w))) (\<lambda>rolesInUse.
      mem_bind (role_references namespace rolesInUse orderedRoles NilSlice) (\<lambda>roleBindingRefs.
      mem_bind (reference_if (gws_resource_quota (gw_spec w) \<noteq> None) ResourceQuotaName namespace) (\<lambda>quotaRef.
      mem_bind (reference_if (gws_limit_range (gw_spec w) \<noteq> None) LimitRangeName namespace) (\<lambda>limitRef.
      mem_bind (reference_if (isolated \<and> istioEnabled) PeerAuthenticationName namespace) (\<lambda>peerRef.
      mem_bind (reference_if (isolated \<and> istioEnabled) AuthorizationPolicyName namespace) (\<lambda>authRef.
      mem_bind (reference_if (isolated \<and> \<not> istioEnabled) NetworkPolicyName namespace) (\<lambda>policyRef.
      mem_return (st\<lparr> gst_namespace_ref := namespaceRef, gst_resource_quota_ref := quotaRef,
        gst_limit_range_ref := limitRef, gst_role_binding_refs := roleBindingRefs,
        gst_peer_authentication_ref := peerRef, gst_authorization_policy_ref := authRef,
        gst_network_policy_ref := policyRef \<rparr>))))))))))"

definition new_status ::
  "'x imported_methods \<Rightarrow> 'x condition_methods \<Rightarrow> bool \<Rightarrow> 'x go_workspace \<Rightarrow> ('x cell, go_workspace_status) mem_op" where
  "new_status X F istioEnabled w =
     mem_bind (DeepCopyInto_WorkspaceStatus X (gw_status w)) (\<lambda>newStatus.
     mem_bind (status_references istioEnabled w
         (newStatus\<lparr> gst_observed_generation := generation_of F (gw_meta w) \<rparr>)) (\<lambda>newStatus.
     mem_bind (set_condition F
         (ready_condition ConditionTrue ''Reconciled'' ''Workspace resources are successfully reconciled''
            (generation_of F (gw_meta w))) (gst_conditions newStatus)) (\<lambda>conditions.
     mem_bind (sort_by_type F conditions) (\<lambda>conditions.
     mem_return (newStatus\<lparr> gst_conditions := conditions \<rparr>)))))"

text \<open>
  Both functions return the copy the patch is made from, \<open>updateStatus\<close> only when there is
  something to patch; the object at \<open>a\<close> is the other argument of \<open>Patch\<close>.
\<close>

definition updateStatus_memory ::
  "'x imported_methods \<Rightarrow> 'x condition_methods
     \<Rightarrow> (go_workspace_status \<Rightarrow> go_workspace_status \<Rightarrow> 'x cell heap \<Rightarrow> bool) \<Rightarrow> bool \<Rightarrow> addr
     \<Rightarrow> ('x cell, addr option) mem_op" where
  "updateStatus_memory X F deep_equal istioEnabled a h =
     (case load as_WorkspaceCell h a of
        None \<Rightarrow> None
      | Some w \<Rightarrow>
          mem_bind (new_status X F istioEnabled w) (\<lambda>newStatus h1.
            if deep_equal (gw_status w) newStatus h1 then Some (None, h1)
            else mem_bind (DeepCopy_Workspace X (Some a)) (\<lambda>base.
              mem_bind (store_status a newStatus) (\<lambda>_. mem_return base)) h1) h)"

definition setReadyConditionFalse_memory ::
  "'x imported_methods \<Rightarrow> 'x condition_methods \<Rightarrow> addr \<Rightarrow> string \<Rightarrow> string \<Rightarrow> ('x cell, addr option) mem_op" where
  "setReadyConditionFalse_memory X F a reason message =
     mem_bind (DeepCopy_Workspace X (Some a)) (\<lambda>base h.
       (case load as_WorkspaceCell h a of
          None \<Rightarrow> None
        | Some w \<Rightarrow>
            mem_bind (set_condition F
                (ready_condition ConditionFalse reason message (generation_of F (gw_meta w)))
                (gst_conditions (gw_status w))) (\<lambda>conditions.
              mem_bind (store_field as_WorkspaceCell WorkspaceCell
                  (put_conditions conditions (generation_of F (gw_meta w))) a)
                (\<lambda>_. mem_return base)) h))"

text \<open>The call of \<open>Patch\<close>: the client reads both objects from memory.\<close>

abbreviation object_at ::
  "'x imported_views \<Rightarrow> 'x cell heap \<Rightarrow> addr \<Rightarrow> (type_meta \<times> workspace) option" where
  "object_at V \<equiv> seen_at as_WorkspaceCell (view_workspace V)"

definition patch_from_memory ::
  "'x imported_views \<Rightarrow> 's workspace_client \<Rightarrow> 'x cell heap \<Rightarrow> addr option \<Rightarrow> addr \<Rightarrow> 's step" where
  "patch_from_memory V W h base a =
     (case (Option.bind base (object_at V h), object_at V h a) of
        (Some (_, old), Some (_, new)) \<Rightarrow> wc_patch_status W old new
      | _ \<Rightarrow> (\<lambda>s. (Some (ErrorString ''dangling''), s)))"

text \<open>What \<open>updateStatus\<close> does with the result of the patch.\<close>

definition after_patch ::
  "'s reconciler \<Rightarrow> workspace \<Rightarrow> go_error option \<times> 's \<Rightarrow> go_error option go_result \<times> 's" where
  "after_patch R w r =
     (case r of
        (Some err, s') \<Rightarrow> (Returns (Some err), s')
      | (None, s') \<Rightarrow>
          event_then R (reconciled_event ''Workspace resources reconciled for namespace %s'' (w_namespace w)) None s')"

section \<open>The parts of a Workspace\<close>

lemma view_status_iff:
  "view_workspace_status V h v = Some s \<longleftrightarrow>
     st_observed_generation s = gst_observed_generation v
     \<and> view_reference h (gst_namespace_ref v) = Some (st_namespace_ref s)
     \<and> view_reference h (gst_resource_quota_ref v) = Some (st_resource_quota_ref s)
     \<and> view_reference h (gst_limit_range_ref v) = Some (st_limit_range_ref s)
     \<and> view_references h (gst_role_binding_refs v) = Some (st_role_binding_refs s)
     \<and> view_reference h (gst_peer_authentication_ref v) = Some (st_peer_authentication_ref s)
     \<and> view_reference h (gst_authorization_policy_ref v) = Some (st_authorization_policy_ref s)
     \<and> view_reference h (gst_network_policy_ref v) = Some (st_network_policy_ref s)
     \<and> view_conditions V h (gst_conditions v) = Some (st_conditions s)"
  by (cases s) (auto simp: view_workspace_status_def view_struct_def view_field_def split: option.splits)

lemma reach_status:
  "reach_workspace_status V h v =
     reach_reference h (gst_namespace_ref v) @ reach_reference h (gst_resource_quota_ref v)
     @ reach_reference h (gst_limit_range_ref v) @ reach_references h (gst_role_binding_refs v)
     @ reach_reference h (gst_peer_authentication_ref v)
     @ reach_reference h (gst_authorization_policy_ref v)
     @ reach_reference h (gst_network_policy_ref v) @ reach_conditions V h (gst_conditions v)"
  by (simp add: reach_workspace_status_def reach_field_def)

lemma view_workspace_iff:
  "view_workspace V h v = Some (t, w) \<longleftrightarrow>
     t = gw_type_meta v \<and> view_ObjectMeta V h (gw_meta v) = Some (w_meta w)
     \<and> view_workspace_spec V h (gw_spec v) = Some (w_spec w)
     \<and> view_workspace_status V h (gw_status v) = Some (w_status w)"
  by (cases w)
    (auto simp: view_workspace_def view_struct_def view_field_def view_flat_def blank_workspace_def
      split: option.splits)

lemma reach_workspace_parts:
  "reach_workspace V h v = imported_reach V h (gw_meta v) @ reach_workspace_spec V h (gw_spec v)
     @ reach_workspace_status V h (gw_status v)"
  by (simp add: reach_workspace_def reach_field_def reach_flat_def)

text \<open>What the status needs of the spec.\<close>

lemma view_spec_parts:
  assumes "view_workspace_spec V h v = Some sp"
  shows "gws_namespace v = ws_namespace sp"
    and "gws_resource_quota v = None \<longleftrightarrow> ws_resource_quota sp = None"
    and "gws_limit_range v = None \<longleftrightarrow> ws_limit_range sp = None"
    and "gni_enabled (gws_network_isolation v) = ni_enabled (ws_network_isolation sp)"
    and "view_slice as_MemberArray view_member h (gws_members v) = Some (ws_members sp)"
  using assms
  by (auto simp: view_workspace_spec_def view_struct_def view_field_def view_isolation_def view_ptr_nil
      split: option.splits)

section \<open>The new status\<close>

lemma reference_if_builds:
  "builds (reference_if b name namespace) h (\<lambda>h' p. ref_ptr.placed h' (length h) (length h') p
     (if b then Some \<lparr> rr_name = name, rr_namespace = namespace \<rparr> else None))"
  by (cases b)
    (simp_all add: reference_if_def new_reference_builds builds_return no_reference_placed)

lemma role_references_builds:
  assumes "ref_slice.placed h lo (length h) sl rs" and "lo \<le> length h"
  shows "builds (role_references namespace used roles sl) h (\<lambda>h' sl'. ref_slice.placed h' lo (length h') sl'
    (rs @ map (\<lambda>role. \<lparr> rr_name = RoleBindingName @ ''-'' @ role, rr_namespace = namespace \<rparr>)
      (filter used roles)))"
  using assms
proof (induction roles arbitrary: h sl rs)
  case Nil
  then show ?case by (simp add: builds_return)
next
  case (Cons role roles)
  show ?case
  proof (cases "used role")
    case True
    let ?r = "\<lparr> rr_name = RoleBindingName @ ''-'' @ role, rr_namespace = namespace \<rparr>"
    have "builds (role_references namespace used roles sl') h' (\<lambda>h'' sl''. ref_slice.placed h'' lo (length h'') sl''
        (rs @ ?r # map (\<lambda>role. \<lparr> rr_name = RoleBindingName @ ''-'' @ role, rr_namespace = namespace \<rparr>)
          (filter used roles)))"
      if "changes_only {} h h'" "ref_slice.placed h' lo (length h') sl' (rs @ [?r])" for h' sl'
      using Cons.IH [OF that(2)] changes_only_length [OF that(1)] Cons.prems(2) by simp
    from builds_bind [OF append_reference_builds [OF Cons.prems, of ?r], OF this] True
    show ?thesis by simp
  qed (use Cons in simp)
qed

lemma role_binding_refs_filter:
  "role_binding_refs w roles =
     map (\<lambda>role. \<lparr> rr_name = RoleBindingName @ ''-'' @ role, rr_namespace = w_namespace w \<rparr>)
       (filter (role_in_use (w_members w)) roles)"
  by (induction roles) simp_all

lemma roles_in_use_memory:
  assumes "view_slice as_MemberArray view_member h members = Some ms"
  shows "roles_in_use members h = Some (role_in_use ms, h)"
proof -
  obtain vs where vs: "elements as_MemberArray h members = Some vs" "view_list view_member h vs = Some ms"
    using assms by (auto simp: view_slice_def split: option.splits)
  have role: "view_member h v = Some m \<Longrightarrow> wm_role m = gwm_role v" for v m
    by (auto simp: view_member_def view_struct_def view_field_def split: option.splits)
  have "view_list view_member h vs = Some ms \<Longrightarrow>
      fold (\<lambda>m f. f(gwm_role m := True)) vs f = fold (\<lambda>m f. f(wm_role m := True)) ms f" for f
    by (induction vs arbitrary: ms f) (auto simp: role split: option.splits)
  with vs show ?thesis by (simp add: roles_in_use_def role_in_use_def fun_eq_iff)
qed

text \<open>The references of a status lie in the cells from \<open>lo\<close> to \<open>hi\<close>.\<close>

definition references_placed ::
  "'x cell heap \<Rightarrow> nat \<Rightarrow> nat \<Rightarrow> go_workspace_status \<Rightarrow> workspace_status \<Rightarrow> bool" where
  "references_placed h lo hi st s \<longleftrightarrow>
     ref_ptr.placed h lo hi (gst_namespace_ref st) (st_namespace_ref s)
     \<and> ref_ptr.placed h lo hi (gst_resource_quota_ref st) (st_resource_quota_ref s)
     \<and> ref_ptr.placed h lo hi (gst_limit_range_ref st) (st_limit_range_ref s)
     \<and> ref_slice.placed h lo hi (gst_role_binding_refs st) (st_role_binding_refs s)
     \<and> ref_ptr.placed h lo hi (gst_peer_authentication_ref st) (st_peer_authentication_ref s)
     \<and> ref_ptr.placed h lo hi (gst_authorization_policy_ref st) (st_authorization_policy_ref s)
     \<and> ref_ptr.placed h lo hi (gst_network_policy_ref st) (st_network_policy_ref s)"

lemma references_placed_frame:
  assumes "references_placed h lo hi st s" and "changes_only A h h'" and "A \<inter> {lo..<hi} = {}"
  shows "references_placed h' lo hi st s"
  using assms(1) ref_ptr.placed_frame [OF _ assms(2,3)] ref_slice.placed_frame [OF _ assms(2,3)]
  unfolding references_placed_def by blast

lemma references_placed_view:
  "references_placed h lo hi st s \<Longrightarrow> gst_observed_generation st = st_observed_generation s \<Longrightarrow>
     view_conditions V h (gst_conditions st) = Some (st_conditions s) \<Longrightarrow>
     view_workspace_status V h st = Some s"
  "references_placed h lo hi st s \<Longrightarrow>
     set (reach_workspace_status V h st) \<subseteq> {lo..<hi} \<union> set (reach_conditions V h (gst_conditions st))"
  by (simp_all add: view_status_iff reach_status references_placed_def ref_ptr.placed_def
      ref_slice.placed_def le_supI1)

definition references_of :: "workspace \<Rightarrow> bool \<Rightarrow> workspace_status \<Rightarrow> workspace_status" where
  "references_of w istio s =
     s\<lparr> st_namespace_ref := Some \<lparr> rr_name = w_namespace w, rr_namespace = '''' \<rparr>,
        st_resource_quota_ref :=
          (if ws_resource_quota (w_spec w) \<noteq> None then Some (child_ref w ResourceQuotaName) else None),
        st_limit_range_ref :=
          (if ws_limit_range (w_spec w) \<noteq> None then Some (child_ref w LimitRangeName) else None),
        st_role_binding_refs := role_binding_refs w orderedRoles,
        st_peer_authentication_ref :=
          (if w_isolated w \<and> istio then Some (child_ref w PeerAuthenticationName) else None),
        st_authorization_policy_ref :=
          (if w_isolated w \<and> istio then Some (child_ref w AuthorizationPolicyName) else None),
        st_network_policy_ref :=
          (if w_isolated w \<and> \<not> istio then Some (child_ref w NetworkPolicyName) else None) \<rparr>"

lemma updated_status_parts:
  "updated_status K w istio =
     (references_of w istio s)\<lparr> st_observed_generation := meta_generation (w_meta w),
       st_conditions := sort_conditions (k_set_status_condition K
         (ready_condition ConditionTrue ''Reconciled''
            ''Workspace resources are successfully reconciled'' (meta_generation (w_meta w)))
         (st_conditions (w_status w))) \<rparr>"
  by (simp add: updated_status_def references_of_def Let_def)

context imported_types
begin

lemma status_references_builds:
  assumes spec: "view_workspace_spec V h (gw_spec v) = Some (w_spec w)"
  shows "builds (status_references istio v st) h (\<lambda>h' st'.
    references_placed h' (length h) (length h') st' (references_of w istio s)
    \<and> gst_observed_generation st' = gst_observed_generation st \<and> gst_conditions st' = gst_conditions st)"
proof -
  note parts = view_spec_parts [OF spec]
  have members: "builds (roles_in_use (gws_members (gw_spec v))) h1
      (\<lambda>h2 used. h2 = h1 \<and> used = role_in_use (w_members w))" if "changes_only {} h h1" for h1
    using roles_in_use_memory [OF view_spec_parts(5)]
      deep_copyable.view_frame(1) [OF workspace_spec_copyable spec that Int_empty_left]
    by (simp add: builds_def)
  note roles = role_references_builds [OF no_references_placed order_refl]
  show ?thesis
    unfolding status_references_def Let_def parts(1-4)
  proof (rule builds_bind [OF new_reference_builds], rule builds_bind [OF members], assumption,
      rule builds_bind [OF roles], (rule builds_bind [OF reference_if_builds])+, rule builds_return, goal_cases)
    case (1 p1 h1 used h2 sl h3 p4 h4 p5 h5 p6 h6 p7 h7 p8 h8)
    have grows: "changes_only {} h7 h8" "changes_only {} h6 h8" "changes_only {} h5 h8"
      "changes_only {} h4 h8" "changes_only {} h3 h8" "changes_only {} h1 h8"
      using 1 grows_trans by blast+
    have lens: "length h \<le> length h1" "length h \<le> length h2" "length h \<le> length h3"
      "length h \<le> length h4" "length h \<le> length h5" "length h \<le> length h6" "length h \<le> length h7"
      using 1 by (auto dest!: changes_only_length)
    show ?case
      using ref_ptr.placed_later [OF 1(2) grows(6), of h] ref_slice.placed_later [OF 1(6) grows(5) lens(2)]
        ref_ptr.placed_later [OF 1(8) grows(4) lens(3)] ref_ptr.placed_later [OF 1(10) grows(3) lens(4)]
        ref_ptr.placed_later [OF 1(12) grows(2) lens(5)] ref_ptr.placed_later [OF 1(14) grows(1) lens(6)]
        ref_ptr.placed_later [OF 1(16) changes_only_refl lens(7)] 1(4)
      unfolding references_placed_def references_of_def child_ref_def role_binding_refs_filter
      by (simp split del: if_split)
  qed
qed

end

section \<open>Refinement\<close>

text \<open>A Workspace without its conditions, and the laws of its parts.\<close>

definition without_conditions :: "'x go_workspace \<Rightarrow> 'x go_workspace" where
  "without_conditions v = v\<lparr> gw_status := (gw_status v)\<lparr> gst_conditions := NilSlice \<rparr> \<rparr>"

definition with_conditions ::
  "condition list \<Rightarrow> int \<Rightarrow> type_meta \<times> workspace \<Rightarrow> type_meta \<times> workspace" where
  "with_conditions cs g = apsnd (\<lambda>w. w\<lparr> w_status := (w_status w)\<lparr> st_conditions := cs,
     st_observed_generation := g \<rparr> \<rparr>)"

sublocale imported_types \<subseteq> workspace_object: conditions_object "view_workspace V" "reach_workspace V"
  "DeepCopyInto_Workspace X" "view_workspace_status V" "reach_workspace_status V"
  "DeepCopyInto_WorkspaceStatus X" as_WorkspaceCell WorkspaceCell
  "\<lambda>st w. w\<lparr> gw_status := st \<rparr>" "\<lambda>s. apsnd (\<lambda>w. w\<lparr> w_status := s \<rparr>)" X V
  "\<lambda>v. gst_conditions (gw_status v)" without_conditions put_conditions
  "apsnd (\<lambda>w. w\<lparr> w_status := (w_status w)\<lparr> st_conditions := [] \<rparr> \<rparr>)" with_conditions
proof (intro conditions_object.intro status_object.intro workspace_copyable workspace_status_copyable
    imported_types_axioms status_object_axioms.intro conditions_object_axioms.intro, goal_cases)
  case (2 h v x st s)
  then show ?case by (cases x) (simp add: view_workspace_iff)
next
  case (3 h v)
  then show ?case by (simp add: reach_workspace_parts reach_status without_conditions_def)
next
  case (4 h v x)
  then show ?case
    by (cases x) (simp add: view_workspace_iff view_status_iff without_conditions_def)
next
  case (5 h v x sl cs g)
  then show ?case
    by (cases x) (simp add: view_workspace_iff view_status_iff without_conditions_def put_conditions_def
        with_conditions_def)
qed simp

locale status_memory = condition_memory X V K F
  for X :: "'x imported_methods" and V :: "'x imported_views" and K :: "'s kube"
    and F :: "'x condition_methods" +
  fixes deep_equal :: "go_workspace_status \<Rightarrow> go_workspace_status \<Rightarrow> 'x cell heap \<Rightarrow> bool"
    and same_status :: "workspace_status \<Rightarrow> workspace_status \<Rightarrow> bool"
  assumes deep_equal:
      "view_workspace_status V h st = Some x1 \<Longrightarrow> view_workspace_status V h st' = Some x2 \<Longrightarrow>
         deep_equal st st' h = same_status x1 x2"
begin

lemma new_status_memory:
  assumes w: "view_workspace V h v = Some (t, w)" and types: "distinct (map cond_type (st_conditions (w_status w)))"
  shows "\<exists>st h'. new_status X F istio v h = Some (st, h') \<and> changes_only {} h h'
    \<and> workspace_status_copy.placed h' (length h) (length h') st (updated_status K w istio)"
proof -
  define c where "c = ready_condition ConditionTrue ''Reconciled''
    ''Workspace resources are successfully reconciled'' (meta_generation (w_meta w))"
  have parts: "view_ObjectMeta V h (gw_meta v) = Some (w_meta w)"
    "view_workspace_spec V h (gw_spec v) = Some (w_spec w)"
    "view_workspace_status V h (gw_status v) = Some (w_status w)"
    using w by (simp_all add: view_workspace_iff)
  obtain st0 e where copy: "DeepCopyInto_WorkspaceStatus X (gw_status v) h = Some (st0, h @ e)"
    and st0: "workspace_status_copy.placed (h @ e) (length h) (length (h @ e)) st0 (w_status w)"
    using workspace_status_copy.copy_placed [OF parts(3)] by blast
  let ?st0 = "st0\<lparr> gst_observed_generation := generation_of F (gw_meta v) \<rparr>"
  have "view_workspace_spec V (h @ e) (gw_spec v) = Some (w_spec w)"
    by (rule deep_copyable.view_append(1) [OF workspace_spec_copyable parts(2)])
  from status_references_builds [OF this, of istio ?st0 "w_status w"] obtain st1 h1 where
    refs: "status_references istio v ?st0 (h @ e) = Some (st1, h1)" "changes_only {} (h @ e) h1"
    and st1: "references_placed h1 (length (h @ e)) (length h1) st1 (references_of w istio (w_status w))"
      "gst_observed_generation st1 = meta_generation (w_meta w)" "gst_conditions st1 = gst_conditions st0"
    using generation [OF parts(1)] by (fastforce elim: buildsE)
  have conds: "conditions_copy.placed h1 (length h) (length (h @ e)) (gst_conditions st1) (st_conditions (w_status w))"
    by (rule conditions_copy.placed_frame [OF _ refs(2) Int_empty_left])
      (use st0 st1(3) in \<open>simp add: conditions_copy.placed_def workspace_status_copy.placed_def
         view_status_iff reach_status\<close>)
  define A where "A = set (reach_conditions V h1 (gst_conditions st1))"
  have A: "A \<subseteq> {length h..<length (h @ e)}" using conds by (simp add: conditions_copy.placed_def A_def)
  from conds have "view_conditions V h1 (gst_conditions st1) = Some (st_conditions (w_status w))"
    by (simp add: conditions_copy.placed_def)
  from set_sort_in_place [OF this types, of c] obtain sl3 h3 where
    sort: "mem_bind (set_condition F c (gst_conditions st1)) (sort_by_type F) h1 = Some (sl3, h3)"
      "changes_only A h1 h3"
    and sl3: "view_conditions V h3 sl3 =
        Some (sort_conditions (k_set_status_condition K c (st_conditions (w_status w))))"
      "set (reach_conditions V h3 sl3) \<subseteq> A \<union> {length h1..}"
    by (auto simp: in_place_def A_def)
  have lens: "length h \<le> length (h @ e)" "length (h @ e) \<le> length h1"
    using refs(2) by (auto dest: changes_only_length)
  have refs3: "references_placed h3 (length (h @ e)) (length h1) st1 (references_of w istio (w_status w))"
    by (rule references_placed_frame [OF st1(1) sort(2)]) (use A in fastforce)
  let ?st = "st1\<lparr> gst_conditions := sl3 \<rparr>"
  have new: "new_status X F istio v h = Some (?st, h3)"
    using copy refs(1) sort(1) generation [OF parts(1)]
    by (simp add: new_status_def mem_return_def c_def flip: mem_bind_assoc)
  have "changes_only {} h h1" by (rule grows_trans [OF changes_only_append refs(2)])
  then have grown: "changes_only {} h h3"
    by (rule changes_only_trans [OF _ sort(2)]) (use A in fastforce)
  have up: "updated_status K w istio = (references_of w istio (w_status w))
      \<lparr> st_observed_generation := meta_generation (w_meta w),
        st_conditions := sort_conditions (k_set_status_condition K c (st_conditions (w_status w))) \<rparr>"
    unfolding c_def by (rule updated_status_parts)
  have "references_placed h3 (length (h @ e)) (length h1) ?st (updated_status K w istio)"
    using refs3 by (simp add: references_placed_def up)
  note seen = references_placed_view [OF this, of V]
  have view: "view_workspace_status V h3 ?st = Some (updated_status K w istio)"
    by (rule seen(1)) (use st1(2) sl3(1) in \<open>simp_all add: up\<close>)
  moreover have "set (reach_workspace_status V h3 ?st) \<subseteq> {length h..}"
    using seen(2) sl3(2) A lens by fastforce
  ultimately have "workspace_status_copy.placed h3 (length h) (length h3) ?st (updated_status K w istio)"
    using workspace_status_copy.reach_bound [OF view] by (auto simp: workspace_status_copy.placed_def)
  with new grown show ?thesis by blast
qed

lemma updateStatus_in_memory:
  assumes v: "load as_WorkspaceCell h a = Some v" "view_workspace V h v = Some (t, w)"
    and a: "a \<notin> set (reach_workspace V h v)" and types: "distinct (map cond_type (st_conditions (w_status w)))"
  shows "\<exists>base h'. updateStatus_memory X F deep_equal istio a h = Some (base, h') \<and> changes_only {a} h h'
    \<and> (if same_status (w_status w) (updated_status K w istio) then base = None
       else (\<exists>b. base = Some b \<and> object_at V h' b = Some (t, w)
         \<and> object_at V h' a = Some (t, w\<lparr> w_status := updated_status K w istio \<rparr>)))"
proof -
  obtain st h1 where new: "new_status X F istio v h = Some (st, h1)" "changes_only {} h h1"
    and st: "workspace_status_copy.placed h1 (length h) (length h1) st (updated_status K w istio)"
    using new_status_memory [OF v(2) types] by blast
  have "view_workspace V h1 v = Some (t, w)"
    by (rule workspace_object.obj.view_frame(1) [OF v(2) new(2)]) simp
  then have eq: "deep_equal (gw_status v) st h1 = same_status (w_status w) (updated_status K w istio)"
    using st by (intro deep_equal) (simp_all add: view_workspace_iff workspace_status_copy.placed_def)
  show ?thesis
  proof (cases "same_status (w_status w) (updated_status K w istio)")
    case True
    with new eq v(1) changes_only_mono [OF new(2), of "{a}"] show ?thesis
      by (simp add: updateStatus_memory_def)
  next
    case False
    obtain b h2 h3 where "DeepCopy_Workspace X (Some a) h1 = Some (Some b, h2)"
      and "store_status a st h2 = Some ((), h3)" and "changes_only {a} h h3"
      and "object_at V h3 b = Some (t, w)" "object_at V h3 a = Some (t, w\<lparr> w_status := updated_status K w istio \<rparr>)"
      using workspace_object.store_status [OF v a new(2) st]
      unfolding store_status_def DeepCopy_Workspace_def apsnd_conv by metis
    with v(1) new(1) eq False show ?thesis by (simp add: updateStatus_memory_def mem_return_def)
  qed
qed

lemma setReadyConditionFalse_in_memory:
  assumes v: "load as_WorkspaceCell h a = Some v" "view_workspace V h v = Some (t, w)"
    and tree: "distinct (a # reach_workspace V h v)"
  shows "\<exists>b h'. setReadyConditionFalse_memory X F a reason message h = Some (Some b, h')
    \<and> changes_only (insert a (set (reach_workspace V h v))) h h' \<and> object_at V h' b = Some (t, w)
    \<and> object_at V h' a = Some (t, w\<lparr> w_status := ready_false_status K w reason message \<rparr>)"
proof -
  let ?c = "ready_condition ConditionFalse reason message (meta_generation (w_meta w))"
  let ?cs = "k_set_status_condition K ?c (st_conditions (w_status w))"
  have gen: "generation_of F (gw_meta v) = meta_generation (w_meta w)"
    using v(2) generation by (auto simp: view_workspace_iff)
  have conds: "view_conditions V h (gst_conditions (gw_status v)) = Some (st_conditions (w_status w))"
    using v(2) by (simp add: view_workspace_iff view_status_iff)
  obtain b h1 sl h2 h3 where run: "DeepCopy_Workspace X (Some a) h = Some (Some b, h1)"
      "load as_WorkspaceCell h1 a = Some v" "set_condition F ?c (gst_conditions (gw_status v)) h1 = Some (sl, h2)"
      "store_field as_WorkspaceCell WorkspaceCell (put_conditions sl (meta_generation (w_meta w))) a h2 = Some ((), h3)"
    and "changes_only (insert a (set (reach_workspace V h v))) h h3" "object_at V h3 b = Some (t, w)"
      "object_at V h3 a = Some (with_conditions ?cs (meta_generation (w_meta w)) (t, w))"
    using workspace_object.copy_then_change [OF v tree set_in_place [of _ _ "st_conditions (w_status w)" ?c] conds,
        of "meta_generation (w_meta w)"] conds
    unfolding DeepCopy_Workspace_def by metis
  then show ?thesis
    by (simp add: setReadyConditionFalse_memory_def gen mem_return_def with_conditions_def ready_false_status_def)
qed

text \<open>On a copy, both leave everything that was there before as it was.\<close>

lemma updateStatus_on_copy:
  assumes c: "object_at V h c = Some (t, w)" and types: "distinct (map cond_type (st_conditions (w_status w)))"
  shows "builds (on_copy (DeepCopy_Workspace X (Some c)) (updateStatus_memory X F deep_equal istio)) h
    (\<lambda>h' base. object_at V h' c = Some (t, w))"
proof -
  obtain v where v: "load as_WorkspaceCell h c = Some v" "view_workspace V h v = Some (t, w)"
    using c by (auto simp: seen_at_iff)
  show ?thesis
    unfolding DeepCopy_Workspace_def
  proof (rule workspace_object.on_copy_builds [OF v], goal_cases)
    case (1 b e v')
    then show ?case
      using updateStatus_in_memory [OF 1(1,2) _ types, of istio]
      by (fastforce intro: changes_only_mono)
  qed
qed

lemma setReadyConditionFalse_on_copy:
  assumes c: "object_at V h c = Some (t, w)"
  shows "builds (on_copy (DeepCopy_Workspace X (Some c)) (\<lambda>b. setReadyConditionFalse_memory X F b reason message)) h
    (\<lambda>h' base. object_at V h' c = Some (t, w))"
proof -
  obtain v where v: "load as_WorkspaceCell h c = Some v" "view_workspace V h v = Some (t, w)"
    using c by (auto simp: seen_at_iff)
  show ?thesis
    unfolding DeepCopy_Workspace_def
    by (rule workspace_object.on_copy_builds [OF v])
      (use setReadyConditionFalse_in_memory in blast)
qed

end

end
