(* ===== verification/Module_Status_Memory.thy ===== *)
theory Module_Status_Memory
  imports Object_Memory Module_Controller
begin

text \<open>
  The status functions of the Module controller over memory, in the same way as those of the
  Workspace controller in \<open>Status_Memory\<close>.
\<close>

section \<open>The functions of the controller\<close>

definition new_addon_reference :: "string \<Rightarrow> string \<Rightarrow> ('x cell, addr option) mem_op" where
  "new_addon_reference name namespace =
     mem_bind (alloc (AddonReferenceCell \<lparr> ar_name = name, ar_namespace = namespace \<rparr>)) (\<lambda>a. mem_return (Some a))"

definition target_namespace :: "'x go_module \<Rightarrow> 'x go_template \<Rightarrow> ('x cell, string) mem_op" where
  "target_namespace m mt h =
     (case gms_namespace (gm_spec m) of
        Some p \<Rightarrow> (case load as_StringCell h p of None \<Rightarrow> None | Some ns \<Rightarrow> Some (ns, h))
      | None \<Rightarrow> Some (gts_namespace (gt_spec mt), h))"

definition flux_references ::
  "string \<Rightarrow> string \<Rightarrow> 'x go_template \<Rightarrow> go_module_status \<Rightarrow> ('x cell, go_module_status) mem_op" where
  "flux_references name targetNS mt st =
     (if gts_helm_release (gt_spec mt) \<noteq> None then
        mem_bind (new_addon_reference name targetNS) (\<lambda>p.
          mem_return (st\<lparr> gmst_helm_release_ref := p, gmst_kustomization_ref := None \<rparr>))
      else if gts_kustomization (gt_spec mt) \<noteq> None then
        mem_bind (new_addon_reference name targetNS) (\<lambda>p.
          mem_return (st\<lparr> gmst_kustomization_ref := p, gmst_helm_release_ref := None \<rparr>))
      else mem_return st)"

text \<open>\<open>observe\<close> is the status that the controller reads back from the cluster.\<close>

definition new_status_module ::
  "'x imported_methods \<Rightarrow> 'x condition_methods \<Rightarrow> (string \<Rightarrow> condition_status \<times> string \<times> string)
     \<Rightarrow> 'x go_module \<Rightarrow> 'x go_template \<Rightarrow> ('x cell, go_module_status) mem_op" where
  "new_status_module X F observe m mt =
     mem_bind (DeepCopyInto_ModuleStatus X (gm_status m)) (\<lambda>newStatus.
     mem_bind (target_namespace m mt) (\<lambda>targetNS.
     mem_bind (flux_references (name_of F (gm_meta m)) targetNS mt
         (newStatus\<lparr> gmst_observed_generation := generation_of F (gm_meta m),
                     gmst_template_generation := generation_of F (gt_meta mt) \<rparr>)) (\<lambda>newStatus.
     case observe targetNS of (readyStatus, readyReason, readyMessage) \<Rightarrow>
     mem_bind (set_condition F
         (ready_condition readyStatus readyReason readyMessage (generation_of F (gm_meta m)))
         (gmst_conditions newStatus)) (\<lambda>conditions.
     mem_bind (sort_by_type F conditions) (\<lambda>conditions.
     mem_return (newStatus\<lparr> gmst_conditions := conditions \<rparr>))))))"

definition put_module_conditions :: "slice \<Rightarrow> int \<Rightarrow> 'x go_module \<Rightarrow> 'x go_module" where
  "put_module_conditions sl g m =
     m\<lparr> gm_status := (gm_status m)\<lparr> gmst_conditions := sl, gmst_observed_generation := g \<rparr> \<rparr>"

definition updateStatus_module_memory ::
  "'x imported_methods \<Rightarrow> 'x condition_methods
     \<Rightarrow> (go_module_status \<Rightarrow> go_module_status \<Rightarrow> 'x cell heap \<Rightarrow> bool)
     \<Rightarrow> (string \<Rightarrow> condition_status \<times> string \<times> string) \<Rightarrow> addr \<Rightarrow> 'x go_template
     \<Rightarrow> ('x cell, addr option) mem_op" where
  "updateStatus_module_memory X F deep_equal observe a mt h =
     (case load as_ModuleCell h a of
        None \<Rightarrow> None
      | Some m \<Rightarrow>
          mem_bind (new_status_module X F observe m mt) (\<lambda>newStatus h1.
            if deep_equal (gm_status m) newStatus h1 then Some (None, h1)
            else mem_bind (DeepCopy_Module X (Some a)) (\<lambda>base.
              mem_bind (store_field as_ModuleCell ModuleCell (\<lambda>m. m\<lparr> gm_status := newStatus \<rparr>) a)
                (\<lambda>_. mem_return base)) h1) h)"

definition setReadyConditionFalse_module_memory ::
  "'x imported_methods \<Rightarrow> 'x condition_methods \<Rightarrow> addr \<Rightarrow> string \<Rightarrow> string \<Rightarrow> ('x cell, addr option) mem_op" where
  "setReadyConditionFalse_module_memory X F a reason message =
     mem_bind (DeepCopy_Module X (Some a)) (\<lambda>base h.
       (case load as_ModuleCell h a of
          None \<Rightarrow> None
        | Some m \<Rightarrow>
            mem_bind (set_condition F
                (ready_condition ConditionFalse reason message (generation_of F (gm_meta m)))
                (gmst_conditions (gm_status m))) (\<lambda>conditions.
              mem_bind (store_field as_ModuleCell ModuleCell
                  (put_module_conditions conditions (generation_of F (gm_meta m))) a)
                (\<lambda>_. mem_return base)) h))"

abbreviation module_at :: "'x imported_views \<Rightarrow> 'x cell heap \<Rightarrow> addr \<Rightarrow> (type_meta \<times> module) option" where
  "module_at V \<equiv> seen_at as_ModuleCell (view_module V)"

definition patch_module_from_memory ::
  "'x imported_views \<Rightarrow> 's module_client \<Rightarrow> 'x cell heap \<Rightarrow> addr option \<Rightarrow> addr \<Rightarrow> 's step" where
  "patch_module_from_memory V M h base a =
     (case (Option.bind base (module_at V h), module_at V h a) of
        (Some (_, old), Some (_, new)) \<Rightarrow> mc_patch_status M old new
      | _ \<Rightarrow> (\<lambda>s. (Some (ErrorString ''dangling''), s)))"

text \<open>What \<open>updateStatus\<close> does with the result of the patch.\<close>

definition after_module_patch ::
  "'s reconciler \<Rightarrow> module \<Rightarrow> go_error option \<times> 's \<Rightarrow> go_error option go_result \<times> 's" where
  "after_module_patch R m r =
     (case r of
        (Some err, s') \<Rightarrow> (Returns (Some err), s')
      | (None, s') \<Rightarrow>
          event_then R (reconciled_event ''Module resources reconciled for template %s''
            (ms_template_ref (m_spec m))) None s')"

section \<open>The parts of a Module\<close>

abbreviation view_addon_reference :: "'x cell heap \<Rightarrow> addr option \<Rightarrow> addon_reference option option" where
  "view_addon_reference \<equiv> view_ptr as_AddonReferenceCell view_flat"

abbreviation reach_addon_reference :: "'x cell heap \<Rightarrow> addr option \<Rightarrow> addr list" where
  "reach_addon_reference \<equiv> reach_ptr as_AddonReferenceCell reach_flat"

interpretation addon_ptr: deep_copyable view_addon_reference reach_addon_reference
  "copy_ptr as_AddonReferenceCell AddonReferenceCell copy_flat"
  by (intro copy_rules) simp_all

lemma view_module_status_iff:
  "view_module_status V h v = Some s \<longleftrightarrow>
     mst_observed_generation s = gmst_observed_generation v
     \<and> mst_template_generation s = gmst_template_generation v
     \<and> view_addon_reference h (gmst_helm_release_ref v) = Some (mst_helm_release_ref s)
     \<and> view_addon_reference h (gmst_kustomization_ref v) = Some (mst_kustomization_ref s)
     \<and> view_conditions V h (gmst_conditions v) = Some (mst_conditions s)"
  by (cases s) (auto simp: view_module_status_def view_struct_def view_field_def split: option.splits)

lemma reach_module_status_parts:
  "reach_module_status V h v =
     reach_addon_reference h (gmst_helm_release_ref v) @ reach_addon_reference h (gmst_kustomization_ref v)
     @ reach_conditions V h (gmst_conditions v)"
  by (simp add: reach_module_status_def reach_field_def)

lemma view_module_iff:
  "view_module V h v = Some (t, m) \<longleftrightarrow>
     t = gm_type_meta v \<and> view_ObjectMeta V h (gm_meta v) = Some (m_meta m)
     \<and> view_module_spec V h (gm_spec v) = Some (m_spec m)
     \<and> view_module_status V h (gm_status v) = Some (m_status m)"
  by (cases m)
    (auto simp: view_module_def view_struct_def view_field_def view_flat_def blank_module_def
      split: option.splits)

lemma reach_module_parts:
  "reach_module V h v = imported_reach V h (gm_meta v) @ reach_module_spec V h (gm_spec v)
     @ reach_module_status V h (gm_status v)"
  by (simp add: reach_module_def reach_field_def reach_flat_def)

lemma new_addon_reference_builds:
  "builds (new_addon_reference name namespace) h (\<lambda>h' p. addon_ptr.placed h' (length h) (length h') p
     (Some \<lparr> ar_name = name, ar_namespace = namespace \<rparr>))"
  by (auto simp: builds_def new_addon_reference_def mem_bind_def alloc_def mem_return_def addon_ptr.placed_def
      view_ptr_def reach_ptr_def view_flat_def reach_flat_def)

lemma no_addon_reference_placed: "addon_ptr.placed h lo hi None None"
  by (simp add: addon_ptr.placed_def view_ptr_def reach_ptr_def)

text \<open>What the status needs of Module and template.\<close>

lemma view_template_parts:
  assumes "view_template V h tv = Some (tt, mt, ts)"
  shows "view_ObjectMeta V h (gt_meta tv) = Some (mt_meta mt)"
    and "gts_helm_release (gt_spec tv) = None \<longleftrightarrow> mts_helm_release (mt_spec mt) = None"
    and "gts_kustomization (gt_spec tv) = None \<longleftrightarrow> mts_kustomization (mt_spec mt) = None"
    and "gts_namespace (gt_spec tv) = mts_namespace (mt_spec mt)"
  using assms
  by (auto simp: view_template_def view_template_spec_def view_struct_def view_field_def blank_template_def
      view_ptr_nil split: option.splits)

lemma view_module_namespace:
  "view_module_spec V h v = Some sp \<Longrightarrow> view_ptr as_StringCell view_flat h (gms_namespace v) = Some (ms_namespace sp)"
  by (auto simp: view_module_spec_def view_struct_def view_field_def split: option.splits)

lemma target_namespace_memory:
  assumes "view_module_spec V h (gm_spec v) = Some (m_spec m)" and "gts_namespace (gt_spec tv) = mts_namespace (mt_spec mt)"
  shows "target_namespace v tv h = Some (TargetNamespace m mt, h)"
  using view_module_namespace [OF assms(1)] assms(2)
  by (cases "gms_namespace (gm_spec v)"; cases "ms_namespace (m_spec m)")
    (auto simp: target_namespace_def TargetNamespace_def view_ptr_def view_flat_def split: option.splits)

text \<open>The references the controller computes with.\<close>

definition flux_references_of :: "string \<Rightarrow> string \<Rightarrow> module_template \<Rightarrow> module_status \<Rightarrow> module_status" where
  "flux_references_of name ns mt s =
     (if mts_helm_release (mt_spec mt) \<noteq> None then
        s\<lparr> mst_helm_release_ref := Some \<lparr> ar_name = name, ar_namespace = ns \<rparr>, mst_kustomization_ref := None \<rparr>
      else if mts_kustomization (mt_spec mt) \<noteq> None then
        s\<lparr> mst_kustomization_ref := Some \<lparr> ar_name = name, ar_namespace = ns \<rparr>, mst_helm_release_ref := None \<rparr>
      else s)"

lemma updated_status_module_parts:
  assumes "observeFluxResourceStatus K m mt (TargetNamespace m mt) s = (rs, rr, rm)"
  shows "updated_status_module K m mt s =
    (flux_references_of (m_name m) (TargetNamespace m mt) mt (m_status m))
      \<lparr> mst_observed_generation := meta_generation (m_meta m),
        mst_template_generation := meta_generation (mt_meta mt),
        mst_conditions := sort_conditions (k_set_status_condition K
          (ready_condition rs rr rm (meta_generation (m_meta m))) (mst_conditions (m_status m))) \<rparr>"
  using assms by (simp add: updated_status_module_def flux_references_of_def Let_def)

section \<open>Refinement\<close>

definition without_module_conditions :: "'x go_module \<Rightarrow> 'x go_module" where
  "without_module_conditions v = v\<lparr> gm_status := (gm_status v)\<lparr> gmst_conditions := NilSlice \<rparr> \<rparr>"

definition with_module_conditions ::
  "condition list \<Rightarrow> int \<Rightarrow> type_meta \<times> module \<Rightarrow> type_meta \<times> module" where
  "with_module_conditions cs g = apsnd (\<lambda>m. m\<lparr> m_status := (m_status m)\<lparr> mst_conditions := cs,
     mst_observed_generation := g \<rparr> \<rparr>)"

sublocale imported_types \<subseteq> module_object: conditions_object "view_module V" "reach_module V"
  "DeepCopyInto_Module X" "view_module_status V" "reach_module_status V"
  "DeepCopyInto_ModuleStatus X" as_ModuleCell ModuleCell
  "\<lambda>st m. m\<lparr> gm_status := st \<rparr>" "\<lambda>s. apsnd (\<lambda>m. m\<lparr> m_status := s \<rparr>)" X V
  "\<lambda>v. gmst_conditions (gm_status v)" without_module_conditions put_module_conditions
  "apsnd (\<lambda>m. m\<lparr> m_status := (m_status m)\<lparr> mst_conditions := [] \<rparr> \<rparr>)" with_module_conditions
proof (intro conditions_object.intro status_object.intro module_copyable module_status_copyable
    imported_types_axioms status_object_axioms.intro conditions_object_axioms.intro, goal_cases)
  case (2 h v x st s)
  then show ?case by (cases x) (simp add: view_module_iff)
next
  case (3 h v)
  then show ?case by (simp add: reach_module_parts reach_module_status_parts without_module_conditions_def)
next
  case (4 h v x)
  then show ?case
    by (cases x) (simp add: view_module_iff view_module_status_iff without_module_conditions_def)
next
  case (5 h v x sl cs g)
  then show ?case
    by (cases x) (simp add: view_module_iff view_module_status_iff without_module_conditions_def
        put_module_conditions_def with_module_conditions_def)
qed simp

locale module_status_memory = condition_memory X V K F
  for X :: "'x imported_methods" and V :: "'x imported_views" and K :: "'s kube"
    and F :: "'x condition_methods" +
  fixes deep_equal :: "go_module_status \<Rightarrow> go_module_status \<Rightarrow> 'x cell heap \<Rightarrow> bool"
    and same_status :: "module_status \<Rightarrow> module_status \<Rightarrow> bool"
  assumes deep_equal:
      "view_module_status V h st = Some x1 \<Longrightarrow> view_module_status V h st' = Some x2 \<Longrightarrow>
         deep_equal st st' h = same_status x1 x2"
begin

lemma flux_references_builds:
  assumes "gts_helm_release (gt_spec tv) = None \<longleftrightarrow> mts_helm_release (mt_spec mt) = None"
    and "gts_kustomization (gt_spec tv) = None \<longleftrightarrow> mts_kustomization (mt_spec mt) = None"
    and "addon_ptr.lies h S (gmst_helm_release_ref st) (mst_helm_release_ref s)"
    and "addon_ptr.lies h S (gmst_kustomization_ref st) (mst_kustomization_ref s)"
    and "{length h..} \<subseteq> S"
  shows "builds (flux_references name ns tv st) h (\<lambda>h' st'.
      gmst_observed_generation st' = gmst_observed_generation st
      \<and> gmst_template_generation st' = gmst_template_generation st \<and> gmst_conditions st' = gmst_conditions st
      \<and> addon_ptr.lies h' S (gmst_helm_release_ref st') (mst_helm_release_ref (flux_references_of name ns mt s))
      \<and> addon_ptr.lies h' S (gmst_kustomization_ref st') (mst_kustomization_ref (flux_references_of name ns mt s)))"
proof -
  note new = builds_bind [OF new_addon_reference_builds builds_return]
  note placed = addon_ptr.lies_mono [OF addon_ptr.placed_lies assms(5)]
  have none: "addon_ptr.lies h' S None None" for h'
    by (simp add: addon_ptr.lies_def view_ptr_def reach_ptr_def)
  show ?thesis
    using assms unfolding flux_references_def flux_references_of_def
    by (auto simp: none intro!: new builds_return dest!: placed)
qed

lemma new_status_module_memory:
  assumes m: "view_module V h v = Some (t, m)" and tv: "view_template V h tv = Some (tt, mt, ts)"
    and types: "distinct (map cond_type (mst_conditions (m_status m)))"
  shows "\<exists>st h'. new_status_module X F (\<lambda>ns. observeFluxResourceStatus K m mt ns s) v tv h = Some (st, h')
    \<and> changes_only {} h h'
    \<and> module_status_copy.placed h' (length h) (length h') st (updated_status_module K m mt s)"
proof -
  obtain rs rr rm where obs: "observeFluxResourceStatus K m mt (TargetNamespace m mt) s = (rs, rr, rm)"
    by (cases "observeFluxResourceStatus K m mt (TargetNamespace m mt) s")
  define c where "c = ready_condition rs rr rm (meta_generation (m_meta m))"
  define refs where "refs = flux_references_of (m_name m) (TargetNamespace m mt) mt (m_status m)"
  have parts: "view_ObjectMeta V h (gm_meta v) = Some (m_meta m)"
    "view_module_spec V h (gm_spec v) = Some (m_spec m)"
    "view_module_status V h (gm_status v) = Some (m_status m)"
    using m by (simp_all add: view_module_iff)
  note gens = generation [OF parts(1)] object_name [OF parts(1)] generation [OF view_template_parts(1) [OF tv]]
  obtain st0 e where copy: "DeepCopyInto_ModuleStatus X (gm_status v) h = Some (st0, h @ e)"
    and st0: "view_module_status V (h @ e) st0 = Some (m_status m)"
      "fresh_cells (length h) (reach_module_status V (h @ e) st0)"
    using module_status_copy.copy_ok [OF parts(3)] by blast
  define A where "A = set (reach_conditions V (h @ e) (gmst_conditions st0))"
  define S where "S = {length h..} - A"
  have conds0: "view_conditions V (h @ e) (gmst_conditions st0) = Some (mst_conditions (m_status m))"
    using st0(1) by (simp add: view_module_status_iff)
  have A: "A \<subseteq> {length h..<length (h @ e)}"
    using st0(2) conditions_copy.reach_bound [OF conds0]
    by (auto simp: A_def fresh_cells_def reach_module_status_parts)
  have ptrs0: "addon_ptr.lies (h @ e) S (gmst_helm_release_ref st0) (mst_helm_release_ref (m_status m))"
    "addon_ptr.lies (h @ e) S (gmst_kustomization_ref st0) (mst_kustomization_ref (m_status m))"
    using st0 by (auto simp: addon_ptr.lies_def view_module_status_iff reach_module_status_parts
        fresh_cells_def A_def S_def)
  have ns: "target_namespace v tv (h @ e) = Some (TargetNamespace m mt, h @ e)"
    by (rule target_namespace_memory [OF deep_copyable.view_append(1) [OF module_spec_copyable parts(2)]
          view_template_parts(4) [OF tv]])
  let ?st0 = "st0\<lparr> gmst_observed_generation := meta_generation (m_meta m),
    gmst_template_generation := meta_generation (mt_meta mt) \<rparr>"
  have "builds (flux_references (m_name m) (TargetNamespace m mt) tv ?st0) (h @ e) (\<lambda>h' st'.
      gmst_observed_generation st' = gmst_observed_generation ?st0
      \<and> gmst_template_generation st' = gmst_template_generation ?st0 \<and> gmst_conditions st' = gmst_conditions ?st0
      \<and> addon_ptr.lies h' S (gmst_helm_release_ref st') (mst_helm_release_ref refs)
      \<and> addon_ptr.lies h' S (gmst_kustomization_ref st') (mst_kustomization_ref refs))"
    unfolding refs_def
    by (rule flux_references_builds [OF view_template_parts(2,3) [OF tv]])
      (use ptrs0 A in \<open>auto simp: S_def\<close>)
  then obtain st1 h1 where
    run: "flux_references (m_name m) (TargetNamespace m mt) tv ?st0 (h @ e) = Some (st1, h1)"
      "changes_only {} (h @ e) h1"
    and st1: "gmst_observed_generation st1 = meta_generation (m_meta m)"
      "gmst_template_generation st1 = meta_generation (mt_meta mt)" "gmst_conditions st1 = gmst_conditions st0"
    and ptrs: "addon_ptr.lies h1 S (gmst_helm_release_ref st1) (mst_helm_release_ref refs)"
      "addon_ptr.lies h1 S (gmst_kustomization_ref st1) (mst_kustomization_ref refs)"
    by (elim buildsE) simp
  have conds1: "view_conditions V h1 (gmst_conditions st1) = Some (mst_conditions (m_status m))"
    "set (reach_conditions V h1 (gmst_conditions st1)) = A"
    using conditions_copy.view_frame [OF conds0 run(2)] by (simp_all add: st1(3) A_def)
  from set_sort_in_place [OF conds1(1) types, of c] obtain sl3 h3 where
    sort: "mem_bind (set_condition F c (gmst_conditions st1)) (sort_by_type F) h1 = Some (sl3, h3)"
      "changes_only A h1 h3"
    and sl3: "view_conditions V h3 sl3 =
        Some (sort_conditions (k_set_status_condition K c (mst_conditions (m_status m))))"
      "set (reach_conditions V h3 sl3) \<subseteq> A \<union> {length h1..}"
    by (auto simp: in_place_def conds1(2))
  let ?st = "st1\<lparr> gmst_conditions := sl3 \<rparr>"
  have "new_status_module X F (\<lambda>ns. observeFluxResourceStatus K m mt ns s) v tv h = Some (?st, h3)"
    using copy run(1) sort(1) gens
    by (simp add: new_status_module_def ns obs mem_return_def c_def flip: mem_bind_assoc)
  moreover have "changes_only {} h h1" by (rule grows_trans [OF changes_only_append run(2)])
  then have "changes_only {} h h3"
    by (rule changes_only_trans [OF _ sort(2)]) (use A in fastforce)
  moreover have ptrs3: "addon_ptr.lies h3 S (gmst_helm_release_ref ?st) (mst_helm_release_ref refs)"
    "addon_ptr.lies h3 S (gmst_kustomization_ref ?st) (mst_kustomization_ref refs)"
    using addon_ptr.lies_frame [OF ptrs(1) sort(2)] addon_ptr.lies_frame [OF ptrs(2) sort(2)]
    by (auto simp: S_def)
  have "set (reach_conditions V h3 sl3) \<subseteq> {length h..}"
    using sl3(2) A changes_only_length [OF run(2)] by fastforce
  with ptrs3 sl3(1) st1 have "module_status_copy.lies h3 {length h..} ?st (updated_status_module K m mt s)"
    unfolding module_status_copy.lies_def updated_status_module_parts [OF obs]
    by (auto simp: addon_ptr.lies_def view_module_status_iff reach_module_status_parts S_def c_def refs_def)
  then have "module_status_copy.placed h3 (length h) (length h3) ?st (updated_status_module K m mt s)"
    by (rule module_status_copy.lies_placed)
  ultimately show ?thesis by blast
qed

lemma updateStatus_module_in_memory:
  assumes v: "load as_ModuleCell h a = Some v" "view_module V h v = Some (t, m)"
    and tv: "view_template V h tv = Some (tt, mt, ts)"
    and a: "a \<notin> set (reach_module V h v)" and types: "distinct (map cond_type (mst_conditions (m_status m)))"
  shows "\<exists>base h'. updateStatus_module_memory X F deep_equal (\<lambda>ns. observeFluxResourceStatus K m mt ns s) a tv h =
      Some (base, h') \<and> changes_only {a} h h'
    \<and> (if same_status (m_status m) (updated_status_module K m mt s) then base = None
       else (\<exists>b. base = Some b \<and> module_at V h' b = Some (t, m)
         \<and> module_at V h' a = Some (t, m\<lparr> m_status := updated_status_module K m mt s \<rparr>)))"
proof -
  obtain st h1 where new:
    "new_status_module X F (\<lambda>ns. observeFluxResourceStatus K m mt ns s) v tv h = Some (st, h1)" "changes_only {} h h1"
    and st: "module_status_copy.placed h1 (length h) (length h1) st (updated_status_module K m mt s)"
    using new_status_module_memory [OF v(2) tv types] by blast
  have "view_module V h1 v = Some (t, m)"
    by (rule module_object.obj.view_frame(1) [OF v(2) new(2)]) simp
  then have eq: "deep_equal (gm_status v) st h1 = same_status (m_status m) (updated_status_module K m mt s)"
    using st by (intro deep_equal) (simp_all add: view_module_iff module_status_copy.placed_def)
  show ?thesis
  proof (cases "same_status (m_status m) (updated_status_module K m mt s)")
    case True
    with new eq v(1) changes_only_mono [OF new(2), of "{a}"] show ?thesis
      by (simp add: updateStatus_module_memory_def)
  next
    case False
    obtain b h2 h3 where "DeepCopy_Module X (Some a) h1 = Some (Some b, h2)"
      and "store_field as_ModuleCell ModuleCell (\<lambda>m. m\<lparr> gm_status := st \<rparr>) a h2 = Some ((), h3)"
      and "changes_only {a} h h3" and "module_at V h3 b = Some (t, m)"
      and "module_at V h3 a = Some (t, m\<lparr> m_status := updated_status_module K m mt s \<rparr>)"
      using module_object.store_status [OF v a new(2) st]
      unfolding DeepCopy_Module_def apsnd_conv by metis
    with v(1) new(1) eq False show ?thesis by (simp add: updateStatus_module_memory_def mem_return_def)
  qed
qed

lemma setReadyConditionFalse_module_in_memory:
  assumes v: "load as_ModuleCell h a = Some v" "view_module V h v = Some (t, m)"
    and tree: "distinct (a # reach_module V h v)"
  shows "\<exists>b h'. setReadyConditionFalse_module_memory X F a reason message h = Some (Some b, h')
    \<and> changes_only (insert a (set (reach_module V h v))) h h' \<and> module_at V h' b = Some (t, m)
    \<and> module_at V h' a = Some (t, m\<lparr> m_status := ready_false_status_module K m reason message \<rparr>)"
proof -
  let ?c = "ready_condition ConditionFalse reason message (meta_generation (m_meta m))"
  let ?cs = "k_set_status_condition K ?c (mst_conditions (m_status m))"
  have gen: "generation_of F (gm_meta v) = meta_generation (m_meta m)"
    using v(2) generation by (auto simp: view_module_iff)
  have conds: "view_conditions V h (gmst_conditions (gm_status v)) = Some (mst_conditions (m_status m))"
    using v(2) by (simp add: view_module_iff view_module_status_iff)
  obtain b h1 sl h2 h3 where run: "DeepCopy_Module X (Some a) h = Some (Some b, h1)"
      "load as_ModuleCell h1 a = Some v" "set_condition F ?c (gmst_conditions (gm_status v)) h1 = Some (sl, h2)"
      "store_field as_ModuleCell ModuleCell (put_module_conditions sl (meta_generation (m_meta m))) a h2 = Some ((), h3)"
    and "changes_only (insert a (set (reach_module V h v))) h h3" "module_at V h3 b = Some (t, m)"
      "module_at V h3 a = Some (with_module_conditions ?cs (meta_generation (m_meta m)) (t, m))"
    using module_object.copy_then_change [OF v tree set_in_place [of _ _ "mst_conditions (m_status m)" ?c] conds,
        of "meta_generation (m_meta m)"] conds
    unfolding DeepCopy_Module_def by metis
  then show ?thesis
    by (simp add: setReadyConditionFalse_module_memory_def gen mem_return_def with_module_conditions_def
        ready_false_status_module_def)
qed

text \<open>On a copy, both leave everything that was there before as it was.\<close>

lemma updateStatus_module_on_copy:
  assumes c: "module_at V h c = Some (t, m)" and tv: "view_template V h tv = Some (tt, mt, ts)"
    and types: "distinct (map cond_type (mst_conditions (m_status m)))"
  shows "builds (on_copy (DeepCopy_Module X (Some c))
      (\<lambda>b. updateStatus_module_memory X F deep_equal (\<lambda>ns. observeFluxResourceStatus K m mt ns s) b tv)) h
    (\<lambda>h' base. module_at V h' c = Some (t, m))"
proof -
  obtain v where v: "load as_ModuleCell h c = Some v" "view_module V h v = Some (t, m)"
    using c by (auto simp: seen_at_iff)
  show ?thesis
    unfolding DeepCopy_Module_def
  proof (rule module_object.on_copy_builds [OF v], goal_cases)
    case (1 b e v')
    then show ?case
      using updateStatus_module_in_memory [OF 1(1,2)
          deep_copyable.view_append(1) [OF template_copyable tv] _ types, of s]
      by (fastforce intro: changes_only_mono)
  qed
qed

lemma setReadyConditionFalse_module_on_copy:
  assumes c: "module_at V h c = Some (t, m)"
  shows "builds (on_copy (DeepCopy_Module X (Some c)) (\<lambda>b. setReadyConditionFalse_module_memory X F b reason message)) h
    (\<lambda>h' base. module_at V h' c = Some (t, m))"
proof -
  obtain v where v: "load as_ModuleCell h c = Some v" "view_module V h v = Some (t, m)"
    using c by (auto simp: seen_at_iff)
  show ?thesis
    unfolding DeepCopy_Module_def
    by (rule module_object.on_copy_builds [OF v])
      (use setReadyConditionFalse_module_in_memory in blast)
qed

end

end
