(* ===== verification/Mem_Conditions.thy ===== *)
theory Mem_Conditions
  imports Status_Memory Module_Status_Memory Module_Properties
begin

text \<open>
  Memory in which the contracts of the library functions on conditions hold, and the sample
  objects of both controllers in it.
\<close>

section \<open>Conditions in memory\<close>

text \<open>
  A slice of conditions is rewritten where it is when the length stays the same, and otherwise
  put into a new array (as \<open>append\<close> does without spare capacity).
\<close>

definition ext_condition :: "condition \<Rightarrow> ext" where
  "ext_condition c = \<lparr> ext_head = ConditionPayload c, ext_ref = None \<rparr>"

definition rewrite_conditions :: "(condition list \<Rightarrow> condition list) \<Rightarrow> slice \<Rightarrow> (ext cell, slice) mem_op" where
  "rewrite_conditions f sl h =
     (case view_conditions mem_views h sl of
        None \<Rightarrow> None
      | Some cs \<Rightarrow>
          (let es = map ext_condition (f cs) in
           case sl of
             Slice a off n \<Rightarrow>
               if length es = n
               then (case load as_ImportedArray h a of
                       None \<Rightarrow> None
                     | Some xs \<Rightarrow> Some (sl, h[a := ImportedArray (take off xs @ es @ drop (off + n) xs)]))
               else mem_bind (alloc (ImportedArray es)) (\<lambda>b. mem_return (Slice b 0 (length es))) h
           | NilSlice \<Rightarrow>
               if es = [] then Some (sl, h)
               else mem_bind (alloc (ImportedArray es)) (\<lambda>b. mem_return (Slice b 0 (length es))) h))"

definition mem_condition_methods :: "ext condition_methods" where
  "mem_condition_methods =
     \<lparr> name_of = (\<lambda>x. case ext_head x of MetaPayload m \<Rightarrow> meta_name m | _ \<Rightarrow> ''''),
       generation_of = (\<lambda>x. case ext_head x of MetaPayload m \<Rightarrow> meta_generation m | _ \<Rightarrow> 0),
       set_condition = (\<lambda>c. rewrite_conditions (mem_set_status_condition c)),
       sort_by_type = rewrite_conditions sort_conditions \<rparr>"

lemma view_ext_conditions [simp]:
  "view_list (view_Condition mem_views) h (map ext_condition cs) = Some cs"
  "reach_list (imported_reach mem_views) h (map ext_condition cs) = []"
  by (induction cs) (simp_all add: mem_views_def decoded_def view_ext_def reach_ext_def ext_condition_def
      view_struct_def view_field_def view_ptr_def reach_field_def reach_ptr_def)

lemma new_conditions_in_place:
  assumes "f sl h = Some (Slice (length h) 0 (length cs), h @ [ImportedArray (map ext_condition cs)])"
  shows "in_place mem_views f h sl cs"
  unfolding in_place_def using assms
  by (intro exI conjI) (auto simp: view_slice_def reach_slice_def elements_def)

lemma rewrite_in_place:
  assumes view: "view_conditions mem_views h sl = Some cs"
  shows "in_place mem_views (rewrite_conditions f) h sl (f cs)"
proof (cases sl)
  case NilSlice
  then show ?thesis
  proof (cases "f cs = []")
    case True
    with NilSlice view show ?thesis
      unfolding in_place_def
      by (intro exI [of _ NilSlice] exI [of _ h])
        (simp add: rewrite_conditions_def view_slice_def elements_def reach_slice_def)
  next
    case False
    with NilSlice view show ?thesis
      by (intro new_conditions_in_place) (simp add: rewrite_conditions_def alloc_def mem_bind_def mem_return_def)
  qed
next
  case (Slice a off n)
  obtain xs where xs: "load as_ImportedArray h a = Some xs" "off + n \<le> length xs"
    using view Slice by (auto simp: view_slice_def elements_def split: option.splits if_splits)
  have a: "a < length h" using xs(1) by (rule load_bound)
  show ?thesis
  proof (cases "length (f cs) = n")
    case True
    let ?ys = "take off xs @ map ext_condition (f cs) @ drop (off + n) xs"
    have "rewrite_conditions f sl h = Some (sl, h[a := ImportedArray ?ys])"
      using view Slice xs True by (simp add: rewrite_conditions_def Let_def)
    moreover have "elements as_ImportedArray (h[a := ImportedArray ?ys]) sl = Some (map ext_condition (f cs))"
      using Slice a xs(2) True by (simp add: elements_def load_def cell_at_update)
    ultimately show ?thesis
      unfolding in_place_def
      by (intro exI conjI) (auto simp: Slice view_slice_def reach_slice_def changes_only_def cell_at_update)
  next
    case False
    with Slice view show ?thesis
      by (intro new_conditions_in_place) (simp add: rewrite_conditions_def alloc_def mem_bind_def mem_return_def)
  qed
qed

lemma mem_object_meta:
  assumes "view_ObjectMeta mem_views h om = Some m"
  shows "name_of mem_condition_methods om = meta_name m"
    and "generation_of mem_condition_methods om = meta_generation m"
  using assms
  by (auto simp: mem_views_def mem_condition_methods_def decoded_def view_ext_def view_struct_def view_field_def
      split: option.splits elim!: decode_meta.elims)

interpretation mem_conditions: condition_memory mem_methods mem_views "mem_kube L" mem_condition_methods for L
  by unfold_locales
    (simp_all add: mem_object_meta, simp_all add: mem_condition_methods_def rewrite_in_place)

text \<open>\<open>DeepEqual\<close> compares what is seen.\<close>

definition mem_workspace_status_equal :: "go_workspace_status \<Rightarrow> go_workspace_status \<Rightarrow> ext cell heap \<Rightarrow> bool" where
  "mem_workspace_status_equal a b h =
     (view_workspace_status mem_views h a = view_workspace_status mem_views h b)"

definition mem_module_status_equal :: "go_module_status \<Rightarrow> go_module_status \<Rightarrow> ext cell heap \<Rightarrow> bool" where
  "mem_module_status_equal a b h = (view_module_status mem_views h a = view_module_status mem_views h b)"

interpretation mem_status: status_memory mem_methods mem_views "mem_kube L" mem_condition_methods
  mem_workspace_status_equal "(=)" for L
  by unfold_locales (simp add: mem_workspace_status_equal_def)

interpretation mem_module_status: module_status_memory mem_methods mem_views "mem_kube L" mem_condition_methods
  mem_module_status_equal "(=)" for L
  by unfold_locales (simp add: mem_module_status_equal_def)

section \<open>Objects in memory\<close>

text \<open>The sample Workspace, and a Module with the template it refers to, which both hold references.\<close>

lemma team_at:
  "object_at mem_views team_heap 0 = Some (fst team_seen, snd team_seen)"
  using team_in_memory by (simp add: seen_at_ptr)

lemma team_unshared: "unshared as_WorkspaceCell (reach_workspace mem_views) team_heap 0"
  by (simp add: unshared_def team_heap_def team_struct_def load_def cell_at_def reach_workspace_parts
      reach_status mem_views_def reach_ext_def reach_workspace_spec_def reach_field_def reach_ptr_def
      reach_slice_def elements_def reach_list_def reach_member_def reach_isolation_def payload_cell_def
      as_payload_def reach_flat_def)

definition app_struct :: "ext go_module" where
  "app_struct =
     \<lparr> gm_type_meta = \<lparr> tm_kind = ''Module'', tm_api_version = ''addons.otterscale.io/v1alpha1'' \<rparr>,
       gm_meta = \<lparr> ext_head = MetaPayload app_meta, ext_ref = None \<rparr>,
       gm_spec = \<lparr> gms_template_ref = ''chart'', gms_namespace = None, gms_values = Some 1 \<rparr>,
       gm_status = \<lparr> gmst_observed_generation = 1, gmst_template_generation = 6,
         gmst_helm_release_ref = None, gmst_kustomization_ref = Some 2, gmst_conditions = Slice 3 0 1 \<rparr> \<rparr>"

definition chart_struct :: "ext go_template" where
  "chart_struct =
     \<lparr> gt_type_meta = \<lparr> tm_kind = ''ModuleTemplate'', tm_api_version = ''addons.otterscale.io/v1alpha1'' \<rparr>,
       gt_meta = \<lparr> ext_head = MetaPayload (mt_meta chart), ext_ref = None \<rparr>,
       gt_spec = \<lparr> gts_description = '''', gts_namespace = ''apps'', gts_helm_release = Some 4,
         gts_kustomization = None \<rparr>,
       gt_status = \<lparr> gtst_observed_generation = 7, gtst_conditions = NilSlice \<rparr> \<rparr>"

definition app_heap :: "ext cell heap" where
  "app_heap =
     [ModuleCell app_struct,
      ImportedCell \<lparr> ext_head = TextPayload (JObject [(''replicas'', JNumber 3)]), ext_ref = None \<rparr>,
      AddonReferenceCell \<lparr> ar_name = ''app'', ar_namespace = ''apps'' \<rparr>,
      ImportedArray [\<lparr> ext_head = ConditionPayload ready_now, ext_ref = None \<rparr>],
      HelmTemplateCell \<lparr> gft_spec = \<lparr> ext_head = TextPayload (JObject [(''chart'', JString ''nginx'')]),
        ext_ref = Some 5 \<rparr> \<rparr>,
      payload_cell (TextPayload (JObject []))]"

definition app_kustomized :: module where
  "app_kustomized = app\<lparr> m_status := \<lparr> mst_observed_generation = 1, mst_template_generation = 6,
     mst_helm_release_ref = None,
     mst_kustomization_ref = Some \<lparr> ar_name = ''app'', ar_namespace = ''apps'' \<rparr>,
     mst_conditions = [ready_now] \<rparr> \<rparr>"

lemma app_at: "module_at mem_views app_heap 0 = Some (gm_type_meta app_struct, app_kustomized)"
  by (simp add: seen_at_iff view_module_iff view_module_status_iff)
    (simp add: app_heap_def app_struct_def app_kustomized_def app_def view_defs view_module_spec_def
      mem_views_def decoded_def view_ext_def payload_cell_def as_payload_def)

lemma app_unshared: "unshared as_ModuleCell (reach_module mem_views) app_heap 0"
  by (simp add: unshared_def app_heap_def app_struct_def load_def cell_at_def reach_module_parts
      reach_module_status_parts mem_views_def reach_ext_def reach_module_spec_def reach_field_def
      reach_ptr_def reach_slice_def elements_def reach_list_def reach_flat_def)

lemma chart_in_memory:
  "view_template mem_views app_heap chart_struct =
     Some (gt_type_meta chart_struct, chart, snd (snd (the (view_template mem_views app_heap chart_struct))))"
  by (simp add: view_template_def view_template_spec_def view_template_status_def view_helm_template_def
      app_heap_def chart_struct_def chart_def chart_spec_def blank_template_def view_defs
      mem_views_def decoded_def view_ext_def payload_cell_def as_payload_def)

text \<open>A cache in which a Workspace and the Module have the array of their conditions in common.\<close>

definition shared_struct :: "ext go_workspace" where
  "shared_struct =
     \<lparr> gw_type_meta = \<lparr> tm_kind = ''Workspace'', tm_api_version = ''tenant.otterscale.io/v1alpha1'' \<rparr>,
       gw_meta = \<lparr> ext_head = MetaPayload team_meta, ext_ref = None \<rparr>,
       gw_spec = \<lparr> gws_namespace = ''team-a'', gws_members = NilSlice, gws_resource_quota = None,
         gws_limit_range = None,
         gws_network_isolation = \<lparr> gni_enabled = True, gni_allowed = NilSlice \<rparr> \<rparr>,
       gw_status = \<lparr> gst_observed_generation = 1, gst_namespace_ref = None,
         gst_resource_quota_ref = None, gst_limit_range_ref = None, gst_role_binding_refs = NilSlice,
         gst_peer_authentication_ref = None, gst_authorization_policy_ref = None,
         gst_network_policy_ref = None, gst_conditions = Slice 3 0 1 \<rparr> \<rparr>"

definition shared_heap :: "ext cell heap" where
  "shared_heap = app_heap @ [WorkspaceCell shared_struct]"

definition shared_workspace :: workspace where
  "shared_workspace = team\<lparr> w_spec := (w_spec team)\<lparr> ws_members := [], ws_resource_quota := None,
       ws_limit_range := None, ws_network_isolation := \<lparr> ni_enabled = True, ni_allowed_namespaces = [] \<rparr> \<rparr>,
     w_status := empty_status\<lparr> st_observed_generation := 1, st_conditions := [ready_now] \<rparr> \<rparr>"

lemma shared_at:
  "object_at mem_views shared_heap 6 = Some (gw_type_meta shared_struct, shared_workspace)"
  "module_at mem_views shared_heap 0 = Some (gm_type_meta app_struct, app_kustomized)"
proof -
  show "object_at mem_views shared_heap 6 = Some (gw_type_meta shared_struct, shared_workspace)"
    by (simp add: seen_at_iff view_workspace_iff view_status_iff)
      (simp add: shared_heap_def app_heap_def shared_struct_def shared_workspace_def view_defs
        mem_views_def decoded_def view_ext_def team_defs empty_status_def)
  obtain v where v: "load as_ModuleCell app_heap 0 = Some v" "view_module mem_views app_heap v =
      Some (gm_type_meta app_struct, app_kustomized)"
    using app_at by (auto simp: seen_at_iff)
  with load_unchanged [where A = "{}", OF changes_only_append _ v(1)]
    deep_copyable.view_append(1) [OF mem_imports.module_copyable v(2)]
  show "module_at mem_views shared_heap 0 = Some (gm_type_meta app_struct, app_kustomized)"
    by (simp add: seen_at_iff shared_heap_def)
qed

end
