(* ===== verification/Status_Properties.thy ===== *)
theory Status_Properties
  imports Mem_Conditions
begin

text \<open>
  The status functions over memory refine the ones the controllers are modelled with, and leave
  the cache of the client alone.
\<close>

section \<open>Workspaces\<close>

text \<open>
  C12: The status functions in memory. For a Workspace held in memory, \<open>updateStatus\<close> and
  \<open>setReadyConditionFalse\<close>, written over the heap with their deep copies and their changes in
  place, run without a panic, send the client exactly the patch that the model of the controller
  sends (or none when the status is as before), and write to no existing cell outside of the
  object: neither to the cache of the client nor to the copy the patch is made from.
\<close>

theorem status_in_memory:
  assumes "status_memory X V K F deep_equal (wc_status_equal W)" and "object_at V h a = Some (t, w)"
    and "unshared as_WorkspaceCell (reach_workspace V) h a" and "distinct (map cond_type (st_conditions (w_status w)))"
  shows "(\<exists>base h'. updateStatus_memory X F deep_equal istio a h = Some (base, h') \<and> changes_only {a} h h'
      \<and> updateStatus K W R w istio s =
          (if base = None then (Returns None, s) else after_patch R w (patch_from_memory V W h' base a s)))
    \<and> (\<exists>base h'. setReadyConditionFalse_memory X F a reason message h = Some (base, h')
      \<and> changes_only (cells_of as_WorkspaceCell (reach_workspace V) h a) h h'
      \<and> setReadyConditionFalse K W w reason message s = snd (patch_from_memory V W h' base a s))"
proof -
  obtain v where v: "load as_WorkspaceCell h a = Some v" "view_workspace V h v = Some (t, w)"
    and tree: "distinct (a # reach_workspace V h v)"
    using assms(2,3) by (auto simp: seen_at_iff unshared_def)
  have "\<exists>base h'. updateStatus_memory X F deep_equal istio a h = Some (base, h') \<and> changes_only {a} h h'
      \<and> updateStatus K W R w istio s =
          (if base = None then (Returns None, s) else after_patch R w (patch_from_memory V W h' base a s))"
    using status_memory.updateStatus_in_memory [OF assms(1) v _ assms(4), of istio] tree
    by (fastforce simp: updateStatus_def Let_def patch_from_memory_def after_patch_def split: if_splits)
  moreover have "\<exists>base h'. setReadyConditionFalse_memory X F a reason message h = Some (base, h')
      \<and> changes_only (cells_of as_WorkspaceCell (reach_workspace V) h a) h h'
      \<and> setReadyConditionFalse K W w reason message s = snd (patch_from_memory V W h' base a s)"
    using status_memory.setReadyConditionFalse_in_memory [OF assms(1) v tree, of reason message]
    by (fastforce simp: setReadyConditionFalse_def patch_from_memory_def cells_of_def v(1)
        split: prod.split)
  ultimately show ?thesis by blast
qed

text \<open>The sample Workspace in memory, whose status says that it was ready in an earlier generation.\<close>

theorem status_in_memory_witness:
  "\<exists>base h'. updateStatus_memory mem_methods mem_condition_methods mem_workspace_status_equal True 0 team_heap =
       Some (base, h')
     \<and> changes_only {0} team_heap h'
     \<and> updateStatus (mem_kube all_kinds) mem_wc mem_rec (snd team_seen) True team_cluster =
         (if base = None then (Returns None, team_cluster)
          else after_patch mem_rec (snd team_seen) (patch_from_memory mem_views mem_wc h' base 0 team_cluster))"
proof -
  have types: "distinct (map cond_type (st_conditions (w_status (snd team_seen))))"
    by (simp add: team_seen_def)
  have same: "wc_status_equal mem_wc = (=)" by (simp add: fun_eq_iff)
  show ?thesis
    using status_in_memory [OF mem_status.status_memory_axioms [of all_kinds, folded same] team_at
        team_unshared types]
    by blast
qed

section \<open>Modules\<close>

text \<open>
  C13: The status functions of the Module controller in memory. Whatever the template asks for,
  and whichever references the status held before, they run without a panic, send the client
  exactly the patch that the model of the controller sends (or none when the status is as before),
  and write to no existing cell outside of the Module: the template is only read.
\<close>

theorem module_status_in_memory:
  assumes "module_status_memory X V K F deep_equal (mc_status_equal M)" and "module_at V h a = Some (t, m)"
    and "view_template V h tv = Some (tt, mt, ts)"
    and "unshared as_ModuleCell (reach_module V) h a" and "distinct (map cond_type (mst_conditions (m_status m)))"
  shows "(\<exists>base h'. updateStatus_module_memory X F deep_equal (\<lambda>ns. observeFluxResourceStatus K m mt ns s) a tv h =
        Some (base, h') \<and> changes_only {a} h h'
      \<and> updateStatus_module K M R m mt s =
          (if base = None then (Returns None, s) else after_module_patch R m (patch_module_from_memory V M h' base a s)))
    \<and> (\<exists>base h'. setReadyConditionFalse_module_memory X F a reason message h = Some (base, h')
      \<and> changes_only (cells_of as_ModuleCell (reach_module V) h a) h h'
      \<and> setReadyConditionFalse_module K M m reason message s = snd (patch_module_from_memory V M h' base a s))"
proof -
  obtain v where v: "load as_ModuleCell h a = Some v" "view_module V h v = Some (t, m)"
    and tree: "distinct (a # reach_module V h v)"
    using assms(2,4) by (auto simp: seen_at_iff unshared_def)
  have "\<exists>base h'. updateStatus_module_memory X F deep_equal (\<lambda>ns. observeFluxResourceStatus K m mt ns s) a tv h =
        Some (base, h') \<and> changes_only {a} h h'
      \<and> updateStatus_module K M R m mt s =
          (if base = None then (Returns None, s) else after_module_patch R m (patch_module_from_memory V M h' base a s))"
    using module_status_memory.updateStatus_module_in_memory [OF assms(1) v assms(3) _ assms(5), of s] tree
    by (fastforce simp: updateStatus_module_def Let_def patch_module_from_memory_def after_module_patch_def
        split: if_splits)
  moreover have "\<exists>base h'. setReadyConditionFalse_module_memory X F a reason message h = Some (base, h')
      \<and> changes_only (cells_of as_ModuleCell (reach_module V) h a) h h'
      \<and> setReadyConditionFalse_module K M m reason message s = snd (patch_module_from_memory V M h' base a s)"
    using module_status_memory.setReadyConditionFalse_module_in_memory [OF assms(1) v tree, of reason message]
    by (fastforce simp: setReadyConditionFalse_module_def patch_module_from_memory_def cells_of_def v(1)
        split: prod.split)
  ultimately show ?thesis by blast
qed

text \<open>The sample Module, that was a Kustomization before and whose template now has a HelmRelease.\<close>

theorem module_status_in_memory_witness:
  "\<exists>base h'. updateStatus_module_memory mem_methods mem_condition_methods mem_module_status_equal
       (\<lambda>ns. observeFluxResourceStatus (mem_kube all_kinds) app_kustomized chart ns app_cluster) 0 chart_struct app_heap =
       Some (base, h')
     \<and> changes_only {0} app_heap h'
     \<and> updateStatus_module (mem_kube all_kinds) mem_mc mem_rec app_kustomized chart app_cluster =
         (if base = None then (Returns None, app_cluster)
          else after_module_patch mem_rec app_kustomized
            (patch_module_from_memory mem_views mem_mc h' base 0 app_cluster))"
proof -
  have types: "distinct (map cond_type (mst_conditions (m_status app_kustomized)))"
    by (simp add: app_kustomized_def)
  have same: "mc_status_equal mem_mc = (=)" by (simp add: fun_eq_iff)
  show ?thesis
    using module_status_in_memory [OF mem_module_status.module_status_memory_axioms [of all_kinds, folded same]
        app_at chart_in_memory app_unshared types]
    by blast
qed

section \<open>The cache of the client\<close>

text \<open>
  C14: Objects in the cache are never changed. The client hands out deep copies of the objects in
  its cache; whatever those objects share with each other, the status functions of both
  controllers, run on such a copy, do not panic and change no cell that existed before the copy
  was made, so that the object in the cache is seen as it was.
\<close>

theorem cached_objects_unchanged:
  assumes W: "status_memory X V K F ws_equal ws_same" and M: "module_status_memory X V K F m_equal m_same"
    and w: "object_at V h c = Some (t, w)" "distinct (map cond_type (st_conditions (w_status w)))"
    and m: "module_at V h d = Some (u, m)" "distinct (map cond_type (mst_conditions (m_status m)))"
    and tv: "view_template V h tv = Some (tt, mt, ts)"
  shows "builds (on_copy (DeepCopy_Workspace X (Some c)) (updateStatus_memory X F ws_equal istio)) h
      (\<lambda>h' base. object_at V h' c = Some (t, w))
    \<and> builds (on_copy (DeepCopy_Workspace X (Some c)) (\<lambda>b. setReadyConditionFalse_memory X F b reason message)) h
      (\<lambda>h' base. object_at V h' c = Some (t, w))
    \<and> builds (on_copy (DeepCopy_Module X (Some d))
        (\<lambda>b. updateStatus_module_memory X F m_equal (\<lambda>ns. observeFluxResourceStatus K m mt ns s) b tv)) h
      (\<lambda>h' base. module_at V h' d = Some (u, m))
    \<and> builds (on_copy (DeepCopy_Module X (Some d)) (\<lambda>b. setReadyConditionFalse_module_memory X F b reason message)) h
      (\<lambda>h' base. module_at V h' d = Some (u, m))"
  using status_memory.updateStatus_on_copy [OF W w] status_memory.setReadyConditionFalse_on_copy [OF W w(1)]
    module_status_memory.updateStatus_module_on_copy [OF M m(1) tv m(2)]
    module_status_memory.setReadyConditionFalse_module_on_copy [OF M m(1)]
  by (intro conjI)

theorem cached_objects_unchanged_witness:
  "builds (on_copy (DeepCopy_Workspace mem_methods (Some 6))
      (\<lambda>b. setReadyConditionFalse_memory mem_methods mem_condition_methods b ''NamespaceConflict'' '''')) shared_heap
      (\<lambda>h' base. object_at mem_views h' 6 = Some (gw_type_meta shared_struct, shared_workspace))
    \<and> builds (on_copy (DeepCopy_Module mem_methods (Some 0))
      (\<lambda>b. setReadyConditionFalse_module_memory mem_methods mem_condition_methods b ''TemplateNotFound'' '''')) shared_heap
      (\<lambda>h' base. module_at mem_views h' 0 = Some (gm_type_meta app_struct, app_kustomized))"
proof -
  have types: "distinct (map cond_type (st_conditions (w_status shared_workspace)))"
    "distinct (map cond_type (mst_conditions (m_status app_kustomized)))"
    by (simp_all add: shared_workspace_def app_kustomized_def)
  have tv: "view_template mem_views shared_heap chart_struct =
      Some (gt_type_meta chart_struct, chart, snd (snd (the (view_template mem_views app_heap chart_struct))))"
    unfolding shared_heap_def
    by (rule deep_copyable.view_append(1) [OF mem_imports.template_copyable chart_in_memory])
  show ?thesis
    using cached_objects_unchanged [OF mem_status.status_memory_axioms [of all_kinds]
        mem_module_status.module_status_memory_axioms shared_at(1) types(1) shared_at(2) types(2) tv]
    by blast
qed

end
