(* ===== verification/Module_Stale.thy ===== *)
theory Module_Stale
  imports Module_Properties
begin

text \<open>
  The finalizer patches when the Module was read from a cache that is behind. A patch made by
  \<open>client.MergeFrom\<close> is a JSON merge patch without the resource version: it is applied to
  whatever is stored, and a list in it (the finalizers) replaces the stored list as a whole.
\<close>

text \<open>
  The metadata patch on any stored state of the Module; for a Module that was not changed since
  it was read this is the law that \<open>module_store\<close> has already.
\<close>

locale merge_patch_store = module_store K view dflt M mod_view tmpl_view emit
  for K :: "'s kube"
    and view :: "'s \<Rightarrow> key \<Rightarrow> kobject option"
    and dflt :: "obj_spec \<Rightarrow> obj_spec"
    and M :: "'s module_client"
    and mod_view :: "'s \<Rightarrow> string \<Rightarrow> module option"
    and tmpl_view :: "'s \<Rightarrow> string \<Rightarrow> module_template option"
    and emit :: "event \<Rightarrow> 's \<Rightarrow> 's" +
  assumes merge_patch:
    "mc_patch M m (m\<lparr> m_meta := (m_meta m)\<lparr> meta_finalizers := fs \<rparr> \<rparr>) s = (Inr m2, s') \<Longrightarrow>
       fs \<noteq> meta_finalizers (m_meta m) \<Longrightarrow> mod_view s (m_name m) = Some x \<Longrightarrow>
       mod_view s' = (mod_view s)(m_name m :=
         (if deletion_timestamp (m_meta x) \<noteq> None \<and> fs = [] then None
          else Some (x\<lparr> m_meta := (m_meta x)\<lparr> meta_finalizers := fs \<rparr> \<rparr>)))"
begin

text \<open>What is stored after a finalizer has been added to, or removed from, what was read.\<close>

lemma ensure_finalizer_stale:
  assumes "ensure_finalizer K M m s = (Inr m2, s')" and "\<not> has_module_finalizer m"
    and "mod_view s (m_name m) = Some x"
  shows "\<exists>y. mod_view s' (m_name m) = Some y
    \<and> set (meta_finalizers (m_meta y)) = insert ModuleFinalizer (set (meta_finalizers (m_meta m)))"
proof -
  let ?fs = "meta_finalizers (k_add_finalizer K (m_meta m) ModuleFinalizer)"
  have fs: "set ?fs = insert ModuleFinalizer (set (meta_finalizers (m_meta m)))" by (rule add_finalizer(2))
  then have "?fs \<noteq> meta_finalizers (m_meta m)" using assms(2) unfolding has_module_finalizer_def by auto
  moreover have "mc_patch M m (m\<lparr> m_meta := (m_meta m)\<lparr> meta_finalizers := ?fs \<rparr> \<rparr>) s = (Inr m2, s')"
    using assms(1,2) add_finalizer(1) [of "m_meta m" ModuleFinalizer]
    by (simp add: ensure_finalizer_def contains_has)
  ultimately have "mod_view s' = (mod_view s)(m_name m :=
      (if deletion_timestamp (m_meta x) \<noteq> None \<and> ?fs = [] then None
       else Some (x\<lparr> m_meta := (m_meta x)\<lparr> meta_finalizers := ?fs \<rparr> \<rparr>)))"
    using assms(3) by (intro merge_patch) simp_all
  with fs show ?thesis by auto
qed

lemma reconcileDelete_stale:
  assumes "reconcileDelete K M m s = (None, s')" and "has_module_finalizer m"
    and "mod_view s (m_name m) = Some x"
  shows "case mod_view s' (m_name m) of
      None \<Rightarrow> deletion_timestamp (m_meta x) \<noteq> None \<and> set (meta_finalizers (m_meta m)) \<subseteq> {ModuleFinalizer}
    | Some y \<Rightarrow> set (meta_finalizers (m_meta y)) = set (meta_finalizers (m_meta m)) - {ModuleFinalizer}
        \<and> (deletion_timestamp (m_meta x) \<noteq> None \<longrightarrow> meta_finalizers (m_meta y) \<noteq> [])"
proof -
  define om where "om = k_remove_finalizer K (m_meta m) ModuleFinalizer"
  have om: "(m_meta m)\<lparr> meta_finalizers := meta_finalizers om \<rparr> = om"
    unfolding om_def by (rule remove_finalizer(1) [symmetric])
  have fs: "set (meta_finalizers om) = set (meta_finalizers (m_meta m)) - {ModuleFinalizer}"
    unfolding om_def by (rule remove_finalizer(2))
  then have ne: "meta_finalizers om \<noteq> meta_finalizers (m_meta m)"
    using assms(2) by (metis Diff_iff insertI1 has_module_finalizer_def)
  obtain t m2 where cleanup: "cleanup_flux K m (resolveCleanupNamespace K M m s) s = (None, t)"
    and "mc_patch M m (m\<lparr> m_meta := om \<rparr>) t = (Inr m2, s')"
    using assms(1,2) unfolding reconcileDelete_def contains_has om_def [symmetric]
    by (auto split: prod.splits option.splits sum.splits)
  then have patch: "mc_patch M m (m\<lparr> m_meta := (m_meta m)\<lparr> meta_finalizers := meta_finalizers om \<rparr> \<rparr>) t = (Inr m2, s')"
    by (simp add: om)
  have "mod_view t (m_name m) = Some x" unfolding cleanup_modules [OF cleanup] by (rule assms(3))
  note view = merge_patch [OF patch ne this]
  show ?thesis
  proof (cases "deletion_timestamp (m_meta x) \<noteq> None \<and> meta_finalizers om = []")
    case True
    then have "set (meta_finalizers (m_meta m)) \<subseteq> {ModuleFinalizer}" using fs by fastforce
    with True view show ?thesis by simp
  next
    case False
    with view have "mod_view s' (m_name m) =
        Some (x\<lparr> m_meta := (m_meta x)\<lparr> meta_finalizers := meta_finalizers om \<rparr> \<rparr>)"
      by (simp only: if_False fun_upd_same)
    moreover have "deletion_timestamp (m_meta x) \<noteq> None \<longrightarrow> meta_finalizers om \<noteq> []"
      using False by blast
    ultimately show ?thesis by (simp add: fs del: not_None_eq)
  qed
qed

end

lemma mem_patch_module_stale:
  assumes "mem_patch_module m (m\<lparr> m_meta := (m_meta m)\<lparr> meta_finalizers := fs \<rparr> \<rparr>) s = (Inr m2, s')"
    and "mem_mod s (m_name m) = Some x"
  shows "mem_mod s' = (mem_mod s)(m_name m :=
    (if deletion_timestamp (m_meta x) \<noteq> None \<and> fs = [] then None
     else Some (x\<lparr> m_meta := (m_meta x)\<lparr> meta_finalizers := fs \<rparr> \<rparr>)))"
  using assms mem_mod_name [OF assms(2)]
  by (auto simp: mem_patch_module_def Let_def mem_mod_def fun_eq_iff keyed_put keyed_drop)

interpretation mem_merge: merge_patch_store "mem_kube L" "mem_view L" mem_default mem_mc mem_mod mem_tmpl mem_emit
  for L
  by (unfold_locales, unfold mc_simps) (rule mem_patch_module_stale)

text \<open>
  C40: Lost finalizers. Let a Module be read from a cache that has not yet seen a finalizer that
  another controller put on it. The pass that adds the operator's finalizer takes the other one
  off; and the pass over a deleted Module, when it is done, leaves it without the other
  finalizer, so that it is gone at once if it had none besides, although the controller
  that asked to be waited for has not acted.
\<close>

theorem finalizers_lost_on_stale_read:
  assumes "merge_patch_store K view dflt M mod_view tmpl_view emit"
    and "mod_view s (m_name m) = Some x"
    and "f \<in> set (meta_finalizers (m_meta x))" and "f \<notin> set (meta_finalizers (m_meta m))"
    and "f \<noteq> ModuleFinalizer"
  shows "(\<not> has_module_finalizer m \<and> ensure_finalizer K M m s = (Inr m2, s1) \<longrightarrow>
      (\<exists>y. mod_view s1 (m_name m) = Some y \<and> has_module_finalizer y \<and> f \<notin> set (meta_finalizers (m_meta y))))
    \<and> (has_module_finalizer m \<and> reconcileDelete K M m s = (None, s2) \<longrightarrow>
      (\<forall>y. mod_view s2 (m_name m) = Some y \<longrightarrow> f \<notin> set (meta_finalizers (m_meta y)))
      \<and> (meta_finalizers (m_meta m) = [ModuleFinalizer] \<and> deletion_timestamp (m_meta x) \<noteq> None \<longrightarrow>
          mod_view s2 (m_name m) = None))"
  using merge_patch_store.ensure_finalizer_stale [OF assms(1) _ _ assms(2), of m2 s1]
    merge_patch_store.reconcileDelete_stale [OF assms(1) _ _ assms(2), of s2] assms(3-5)
  by (auto simp: has_module_finalizer_def split: option.splits)

text \<open>Somebody holds the sample Module back with a finalizer that the cache has not seen.\<close>

definition held :: "module \<Rightarrow> module" where
  "held m = m\<lparr> m_meta := (m_meta m)\<lparr> meta_finalizers := meta_finalizers (m_meta m) @ [''example.com/hold''] \<rparr> \<rparr>"

theorem finalizers_lost_on_stale_read_witness:
  "mem_mod (deleting_cluster\<lparr> mem_modules := [held app_deleted] \<rparr>) ''app'' = Some (held app_deleted)
   \<and> mem_mod (snd (reconcileDelete (mem_kube all_kinds) mem_mc app_deleted
       (deleting_cluster\<lparr> mem_modules := [held app_deleted] \<rparr>))) ''app'' = None"
proof -
  let ?s = "deleting_cluster\<lparr> mem_modules := [held app_deleted] \<rparr>"
  have app: "m_name app_deleted = ''app''" "deletion_timestamp (m_meta (held app_deleted)) \<noteq> None"
    "meta_finalizers (m_meta app_deleted) = [ModuleFinalizer]" "has_module_finalizer app_deleted"
    by (simp_all add: app_deleted_def app_fin_def held_def has_module_finalizer_def app_meta_def)
  have stored: "mem_mod ?s (m_name app_deleted) = Some (held app_deleted)"
    by (simp add: mem_mod_def keyed_def held_def app_deleted_def)
  have "fst (reconcileDelete (mem_kube all_kinds) mem_mc app_deleted ?s) = None" by code_simp
  then obtain s2 where run: "reconcileDelete (mem_kube all_kinds) mem_mc app_deleted ?s = (None, s2)"
    by (metis prod.collapse)
  have "''example.com/hold'' \<noteq> ModuleFinalizer" by (simp add: ModuleFinalizer_def)
  with finalizers_lost_on_stale_read [OF mem_merge.merge_patch_store_axioms [of all_kinds] stored,
      of "''example.com/hold''" _ _ s2] app run
  show ?thesis using stored by (simp add: held_def)
qed

end
