(* ===== verification/Module_Orphans.thy ===== *)
theory Module_Orphans
  imports Module_Properties
begin

text \<open>
  What becomes of a Flux resource when the Module or its template asks for another one: the
  reconciler records only the new one, and the clean-up deletes only what is recorded.
\<close>

section \<open>What a reconciliation records\<close>


section \<open>Orphans\<close>


section \<open>A sample\<close>

text \<open>The user deletes the Module: the API server sets the deletion timestamp.\<close>

definition mark_deleted :: "mem \<Rightarrow> mem" where
  "mark_deleted s = s\<lparr> mem_modules :=
     map (\<lambda>m. m\<lparr> m_meta := (m_meta m)\<lparr> deletion_timestamp := Some 9 \<rparr> \<rparr>) (mem_modules s) \<rparr>"

text \<open>The template changes from a HelmRelease to a Kustomization.\<close>

definition chart_kustomized :: module_template where
  "chart_kustomized = chart\<lparr> mt_spec := (mt_spec chart)\<lparr> mts_helm_release := None,
     mts_kustomization := Some (JObject [(''path'', JString ''app'')]) \<rparr> \<rparr>"

definition switched :: mem where
  "switched = snd (app_run (app_done\<lparr> mem_templates := [chart_kustomized] \<rparr>))"

text \<open>The Module is moved to another namespace.\<close>

definition moved :: mem where
  "moved = snd (app_run (app_done\<lparr> mem_modules :=
     map (\<lambda>m. m\<lparr> m_spec := (m_spec m)\<lparr> ms_namespace := Some ''elsewhere'' \<rparr> \<rparr>) (mem_modules app_done) \<rparr>))"

definition live :: "mem \<Rightarrow> key \<Rightarrow> bool" where
  "live s k \<longleftrightarrow> \<not> gone_or_terminating (mem_view all_kinds s) k"

text \<open>
  In both cases the old resource is live next to the new one, and still live once the Module
  is gone.
\<close>

lemma orphans_of_the_sample:
  "live switched (HelmReleaseKind, ''apps'', ''app'')
   \<and> live switched (KustomizationKind, ''apps'', ''app'')
   \<and> live (snd (app_run (mark_deleted switched))) (HelmReleaseKind, ''apps'', ''app'')
   \<and> \<not> live (snd (app_run (mark_deleted switched))) (KustomizationKind, ''apps'', ''app'')
   \<and> mem_modules (snd (app_run (mark_deleted switched))) = []
   \<and> live moved (HelmReleaseKind, ''apps'', ''app'')
   \<and> live moved (HelmReleaseKind, ''elsewhere'', ''app'')
   \<and> live (snd (app_run (mark_deleted moved))) (HelmReleaseKind, ''apps'', ''app'')
   \<and> \<not> live (snd (app_run (mark_deleted moved))) (HelmReleaseKind, ''elsewhere'', ''app'')"
proof (intro conjI)
  show "live switched (HelmReleaseKind, ''apps'', ''app'')" by code_simp
  show "live switched (KustomizationKind, ''apps'', ''app'')" by code_simp
  show "live (snd (app_run (mark_deleted switched))) (HelmReleaseKind, ''apps'', ''app'')" by code_simp
  show "\<not> live (snd (app_run (mark_deleted switched))) (KustomizationKind, ''apps'', ''app'')" by code_simp
  have "length (mem_modules (snd (app_run (mark_deleted switched)))) = 0" by code_simp
  then show "mem_modules (snd (app_run (mark_deleted switched))) = []" by simp
  show "live moved (HelmReleaseKind, ''apps'', ''app'')" by code_simp
  show "live moved (HelmReleaseKind, ''elsewhere'', ''app'')" by code_simp
  show "live (snd (app_run (mark_deleted moved))) (HelmReleaseKind, ''apps'', ''app'')" by code_simp
  show "\<not> live (snd (app_run (mark_deleted moved))) (HelmReleaseKind, ''elsewhere'', ''app'')" by code_simp
qed





end
