(* ===== verification/Interference.thy ===== *)
theory Interference
  imports Mem_Cluster
begin

text \<open>
  Reconciliations that other clients of the API server interrupt. The state of the outside world
  gets a script: what the others do, at every call, before it takes effect and after it, as
  functions on the state; and a log of the calls that the operator makes itself, each with the
  state it met and the state it left. The model of a reconcile function is a function of its
  client, so it runs unchanged against a client that is interrupted in this way.

  A call is one step: controller-runtime sends an update with the version of the object it has
  read, and the API server refuses it when the object has changed in between, as it refuses to
  create an object that is there. Such a refusal is a call that fails and changes nothing.
\<close>

section \<open>Interrupted calls\<close>

record 's busy =
  bz_state :: 's
  bz_others :: "('s \<Rightarrow> 's) list"
  bz_log :: "('s \<times> 's) list"

definition others_act :: "'s busy \<Rightarrow> 's busy" where
  "others_act b =
     (case bz_others b of [] \<Rightarrow> b | e # es \<Rightarrow> b\<lparr> bz_state := e (bz_state b), bz_others := es \<rparr>)"

definition busy_call :: "('s \<Rightarrow> 'r \<times> 's) \<Rightarrow> 's busy \<Rightarrow> 'r \<times> 's busy" where
  "busy_call f b =
     (let b1 = others_act b in
      case f (bz_state b1) of (r, s') \<Rightarrow>
        (r, others_act (b1\<lparr> bz_state := s', bz_log := bz_log b1 @ [(bz_state b1, s')] \<rparr>)))"

definition busy_kube :: "'s kube \<Rightarrow> 's busy kube" where
  "busy_kube K =
     \<lparr> k_get = (\<lambda>k b. k_get K k (bz_state b)),
       k_create_or_update = (\<lambda>ob f. busy_call (k_create_or_update K ob f)),
       k_delete = (\<lambda>k. busy_call (k_delete K k)),
       k_is_not_found = k_is_not_found K, k_is_no_match = k_is_no_match K,
       k_reason_for_error = k_reason_for_error K, k_ignore_not_found = k_ignore_not_found K,
       k_set_controller_reference = k_set_controller_reference K,
       k_set_status_condition = k_set_status_condition K,
       k_find_status_condition = k_find_status_condition K,
       k_contains_finalizer = k_contains_finalizer K, k_add_finalizer = k_add_finalizer K,
       k_remove_finalizer = k_remove_finalizer K \<rparr>"

definition busy_reconciler :: "'s reconciler \<Rightarrow> 's busy reconciler" where
  "busy_reconciler R =
     \<lparr> rec_version = rec_version R,
       rec_recorder = map_option (\<lambda>emit ev b. snd (busy_call (\<lambda>s. ((), emit ev s)) b)) (rec_recorder R) \<rparr>"

definition undisturbed :: "('s \<Rightarrow> 's) list \<Rightarrow> 's \<Rightarrow> 's busy" where
  "undisturbed es s = \<lparr> bz_state = s, bz_others = es, bz_log = [] \<rparr>"

lemma busy_kube_simps [simp]:
  "k_get (busy_kube K) k b = k_get K k (bz_state b)"
  "k_create_or_update (busy_kube K) ob f = busy_call (k_create_or_update K ob f)"
  "k_delete (busy_kube K) k = busy_call (k_delete K k)"
  "k_is_not_found (busy_kube K) = k_is_not_found K" "k_is_no_match (busy_kube K) = k_is_no_match K"
  "k_reason_for_error (busy_kube K) = k_reason_for_error K"
  "k_ignore_not_found (busy_kube K) = k_ignore_not_found K"
  "k_set_controller_reference (busy_kube K) = k_set_controller_reference K"
  "k_set_status_condition (busy_kube K) = k_set_status_condition K"
  "k_find_status_condition (busy_kube K) = k_find_status_condition K"
  "k_contains_finalizer (busy_kube K) = k_contains_finalizer K"
  "k_add_finalizer (busy_kube K) = k_add_finalizer K"
  "k_remove_finalizer (busy_kube K) = k_remove_finalizer K"
  by (simp_all add: busy_kube_def)

lemma busy_reconciler_simps [simp]:
  "rec_version (busy_reconciler R) = rec_version R"
  "rec_recorder (busy_reconciler R) =
     map_option (\<lambda>emit ev b. snd (busy_call (\<lambda>s. ((), emit ev s)) b)) (rec_recorder R)"
  by (simp_all add: busy_reconciler_def)

lemma own_by_busy [simp]: "own_by (busy_kube K) = own_by K"
  by (simp add: fun_eq_iff own_by_def)

lemma busy_call_map:
  "(case busy_call f b of (r, b') \<Rightarrow> (g r, b')) = busy_call (\<lambda>s. case f s of (r, s') \<Rightarrow> (g r, s')) b"
  by (simp add: busy_call_def Let_def split: prod.split)

section \<open>The calls of a run\<close>

definition own_calls :: "'s busy \<Rightarrow> 's busy \<Rightarrow> ('s \<times> 's) list" where
  "own_calls b b' = drop (length (bz_log b)) (bz_log b')"

definition extends :: "'s busy \<Rightarrow> 's busy \<Rightarrow> bool" where
  "extends b b' \<longleftrightarrow> prefix (bz_log b) (bz_log b')"

lemma extends_refl [simp]: "extends b b" "own_calls b b = []"
  by (simp_all add: extends_def own_calls_def)

lemma extends_trans: "extends b b1 \<Longrightarrow> extends b1 b2 \<Longrightarrow> extends b b2"
  unfolding extends_def by (rule prefix_order.trans)

lemma own_calls_append:
  "extends b b1 \<Longrightarrow> extends b1 b2 \<Longrightarrow> own_calls b b2 = own_calls b b1 @ own_calls b1 b2"
  by (auto simp: extends_def own_calls_def prefix_def)

lemma undisturbed_simps [simp]: "bz_state (undisturbed es s) = s" "own_calls (undisturbed es s) b = bz_log b"
  by (simp_all add: own_calls_def undisturbed_def)

lemma others_act_log [simp]: "bz_log (others_act b) = bz_log b"
  by (simp add: others_act_def split: list.split)

lemma busy_call_log:
  assumes "busy_call f b = (r, b')"
  obtains s s' where "f s = (r, s')" "extends b b'" "own_calls b b' = [(s, s')]"
  using assms by (auto simp: busy_call_def Let_def extends_def own_calls_def split: prod.splits)

text \<open>The calls between two states of the log satisfy \<open>G\<close>.\<close>

abbreviation calls_within :: "('s \<Rightarrow> 's \<Rightarrow> bool) \<Rightarrow> 's busy \<Rightarrow> 's busy \<Rightarrow> bool" where
  "calls_within G b b' \<equiv> extends b b' \<and> (\<forall>(s, s') \<in> set (own_calls b b'). G s s')"

lemma calls_within_trans: "calls_within G b b1 \<Longrightarrow> calls_within G b1 b2 \<Longrightarrow> calls_within G b b2"
  using own_calls_append [of b b1 b2] extends_trans [of b b1 b2] by auto

lemma calls_within_mono:
  "calls_within G b b' \<Longrightarrow> (\<And>s s'. G s s' \<Longrightarrow> G' s s') \<Longrightarrow> calls_within G' b b'"
  by auto

text \<open>
  The contract of a function under interference: each of its calls satisfies \<open>G\<close>, and when it
  returns nil, each of the goals has been met by what some call of it left.
\<close>

definition calls_satisfy :: "('s \<Rightarrow> 's \<Rightarrow> bool) \<Rightarrow> ('s busy \<Rightarrow> 'r \<times> 's busy) \<Rightarrow> bool" where
  "calls_satisfy G f \<longleftrightarrow>
     (\<forall>b r b'. f b = (r, b') \<longrightarrow> calls_within G b b')"

definition calls_reach :: "('s \<Rightarrow> bool) set \<Rightarrow> 's busy step \<Rightarrow> bool" where
  "calls_reach Ps f \<longleftrightarrow>
     (\<forall>b b'. f b = (None, b') \<longrightarrow> (\<forall>P \<in> Ps. \<exists>(s, s') \<in> set (own_calls b b'). P s'))"

lemma calls_satisfyD:
  "calls_satisfy G f \<Longrightarrow> f b = (r, b') \<Longrightarrow> extends b b'"
  "calls_satisfy G f \<Longrightarrow> f b = (r, b') \<Longrightarrow> (s, s') \<in> set (own_calls b b') \<Longrightarrow> G s s'"
  unfolding calls_satisfy_def by blast+

lemma calls_satisfy_call:
  "(\<And>s r s'. f s = (r, s') \<Longrightarrow> G s s') \<Longrightarrow> calls_satisfy G (busy_call f)"
  unfolding calls_satisfy_def by (auto elim: busy_call_log)

lemma calls_satisfy_return: "calls_satisfy G (\<lambda>b. (r, b))"
  by (simp add: calls_satisfy_def)

lemma calls_satisfy_then:
  assumes "calls_satisfy G f" and "calls_satisfy G g"
  shows "calls_satisfy G (then_ok f g)"
  unfolding calls_satisfy_def
proof (intro allI impI)
  fix b r b'
  assume run: "then_ok f g b = (r, b')"
  obtain r1 b1 where f: "f b = (r1, b1)" by force
  with assms(1) have one: "calls_within G b b1" unfolding calls_satisfy_def by blast
  show "calls_within G b b'"
  proof (cases r1)
    case None
    then have "g b1 = (r, b')" using run f by (simp add: then_ok_def)
    with assms(2) have "calls_within G b1 b'" unfolding calls_satisfy_def by blast
    with one show ?thesis by (rule calls_within_trans)
  next
    case (Some e)
    with run f one show ?thesis by (simp add: then_ok_def)
  qed
qed

lemma calls_satisfy_run:
  "(\<And>f. f \<in> set fs \<Longrightarrow> calls_satisfy G f) \<Longrightarrow> calls_satisfy G (run_steps fs)"
proof (induction fs)
  case Nil
  then show ?case by (simp add: calls_satisfy_def)
next
  case (Cons f fs)
  then show ?case unfolding run_steps_Cons by (intro calls_satisfy_then) auto
qed

lemma calls_reach_nothing: "calls_reach {} f"
  by (simp add: calls_reach_def)

text \<open>A step under a condition.\<close>

lemma calls_satisfy_if: "calls_satisfy G f \<Longrightarrow> calls_satisfy G (if c then f else (\<lambda>b. (None, b)))"
  by (simp add: calls_satisfy_return)

lemma calls_reach_if:
  "calls_reach Ps f \<Longrightarrow> calls_reach (if c then Ps else {}) (if c then f else (\<lambda>b. (None, b)))"
  by (simp add: calls_reach_nothing)

lemma calls_reach_call:
  "(\<And>s s'. f s = (None, s') \<Longrightarrow> P s') \<Longrightarrow> calls_reach {P} (busy_call f)"
  unfolding calls_reach_def by (auto elim: busy_call_log)

lemma calls_reach_then:
  assumes "calls_reach Ps f" and "calls_reach Qs g" and "calls_satisfy G f" and "calls_satisfy G' g"
  shows "calls_reach (Ps \<union> Qs) (then_ok f g)"
  unfolding calls_reach_def
proof (intro allI impI ballI)
  fix b b' P
  assume "then_ok f g b = (None, b')" and P: "P \<in> Ps \<union> Qs"
  then obtain b1 where f: "f b = (None, b1)" and g: "g b1 = (None, b')" by (auto simp: then_ok_None)
  from own_calls_append [OF calls_satisfyD(1) [OF assms(3) f] calls_satisfyD(1) [OF assms(4) g]]
  show "\<exists>(s, s') \<in> set (own_calls b b'). P s'"
    using P assms(1,2) f g unfolding calls_reach_def by fastforce
qed

lemma calls_reach_run:
  assumes "\<And>x. x \<in> set xs \<Longrightarrow> calls_reach {P x} (f x)" and "\<And>x. x \<in> set xs \<Longrightarrow> calls_satisfy G (f x)"
  shows "calls_reach (P ` set xs) (run_steps (map f xs))"
  using assms
proof (induction xs)
  case Nil
  then show ?case by (simp add: calls_reach_def)
next
  case (Cons x xs)
  have "calls_satisfy G (run_steps (map f xs))"
    by (rule calls_satisfy_run) (use Cons.prems(2) in auto)
  then have "calls_reach ({P x} \<union> P ` set xs) (then_ok (f x) (run_steps (map f xs)))"
    by (intro calls_reach_then) (use Cons in auto)
  then show ?case by (simp add: run_steps_Cons)
qed

definition errors_external :: "'s step \<Rightarrow> bool" where
  "errors_external f \<longleftrightarrow> (\<forall>s e s'. f s = (Some e, s') \<longrightarrow> external e)"

lemma errors_external_call: "errors_external f \<Longrightarrow> errors_external (busy_call f)"
  unfolding errors_external_def by (blast elim: busy_call_log)

lemma errors_external_then: "errors_external f \<Longrightarrow> errors_external g \<Longrightarrow> errors_external (then_ok f g)"
  unfolding errors_external_def then_ok_Some by blast

lemma errors_external_run: "(\<And>f. f \<in> set fs \<Longrightarrow> errors_external f) \<Longrightarrow> errors_external (run_steps fs)"
proof (induction fs)
  case Nil
  then show ?case by (simp add: errors_external_def)
next
  case (Cons f fs)
  then show ?case unfolding run_steps_Cons by (intro errors_external_then) auto
qed

text \<open>An event is one call.\<close>

lemma event_busy:
  assumes "rec_recorder R = Some emit"
  shows "event_then (busy_reconciler R) ev res = busy_call (\<lambda>s. (Returns res, emit ev s))"
  using assms
  by (simp add: fun_eq_iff event_then_def Eventf_def busy_call_def Let_def split: prod.split)

section \<open>Own calls on the objects\<close>

text \<open>
  One more promise of the client: a delete that fails has been applied or not (\<open>kube_api\<close> says
  nothing of the object in that case).
\<close>

locale interrupted_api = kube_api K view dflt
  for K :: "'s kube"
    and view :: "'s \<Rightarrow> key \<Rightarrow> kobject option"
    and dflt :: "obj_spec \<Rightarrow> obj_spec" +
  assumes delete_failed:
    "k_delete K k s = (Some e, s') \<Longrightarrow> view s' k = view s k \<or> gone_or_terminating (view s') k"
begin

lemma create_or_update_effect:
  assumes "k_create_or_update K ob f s = (r, s')"
  obtains "view s' = view s"
    | ob' where "f (base_of view s ob) = Inr ob'" "applied view dflt (key_of ob) ob' s s'"
  using assms create_or_update_ok [of ob f s s'] create_or_update_error [of ob f s _ s']
  by (cases r) blast+

lemma written_controlled:
  assumes "own_by K ow b = Inr ob'" and "written dflt ob' x"
  shows "controlled_by ow (obj_meta x)"
  using own_by_ok(5) [OF assms(1), of "obj_meta x"] assms(2) by (simp add: written_def settled_owner_def)

text \<open>A write whose mutate function ends with the owner reference; a delete.\<close>

lemma owned_write:
  assumes run: "k_create_or_update K ob f s = (r, s')"
    and f: "\<And>ob'. f (base_of view s ob) = Inr ob' \<Longrightarrow> \<exists>b. own_by K ow b = Inr ob'"
    and changed: "view s' k \<noteq> view s k"
  shows "k = key_of ob \<and> (\<exists>x. view s' k = Some x \<and> controlled_by ow (obj_meta x))"
  using run
proof (cases rule: create_or_update_effect)
  case 1
  with changed show ?thesis by simp
next
  case (2 ob')
  obtain b where b: "own_by K ow b = Inr ob'" using f [OF 2(1)] by blast
  obtain x where "view s' (key_of ob) = Some x" "written dflt ob' x"
    using applied_written [OF 2(2)] by blast
  with written_controlled [OF b] applied_frame [OF 2(2)] changed show ?thesis by metis
qed

lemma delete_effect:
  assumes "k_delete K k' s = (r, s')" and "view s' k \<noteq> view s k"
  shows "k = k' \<and> gone_or_terminating (view s') k"
  using assms delete_frame [OF assms(1)] delete_ok [of k' s s'] delete_failed [of k' s _ s']
  by (cases r) metis+

end

interpretation mem_interrupted_api: interrupted_api "mem_kube L" "mem_view L" mem_default for L
  by (unfold_locales, unfold mem_kube_simps) (auto dest: mem_remove_error)

section \<open>When the others keep away\<close>

text \<open>
  The contract \<open>reconcile_step\<close> under interference, for others that keep the objects under certain
  keys as they are (those they hold themselves are not among them): a step that keeps it alone
  keeps it in such company, and so do sequences of steps.
\<close>

definition keeps_away :: "('s \<Rightarrow> 'k \<Rightarrow> 'o option) \<Rightarrow> 'k set \<Rightarrow> ('s \<Rightarrow> 's) \<Rightarrow> bool" where
  "keeps_away view A e \<longleftrightarrow> (\<forall>s. \<forall>k \<in> A. view (e s) k = view s k)"

definition calm :: "('s \<Rightarrow> 'k \<Rightarrow> 'o option) \<Rightarrow> 'k set \<Rightarrow> 's busy \<Rightarrow> bool" where
  "calm view A b \<longleftrightarrow> (\<forall>e \<in> set (bz_others b). keeps_away view A e)"

lemma calm_others_act:
  assumes "calm view A b"
  shows "calm view A (others_act b)"
    and "k \<in> A \<Longrightarrow> view (bz_state (others_act b)) k = view (bz_state b) k"
  using assms by (auto simp: calm_def keeps_away_def others_act_def split: list.split)

lemma calm_undisturbed: "calm view A (undisturbed es s) \<longleftrightarrow> (\<forall>e \<in> set es. keeps_away view A e)"
  by (simp add: calm_def undisturbed_def)

text \<open>A call made in calm: the others can be left out of the account.\<close>

lemma calm_call:
  assumes "calm view A b" and "busy_call f b = (r, b')"
  obtains s s' where "f s = (r, s')" "own_calls b b' = [(s, s')]" "extends b b'" "calm view A b'"
    and "\<forall>k \<in> A. view s k = view (bz_state b) k" and "\<forall>k \<in> A. view (bz_state b') k = view s' k"
proof -
  let ?b1 = "others_act b"
  obtain s' where run: "f (bz_state ?b1) = (r, s')"
    and b': "b' = others_act (?b1\<lparr> bz_state := s', bz_log := bz_log ?b1 @ [(bz_state ?b1, s')] \<rparr>)"
    using assms(2) by (auto simp: busy_call_def Let_def split: prod.splits)
  have mid: "calm view A (?b1\<lparr> bz_state := s', bz_log := bz_log ?b1 @ [(bz_state ?b1, s')] \<rparr>)"
    using calm_others_act(1) [OF assms(1)] by (simp add: calm_def)
  show thesis
    using that [OF run] calm_others_act [OF assms(1)] calm_others_act [OF mid]
    by (simp add: b' own_calls_def extends_def)
qed

locale rely_step =
  fixes view :: "'s \<Rightarrow> 'k \<Rightarrow> 'o option"
    and A :: "'k set"
    and step :: "'s busy step"
    and foot :: "'k set"
    and goal :: "('k \<Rightarrow> 'o option) \<Rightarrow> bool"
  assumes foot_within: "foot \<subseteq> A"
    and stays_calm: "calm view A b \<Longrightarrow> step b = (r, b') \<Longrightarrow> calm view A b'"
    and calm_frame:
      "calm view A b \<Longrightarrow> step b = (r, b') \<Longrightarrow> k \<in> A \<Longrightarrow> k \<notin> foot \<Longrightarrow>
         view (bz_state b') k = view (bz_state b) k"
    and calm_goal: "calm view A b \<Longrightarrow> step b = (None, b') \<Longrightarrow> goal (view (bz_state b'))"
    and calm_local: "(\<And>k. k \<in> foot \<Longrightarrow> v' k = v k) \<Longrightarrow> goal v \<Longrightarrow> goal v'"

lemma rely_call:
  assumes f: "reconcile_step view f F P" and F: "F \<subseteq> A"
  shows "rely_step view A (busy_call f) F P"
proof
  fix b r b' k
  assume calm: "calm view A b" and run: "busy_call f b = (r, b')" and k: "k \<in> A" "k \<notin> F"
  from calm run obtain s s' where s: "f s = (r, s')" "\<forall>k \<in> A. view s k = view (bz_state b) k"
    "\<forall>k \<in> A. view (bz_state b') k = view s' k"
    by (rule calm_call)
  with reconcile_step.step_frame [OF f s(1) k(2)] k(1)
  show "view (bz_state b') k = view (bz_state b) k" by simp
next
  fix b b'
  assume calm: "calm view A b" and run: "busy_call f b = (None, b')"
  from calm run obtain s s' where s: "f s = (None, s')" "\<forall>k \<in> A. view (bz_state b') k = view s' k"
    by (rule calm_call)
  with reconcile_step.goal_local [OF f, of "view (bz_state b')" "view s'"]
    reconcile_step.step_goal [OF f s(1)] F
  show "P (view (bz_state b'))" by blast
next
  fix v v' :: "'b \<Rightarrow> 'c option"
  assume "\<And>k. k \<in> F \<Longrightarrow> v' k = v k" and "P v"
  then show "P v'" by (rule reconcile_step.goal_local [OF f])
qed (use F in \<open>auto elim: calm_call\<close>)

lemma rely_then:
  assumes f: "rely_step view A f F P" and g: "rely_step view A g G Q" and disjoint: "F \<inter> G = {}"
  shows "rely_step view A (then_ok f g) (F \<union> G) (\<lambda>v. P v \<and> Q v)"
proof
  show "F \<union> G \<subseteq> A" using rely_step.foot_within [OF f] rely_step.foot_within [OF g] by blast
next
  fix b r b'
  assume calm: "calm view A b" and run: "then_ok f g b = (r, b')"
  obtain r1 b1 where one: "f b = (r1, b1)" by force
  note calm1 = rely_step.stays_calm [OF f calm one]
  show "calm view A b'"
    using run one calm1 rely_step.stays_calm [OF g calm1] by (auto simp: then_ok_def split: option.splits)
  fix k assume k: "k \<in> A" "k \<notin> F \<union> G"
  then have "view (bz_state b1) k = view (bz_state b) k"
    using rely_step.calm_frame [OF f calm one] by blast
  moreover have "view (bz_state b') k = view (bz_state b1) k"
    using run one k rely_step.calm_frame [OF g calm1, of r b' k] by (auto simp: then_ok_def split: option.splits)
  ultimately show "view (bz_state b') k = view (bz_state b) k" by simp
next
  fix b b'
  assume calm: "calm view A b" and "then_ok f g b = (None, b')"
  then obtain b1 where one: "f b = (None, b1)" and two: "g b1 = (None, b')" by (auto simp: then_ok_None)
  note calm1 = rely_step.stays_calm [OF f calm one]
  have "view (bz_state b') k = view (bz_state b1) k" if "k \<in> F" for k
    using rely_step.calm_frame [OF g calm1 two] rely_step.foot_within [OF f] that disjoint by blast
  then have "P (view (bz_state b'))"
    using rely_step.calm_goal [OF f calm one] by (rule rely_step.calm_local [OF f])
  with rely_step.calm_goal [OF g calm1 two]
  show "P (view (bz_state b')) \<and> Q (view (bz_state b'))" by blast
next
  fix v v' :: "'b \<Rightarrow> 'c option"
  assume same: "\<And>k. k \<in> F \<union> G \<Longrightarrow> v' k = v k" and "P v \<and> Q v"
  then show "P v' \<and> Q v'"
    using rely_step.calm_local [OF f, of v' v] rely_step.calm_local [OF g, of v' v] by blast
qed

lemma rely_return: "rely_step view A (\<lambda>b. (None, b)) {} (\<lambda>_. True)"
  by unfold_locales auto

lemma rely_run:
  assumes "\<And>x. x \<in> set xs \<Longrightarrow> rely_step view A (f x) (F x) (P x)" and "distinct xs"
    and "\<And>x y. x \<in> set xs \<Longrightarrow> y \<in> set xs \<Longrightarrow> x \<noteq> y \<Longrightarrow> F x \<inter> F y = {}"
  shows "rely_step view A (run_steps (map f xs)) (\<Union>x \<in> set xs. F x) (\<lambda>v. \<forall>x \<in> set xs. P x v)"
  using assms
proof (induction xs)
  case Nil
  have "run_steps (map f []) = (\<lambda>b. (None, b))" by (simp add: fun_eq_iff)
  then show ?case using rely_return [of view] by simp
next
  case (Cons x xs)
  have "F x \<inter> (\<Union>x \<in> set xs. F x) = {}" using Cons.prems(2,3) by fastforce
  moreover have "rely_step view A (run_steps (map f xs)) (\<Union>x \<in> set xs. F x) (\<lambda>v. \<forall>x \<in> set xs. P x v)"
    using Cons by auto
  ultimately have "rely_step view A (then_ok (f x) (run_steps (map f xs))) (F x \<union> (\<Union>x \<in> set xs. F x))
      (\<lambda>v. P x v \<and> (\<forall>x \<in> set xs. P x v))"
    by (intro rely_then Cons.prems(1)) simp_all
  then show ?case by (simp add: run_steps_Cons)
qed

end
