(* ===== verification/Workspace_Interference.thy ===== *)
theory Workspace_Interference
  imports Interference Workspace_Properties Workspace_Outcomes
begin

text \<open>
  A reconciliation of a Workspace that other clients interrupt at every call: what it still
  guarantees of each of its own writes, what it has achieved when it returns without an error,
  and what is lost when the namespace changes hands in the middle of it.
\<close>

section \<open>The interrupted reconciler\<close>

definition busy_workspace_client :: "'s workspace_client \<Rightarrow> 's busy workspace_client" where
  "busy_workspace_client W =
     \<lparr> wc_get = (\<lambda>n b. wc_get W n (bz_state b)), wc_list = (\<lambda>b. wc_list W (bz_state b)),
       wc_patch_status = (\<lambda>w w'. busy_call (wc_patch_status W w w')),
       wc_status_equal = wc_status_equal W \<rparr>"

lemma busy_workspace_client_simps [simp]:
  "wc_get (busy_workspace_client W) n b = wc_get W n (bz_state b)"
  "wc_patch_status (busy_workspace_client W) w w' = busy_call (wc_patch_status W w w')"
  "wc_status_equal (busy_workspace_client W) = wc_status_equal W"
  by (simp_all add: busy_workspace_client_def)

text \<open>The function of each child makes one call.\<close>

lemma child_helpers_busy [simp]:
  "write_child (busy_kube K) = write_child K" "IgnoreNoMatchNotFound (busy_kube K) = IgnoreNoMatchNotFound K"
  by (simp_all add: fun_eq_iff write_child_def IgnoreNoMatchNotFound_def split: option.split)

lemma manage_child_busy: "manage_child (busy_kube K) nm w v k d = busy_call (manage_child K nm w v k d)"
  by (simp add: fun_eq_iff manage_child_def delete_ignoring_no_match_def [abs_def]
      delete_ignoring_not_found_def [abs_def] busy_call_map split: desired.split prod.split)

lemma ReconcileNamespace_busy:
  "ReconcileNamespace (busy_kube K) w v istio = busy_call (ReconcileNamespace K w v istio)"
proof -
  have "mutate_namespace (busy_kube K) w v istio = mutate_namespace K w v istio"
    by (simp add: fun_eq_iff mutate_namespace_def)
  then show ?thesis by (simp add: ReconcileNamespace_def)
qed

definition child_calls :: "'s kube \<Rightarrow> workspace \<Rightarrow> string \<Rightarrow> bool \<Rightarrow> 's busy step" where
  "child_calls K w version istio =
     then_ok (run_steps (map (\<lambda>role. busy_call (manage_child K False w version (role_binding_key w role)
         (desired_role_binding w role))) orderedRoles))
      (then_ok (busy_call (manage_child K False w version (quota_key w) (desired_quota w)))
        (then_ok (busy_call (manage_child K False w version (limits_key w) (desired_limits w)))
          (then_ok (busy_call (manage_child K False w version (network_policy_key w) (desired_network_policy w istio)))
            (then_ok (busy_call (manage_child K True w version (peer_authentication_key w)
                (desired_peer_authentication w istio)))
              (busy_call (manage_child K True w version (authorization_policy_key w)
                (desired_authorization_policy w istio)))))))"

lemma reconcileResources_busy:
  "reconcileResources (busy_kube K) w version istio =
     then_ok (busy_call (ReconcileNamespace K w version istio)) (child_calls K w version istio)"
  unfolding reconcileResources_def ReconcileNamespace_busy ReconcileRoleBindings_manage
    ReconcileResourceQuota_manage ReconcileLimitRange_manage ReconcileNetworkIsolation_def
    network_isolation_manage manage_child_busy child_calls_def ..

section \<open>What each call may do\<close>

text \<open>
  A call changes an object only under a key of the Workspace, and leaves it deleted or controlled
  by the Workspace; the namespace is never deleted, and never changed when at that moment it
  belongs to somebody else.
\<close>

definition guarded_write ::
  "('s \<Rightarrow> key \<Rightarrow> kobject option) \<Rightarrow> workspace \<Rightarrow> 's \<Rightarrow> 's \<Rightarrow> bool" where
  "guarded_write view w s s' \<longleftrightarrow>
     (\<forall>k. view s' k \<noteq> view s k \<longrightarrow> k \<in> workspace_keys w
        \<and> (if k = namespace_key w then \<forall>x. view s k = Some x \<longrightarrow> \<not> foreign_namespace w x else True)
        \<and> ((\<exists>x. view s' k = Some x \<and> controlled_by (workspace_owner w) (obj_meta x))
           \<or> k \<noteq> namespace_key w \<and> gone_or_terminating (view s') k))"

lemma guarded_write_same: "view s' = view s \<Longrightarrow> guarded_write view w s s'"
  by (simp add: guarded_write_def)

locale interrupted_store = workspace_store K view dflt W ws_view emit + interrupted_api K view dflt
  for K :: "'s kube"
    and view :: "'s \<Rightarrow> key \<Rightarrow> kobject option"
    and dflt :: "obj_spec \<Rightarrow> obj_spec"
    and W :: "'s workspace_client"
    and ws_view :: "'s \<Rightarrow> string \<Rightarrow> workspace option"
    and emit :: "event \<Rightarrow> 's \<Rightarrow> 's"
begin

lemma child_guarded:
  assumes run: "manage_child K nm w version k d s = (r, s')"
    and k: "k \<in> workspace_keys w" "k \<noteq> namespace_key w"
  shows "guarded_write view w s s'"
proof (cases d)
  case MustBeAbsent
  then obtain r0 where "k_delete K k s = (r0, s')"
    using run by (auto simp: manage_child_def delete_ignoring_no_match_def delete_ignoring_not_found_def
        split: if_splits prod.splits)
  from delete_effect [OF this] k show ?thesis unfolding guarded_write_def by metis
next
  case (MustExist sp)
  obtain kd ns name where key: "k = (kd, ns, name)" by (cases k)
  have "k_create_or_update K (new_object kd ns name) (write_child K w version sp) s = (r, s')"
    using run by (simp add: manage_child_def MustExist key)
  from owned_write [OF this, of "workspace_owner w"] key k show ?thesis
    unfolding guarded_write_def write_child_def by fastforce
qed

lemma namespace_guarded:
  assumes run: "ReconcileNamespace K w version istio s = (r, s')"
  shows "guarded_write view w s s'"
proof (cases "\<exists>x. view s (namespace_key w) = Some x \<and> foreign_namespace w x")
  case True
  then have "view s' = view s" using namespace_refused(1) run by blast
  then show ?thesis by (rule guarded_write_same)
next
  case False
  have "k = namespace_key w \<and> (\<exists>x. view s' k = Some x \<and> controlled_by (workspace_owner w) (obj_meta x))"
    if "view s' k \<noteq> view s k" for k
  proof -
    have "\<exists>b. own_by K (workspace_owner w) b = Inr ob'" if "mutate_namespace K w version istio b = Inr ob'" for b ob'
      using that by (auto simp: mutate_namespace_def split: if_splits)
    then have "mutate_namespace K w version istio (base_of view s (new_object NamespaceKind '''' (w_namespace w)))
        = Inr ob' \<Longrightarrow> \<exists>b. own_by K (workspace_owner w) b = Inr ob'" for ob'
      by blast
    from owned_write [OF run [unfolded ReconcileNamespace_def] this that]
    show ?thesis by (auto simp: namespace_key_def)
  qed
  moreover have "namespace_key w \<in> workspace_keys w" by (simp add: workspace_keys_def)
  ultimately show ?thesis unfolding guarded_write_def using False by metis
qed

lemma child_keys_guarded:
  "role \<in> set orderedRoles \<Longrightarrow> role_binding_key w role \<in> workspace_keys w"
  "quota_key w \<in> workspace_keys w" "limits_key w \<in> workspace_keys w"
  "network_policy_key w \<in> workspace_keys w" "peer_authentication_key w \<in> workspace_keys w"
  "authorization_policy_key w \<in> workspace_keys w"
  "role_binding_key w role \<noteq> namespace_key w"
  "quota_key w \<noteq> namespace_key w" "limits_key w \<noteq> namespace_key w"
  "network_policy_key w \<noteq> namespace_key w" "peer_authentication_key w \<noteq> namespace_key w"
  "authorization_policy_key w \<noteq> namespace_key w"
  by (auto simp: workspace_keys_split network_isolation_keys_def child_keys)

lemma child_call_guarded:
  assumes "k \<in> workspace_keys w" and "k \<noteq> namespace_key w"
  shows "calls_satisfy (guarded_write view w) (busy_call (manage_child K nm w version k d))"
  by (rule calls_satisfy_call) (rule child_guarded [OF _ assms])

lemma child_calls_guarded: "calls_satisfy (guarded_write view w) (child_calls K w version istio)"
  unfolding child_calls_def
  by (intro calls_satisfy_then calls_satisfy_run child_call_guarded child_keys_guarded)
    (auto intro: child_call_guarded [OF child_keys_guarded(1) child_keys_guarded(7)])

lemma child_call_reach:
  "calls_reach {\<lambda>s. conforms K dflt w version d (view s k)} (busy_call (manage_child K nm w version k d))"
  by (rule calls_reach_call) (rule reconcile_step.step_goal [OF manage_child_step])

lemma child_calls_reach:
  "calls_reach ((\<lambda>(k, d) s. conforms K dflt w version d (view s k)) ` set (desired_children w istio))
     (child_calls K w version istio)"
proof -
  let ?P = "\<lambda>k d s. conforms K dflt w version d (view s k)"
  have "calls_reach ((\<lambda>role. ?P (role_binding_key w role) (desired_role_binding w role)) ` set orderedRoles
      \<union> ({?P (quota_key w) (desired_quota w)} \<union> ({?P (limits_key w) (desired_limits w)}
      \<union> ({?P (network_policy_key w) (desired_network_policy w istio)}
      \<union> ({?P (peer_authentication_key w) (desired_peer_authentication w istio)}
      \<union> {?P (authorization_policy_key w) (desired_authorization_policy w istio)}))))) (child_calls K w version istio)"
    unfolding child_calls_def
    by (intro calls_reach_then [where G = "guarded_write view w" and G' = "guarded_write view w"]
        calls_reach_run [where G = "guarded_write view w"] child_call_reach
        calls_satisfy_then calls_satisfy_run child_call_guarded child_keys_guarded)
      (auto intro: child_call_guarded [OF child_keys_guarded(1) child_keys_guarded(7)])
  moreover have "(\<lambda>(k, d). ?P k d) ` set (desired_children w istio) =
      (\<lambda>role. ?P (role_binding_key w role) (desired_role_binding w role)) ` set orderedRoles
      \<union> ({?P (quota_key w) (desired_quota w)} \<union> ({?P (limits_key w) (desired_limits w)}
      \<union> ({?P (network_policy_key w) (desired_network_policy w istio)}
      \<union> ({?P (peer_authentication_key w) (desired_peer_authentication w istio)}
      \<union> {?P (authorization_policy_key w) (desired_authorization_policy w istio)}))))"
    unfolding desired_children_def set_append set_map list.set image_Un image_image image_insert
      image_empty prod.case by blast
  ultimately show ?thesis by simp
qed

lemma child_call_external: "errors_external (busy_call (manage_child K nm w version k d))"
  by (rule errors_external_call) (auto simp: errors_external_def intro: manage_child_external)

lemma child_calls_external: "errors_external (child_calls K w version istio)"
  unfolding child_calls_def
  by (intro errors_external_then errors_external_run child_call_external) (auto intro: child_call_external)

text \<open>The calls of \<open>reconcileResources\<close>: the namespace first, and nothing more when that fails.\<close>

lemma resources_calls:
  assumes run: "reconcileResources (busy_kube K) w version istio b = (r, b')"
  obtains t t' r1 l where "extends b b'" and "own_calls b b' = (t, t') # l"
    and "ReconcileNamespace K w version istio t = (r1, t')"
    and "\<forall>(u, u') \<in> set (own_calls b b'). guarded_write view w u u'"
    and "r1 \<noteq> None \<longrightarrow> l = [] \<and> r = r1"
    and "r1 = None \<longrightarrow> (case r of Some e \<Rightarrow> external e
      | None \<Rightarrow> \<forall>(k, d) \<in> set (desired_children w istio). \<exists>(u, u') \<in> set l. conforms K dflt w version d (view u' k))"
proof -
  obtain r1 b1 where ns: "busy_call (ReconcileNamespace K w version istio) b = (r1, b1)" by force
  then obtain t t' where t: "ReconcileNamespace K w version istio t = (r1, t')"
    "extends b b1" "own_calls b b1 = [(t, t')]"
    by (rule busy_call_log)
  note first = namespace_guarded [OF t(1)]
  show thesis
  proof (cases r1)
    case (Some e)
    with run ns have "r = Some e" "b' = b1" by (simp_all add: reconcileResources_busy then_ok_def)
    with t first Some that show thesis by auto
  next
    case None
    with run ns have rest: "child_calls K w version istio b1 = (r, b')"
      by (simp add: reconcileResources_busy then_ok_def)
    note rest_ok = calls_satisfyD [OF child_calls_guarded rest]
    have calls: "own_calls b b' = (t, t') # own_calls b1 b'"
      using own_calls_append [OF t(2) rest_ok(1)] t(3) by simp
    have "case r of Some e \<Rightarrow> external e
      | None \<Rightarrow> \<forall>(k, d) \<in> set (desired_children w istio).
          \<exists>(u, u') \<in> set (own_calls b1 b'). conforms K dflt w version d (view u' k)"
    proof (cases r)
      case None
      with child_calls_reach [of w version istio] rest show ?thesis
        unfolding calls_reach_def by fastforce
    next
      case (Some e)
      with child_calls_external [of w version istio] rest show ?thesis by (auto simp: errors_external_def)
    qed
    moreover have "\<forall>(u, u') \<in> set (own_calls b b'). guarded_write view w u u'"
      using first rest_ok(2) by (auto simp: calls)
    ultimately show thesis
      using that [OF extends_trans [OF t(2) rest_ok(1)] calls t(1)] None by simp
  qed
qed

text \<open>Reporting changes no object.\<close>

lemma patch_busy:
  assumes "busy_call (wc_patch_status W w w') b = (r, b')"
  shows "calls_within (\<lambda>u u'. view u' = view u) b b'"
  using assms by (auto elim!: busy_call_log dest: ws_patch_objects)

lemma event_calls:
  assumes "rec_recorder R = Some emit" and "event_then (busy_reconciler R) ev res b = (out, b')"
  shows "out = Returns res" and "calls_within (\<lambda>u u'. view u' = view u) b b'"
  using assms by (auto simp: event_busy emit_objects elim!: busy_call_log)

lemma handle_error_busy:
  assumes R: "rec_recorder R = Some emit"
    and run: "handleReconcileError (busy_kube K) (busy_workspace_client W) (busy_reconciler R) w err b = (out, b')"
  shows "out = Returns (if as_NamespaceConflictError err \<noteq> None then None else Some err)"
    and "calls_within (\<lambda>u u'. view u' = view u) b b'"
proof -
  let ?reason = "if as_NamespaceConflictError err \<noteq> None then ''NamespaceConflict'' else ''ReconcileError''"
  let ?res = "if as_NamespaceConflictError err \<noteq> None then None else Some err"
  obtain r b1 where p: "busy_call (wc_patch_status W w
      (w\<lparr> w_status := ready_false_status (busy_kube K) w ?reason (error_text err) \<rparr>)) b = (r, b1)" by force
  have ev: "event_then (busy_reconciler R) (warning_event ?reason (error_text err)) ?res b1 = (out, b')"
    using run p
    by (auto simp: handleReconcileError_def setReadyConditionFalse_def Let_def split: option.splits)
  show "out = Returns ?res" by (rule event_calls(1) [OF R ev])
  show "calls_within (\<lambda>u u'. view u' = view u) b b'"
    by (rule calls_within_trans [OF patch_busy [OF p] event_calls(2) [OF R ev]])
qed

lemma update_status_busy:
  assumes R: "rec_recorder R = Some emit"
    and run: "updateStatus (busy_kube K) (busy_workspace_client W) (busy_reconciler R) w istio b = (out, b')"
  shows "calls_within (\<lambda>u u'. view u' = view u) b b'"
proof (cases "wc_status_equal W (w_status w) (updated_status (busy_kube K) w istio)")
  case True
  with run show ?thesis by (simp add: updateStatus_def)
next
  case False
  obtain r b1 where p: "busy_call (wc_patch_status W w
      (w\<lparr> w_status := updated_status (busy_kube K) w istio \<rparr>)) b = (r, b1)" by force
  show ?thesis
  proof (cases r)
    case None
    with run False p have "event_then (busy_reconciler R)
        (reconciled_event ''Workspace resources reconciled for namespace %s'' (w_namespace w)) None b1 = (out, b')"
      by (simp add: updateStatus_def)
    from calls_within_trans [OF patch_busy [OF p] event_calls(2) [OF R this]] show ?thesis .
  next
    case (Some e)
    with run False p patch_busy [OF p] show ?thesis by (simp add: updateStatus_def)
  qed
qed

text \<open>
  Others that keep away from the objects of the Workspace: the children are then as
  desired together, at the end.
\<close>

lemma resources_rely:
  "rely_step view (workspace_keys w) (reconcileResources (busy_kube K) w version istio) (workspace_keys w)
     (workspace_ready K dflt w version istio)"
proof -
  let ?A = "workspace_keys w" and ?c = "\<lambda>k d v. conforms K dflt w version d (v k)"
  have child: "rely_step view ?A (busy_call (manage_child K nm w version k d)) {k} (?c k d)" if "k \<in> ?A" for nm k d
    by (rule rely_call [OF manage_child_step]) (use that in simp)
  have "rely_step view ?A (run_steps (map (\<lambda>role. busy_call (manage_child K False w version (role_binding_key w role)
        (desired_role_binding w role))) orderedRoles))
      (\<Union>role \<in> set orderedRoles. {role_binding_key w role})
      (\<lambda>v. \<forall>role \<in> set orderedRoles. ?c (role_binding_key w role) (desired_role_binding w role) v)"
    by (rule rely_run [OF child [OF child_keys_guarded(1)] distinct_orderedRoles]) (auto simp: role_binding_key_def)
  then have roles: "rely_step view ?A (run_steps (map (\<lambda>role. busy_call (manage_child K False w version
        (role_binding_key w role) (desired_role_binding w role))) orderedRoles))
      (role_binding_key w ` set orderedRoles)
      (\<lambda>v. \<forall>role \<in> set orderedRoles. ?c (role_binding_key w role) (desired_role_binding w role) v)"
    by (simp only: UNION_singleton_eq_range)
  have "rely_step view ?A (busy_call (ReconcileNamespace K w version istio)) {namespace_key w}
      (\<lambda>v. namespace_ready K dflt w version istio (v (namespace_key w)))"
    by (rule rely_call [OF namespace_step]) (simp add: workspace_keys_def)
  then have "rely_step view ?A (reconcileResources (busy_kube K) w version istio)
      ({namespace_key w} \<union> (role_binding_key w ` set orderedRoles \<union> ({quota_key w} \<union> ({limits_key w}
        \<union> ({network_policy_key w} \<union> ({peer_authentication_key w} \<union> {authorization_policy_key w}))))))
      (\<lambda>v. namespace_ready K dflt w version istio (v (namespace_key w))
        \<and> (\<forall>role \<in> set orderedRoles. ?c (role_binding_key w role) (desired_role_binding w role) v)
        \<and> ?c (quota_key w) (desired_quota w) v \<and> ?c (limits_key w) (desired_limits w) v
        \<and> ?c (network_policy_key w) (desired_network_policy w istio) v
        \<and> ?c (peer_authentication_key w) (desired_peer_authentication w istio) v
        \<and> ?c (authorization_policy_key w) (desired_authorization_policy w istio) v)"
    unfolding reconcileResources_busy child_calls_def
    by (intro rely_then roles child child_keys_guarded) (auto simp: child_keys)
  moreover have "{network_policy_key w} \<union> ({peer_authentication_key w} \<union> {authorization_policy_key w})
      = network_isolation_keys w"
    by (auto simp: network_isolation_keys_def)
  ultimately show ?thesis
    by (simp only: workspace_keys_split workspace_ready_split [abs_def] network_isolated_def [abs_def])
qed

lemma silent_calm:
  assumes "calm view A b" and "busy_call f b = (r, b')" and "\<And>u r u'. f u = (r, u') \<Longrightarrow> view u' = view u"
  shows "calm view A b' \<and> (\<forall>k \<in> A. view (bz_state b') k = view (bz_state b) k)"
  using assms(1,2) by (rule calm_call) (auto dest: assms(3))

lemma event_calm:
  assumes "rec_recorder R = Some emit" and "calm view A b" and "event_then (busy_reconciler R) ev res b = (out, b')"
  shows "calm view A b' \<and> (\<forall>k \<in> A. view (bz_state b') k = view (bz_state b) k)"
  using assms(3) unfolding event_busy [OF assms(1)]
  by (rule silent_calm [OF assms(2)]) (auto simp: emit_objects)

lemma update_status_calm:
  assumes R: "rec_recorder R = Some emit" and calm: "calm view A b" and k: "k \<in> A"
    and run: "updateStatus (busy_kube K) (busy_workspace_client W) (busy_reconciler R) w istio b = (out, b')"
  shows "view (bz_state b') k = view (bz_state b) k"
proof (cases "wc_status_equal W (w_status w) (updated_status (busy_kube K) w istio)")
  case True
  with run show ?thesis by (simp add: updateStatus_def)
next
  case False
  obtain r b1 where p: "busy_call (wc_patch_status W w
      (w\<lparr> w_status := updated_status (busy_kube K) w istio \<rparr>)) b = (r, b1)" by force
  note one = silent_calm [OF calm p ws_patch_objects]
  show ?thesis
  proof (cases r)
    case None
    with run False p have "event_then (busy_reconciler R)
        (reconciled_event ''Workspace resources reconciled for namespace %s'' (w_namespace w)) None b1 = (out, b')"
      by (simp add: updateStatus_def)
    from event_calm [OF R conjunct1 [OF one] this] one k show ?thesis by simp
  next
    case (Some e)
    with run False p one k show ?thesis by (simp add: updateStatus_def)
  qed
qed

lemma resources_conflict_busy:
  assumes run: "reconcileResources (busy_kube K) w version istio b = (Some e, b')"
    and e: "as_NamespaceConflictError e = Some n" and calm: "calm view (workspace_keys w) b"
  shows "\<exists>x. view (bz_state b) (namespace_key w) = Some x \<and> foreign_namespace w x"
proof -
  obtain r1 b1 where ns: "busy_call (ReconcileNamespace K w version istio) b = (r1, b1)" by force
  have "\<not> external e" using e by (simp add: external_def)
  then have "r1 = Some e"
    using run ns child_calls_external [of w version istio]
    by (auto simp: reconcileResources_busy then_ok_def errors_external_def split: option.splits)
  with calm ns obtain t t' where "ReconcileNamespace K w version istio t = (Some e, t')"
    "\<forall>k \<in> workspace_keys w. view t k = view (bz_state b) k"
    by (auto elim: calm_call)
  moreover have "namespace_key w \<in> workspace_keys w" by (simp add: workspace_keys_def)
  ultimately show ?thesis using namespace_conflict_only_foreign [OF _ e] by metis
qed

lemma reconcile_in_company:
  assumes R: "rec_recorder R = Some emit" and get: "wc_get W name s = Inr w"
    and run: "Reconcile (busy_kube K) (busy_workspace_client W) (busy_reconciler R) istio1 istio2 name
      (undisturbed es s) = (Returns None, b')"
    and es: "\<forall>e \<in> set es. keeps_away view (workspace_keys w) e"
  shows "workspace_ready K dflt w (rec_version R) istio1 (view (bz_state b'))
    \<or> (\<exists>x. view s (namespace_key w) = Some x \<and> foreign_namespace w x)"
proof -
  let ?b = "undisturbed es s" and ?ready = "workspace_ready K dflt w (rec_version R) istio1"
  have calm: "calm view (workspace_keys w) ?b" using es by (simp add: calm_undisturbed)
  obtain r b1 where res: "reconcileResources (busy_kube K) w (rec_version R) istio1 ?b = (r, b1)" by force
  note rely = resources_rely [of w "rec_version R" istio1]
  note calm1 = rely_step.stays_calm [OF rely calm res]
  show ?thesis
  proof (cases r)
    case None
    then have up: "updateStatus (busy_kube K) (busy_workspace_client W) (busy_reconciler R) w istio2 b1 =
        (Returns None, b')"
      using run get res by (simp add: Reconcile_def)
    have "?ready (view (bz_state b1))" using rely_step.calm_goal [OF rely calm] res None by simp
    then have "?ready (view (bz_state b'))"
      by (rule reconcile_step.goal_local [OF resources_step, rotated]) (rule update_status_calm [OF R calm1 _ up])
    then show ?thesis ..
  next
    case (Some e)
    then have "handleReconcileError (busy_kube K) (busy_workspace_client W) (busy_reconciler R) w e b1 =
        (Returns None, b')"
      using run get res by (simp add: Reconcile_def)
    from handle_error_busy(1) [OF R this] obtain n where "as_NamespaceConflictError e = Some n"
      by (auto split: if_splits)
    from resources_conflict_busy [OF res [unfolded Some] this calm] show ?thesis by simp
  qed
qed

text \<open>The whole reconciliation.\<close>

lemma reconcile_interrupted:
  assumes R: "rec_recorder R = Some emit" and get: "wc_get W name s = Inr w"
    and run: "Reconcile (busy_kube K) (busy_workspace_client W) (busy_reconciler R) istio1 istio2 name
      (undisturbed es s) = (out, b')"
  obtains t t' l where "bz_log b' = (t, t') # l"
    and "\<forall>(u, u') \<in> set (bz_log b'). guarded_write view w u u'"
    and "(\<exists>x. view t (namespace_key w) = Some x \<and> foreign_namespace w x) \<longrightarrow>
      (\<forall>(u, u') \<in> set (bz_log b'). view u' = view u)"
    and "out = Returns None \<longrightarrow> (\<exists>x. view t (namespace_key w) = Some x \<and> foreign_namespace w x)
      \<or> namespace_ready K dflt w (rec_version R) istio1 (view t' (namespace_key w))
        \<and> (\<forall>(k, d) \<in> set (desired_children w istio1).
             \<exists>(u, u') \<in> set l. conforms K dflt w (rec_version R) d (view u' k))"
proof -
  let ?b = "undisturbed es s" and ?foreign = "\<lambda>t. \<exists>x. view t (namespace_key w) = Some x \<and> foreign_namespace w x"
  obtain r b1 where res: "reconcileResources (busy_kube K) w (rec_version R) istio1 ?b = (r, b1)" by force
  obtain t t' l r1 where ext: "extends ?b b1" and calls: "own_calls ?b b1 = (t, t') # l"
    and ns: "ReconcileNamespace K w (rec_version R) istio1 t = (r1, t')"
    and guarded: "\<forall>(u, u') \<in> set (own_calls ?b b1). guarded_write view w u u'"
    and refused: "r1 \<noteq> None \<longrightarrow> l = [] \<and> r = r1"
    and passed: "r1 = None \<longrightarrow> (case r of Some e \<Rightarrow> external e
      | None \<Rightarrow> \<forall>(k, d) \<in> set (desired_children w istio1).
          \<exists>(u, u') \<in> set l. conforms K dflt w (rec_version R) d (view u' k))"
    by (rule resources_calls [OF res])
  have after: "case r of Some e \<Rightarrow>
        handleReconcileError (busy_kube K) (busy_workspace_client W) (busy_reconciler R) w e b1 = (out, b')
      | None \<Rightarrow> updateStatus (busy_kube K) (busy_workspace_client W) (busy_reconciler R) w istio2 b1 = (out, b')"
    using run get res by (simp add: Reconcile_def split: option.splits)
  have rest: "calls_within (\<lambda>u u'. view u' = view u) b1 b'"
  proof (cases r)
    case None
    then show ?thesis using update_status_busy [OF R, of w istio2 b1 out b'] after by simp
  next
    case (Some e)
    then show ?thesis using handle_error_busy(2) [OF R, of w e b1 out b'] after by simp
  qed
  have log: "bz_log b' = (t, t') # l @ own_calls b1 b'"
    using own_calls_append [OF ext conjunct1 [OF rest]] calls by simp
  show thesis
  proof (rule that [OF log])
    show "\<forall>(u, u') \<in> set (bz_log b'). guarded_write view w u u'"
      using guarded [unfolded calls] rest by (auto simp: log intro: guarded_write_same)
  next
    show "?foreign t \<longrightarrow> (\<forall>(u, u') \<in> set (bz_log b'). view u' = view u)"
    proof
      assume "?foreign t"
      then obtain x where x: "view t (namespace_key w) = Some x" "foreign_namespace w x" by blast
      from namespace_refused [OF x ns] have "view t' = view t" and "r1 \<noteq> None" by auto
      with refused rest show "\<forall>(u, u') \<in> set (bz_log b'). view u' = view u" by (auto simp: log)
    qed
  next
    have "?foreign t \<or> namespace_ready K dflt w (rec_version R) istio1 (view t' (namespace_key w))
        \<and> (\<forall>(k, d) \<in> set (desired_children w istio1).
             \<exists>(u, u') \<in> set (l @ own_calls b1 b'). conforms K dflt w (rec_version R) d (view u' k))"
      if out: "out = Returns None"
    proof (cases r)
      case None
      with refused have r1: "r1 = None" by auto
      with passed None reconcile_step.step_goal [OF namespace_step ns [unfolded r1]] show ?thesis by fastforce
    next
      case (Some e)
      with after have "handleReconcileError (busy_kube K) (busy_workspace_client W) (busy_reconciler R) w e b1 =
          (out, b')"
        by simp
      from handle_error_busy(1) [OF R this] out obtain n where n: "as_NamespaceConflictError e = Some n"
        by (auto split: if_splits)
      then have "\<not> external e" by (simp add: external_def)
      with passed Some refused have "r1 = Some e" by (cases r1) auto
      with namespace_conflict_only_foreign [OF _ n] ns show ?thesis by blast
    qed
    then show "out = Returns None \<longrightarrow> ?foreign t
      \<or> namespace_ready K dflt w (rec_version R) istio1 (view t' (namespace_key w))
        \<and> (\<forall>(k, d) \<in> set (desired_children w istio1).
             \<exists>(u, u') \<in> set (l @ own_calls b1 b'). conforms K dflt w (rec_version R) d (view u' k))"
      by blast
  qed
qed

end

interpretation mem_interrupted: interrupted_store "mem_kube L" "mem_view L" mem_default mem_wc mem_ws mem_emit for L
  by unfold_locales

section \<open>Guarantees under interference\<close>

text \<open>
  C5: Interference. Whatever other clients do before and after each call of a reconciliation of
  a Workspace: its first call is for the namespace; every call changes objects under keys of
  the Workspace only, leaves what it changes controlled by the Workspace or (but for the
  namespace) deleted, and changes no namespace that belongs to somebody else at that moment; when
  the namespace is foreign at the first call, no call changes any object; and when the
  reconciliation returns without an error, it was, or the namespace and every child have been in
  their desired state right after one of the calls.
\<close>

theorem interrupted_reconcile:
  assumes "interrupted_store K view dflt W ws_view emit" and "rec_recorder R = Some emit"
    and "wc_get W name s = Inr w"
    and "Reconcile (busy_kube K) (busy_workspace_client W) (busy_reconciler R) istio1 istio2 name
      (undisturbed es s) = (out, b')"
  shows "\<exists>t t' l. bz_log b' = (t, t') # l
    \<and> (\<forall>(u, u') \<in> set (bz_log b'). guarded_write view w u u')
    \<and> ((\<exists>x. view t (namespace_key w) = Some x \<and> foreign_namespace w x) \<longrightarrow>
        (\<forall>(u, u') \<in> set (bz_log b'). view u' = view u))
    \<and> (out = Returns None \<longrightarrow> (\<exists>x. view t (namespace_key w) = Some x \<and> foreign_namespace w x)
        \<or> namespace_ready K dflt w (rec_version R) istio1 (view t' (namespace_key w))
          \<and> (\<forall>(k, d) \<in> set (desired_children w istio1).
               \<exists>(u, u') \<in> set l. conforms K dflt w (rec_version R) d (view u' k)))"
  by (rule interrupted_store.reconcile_interrupted [OF assms]) blast

section \<open>What is lost\<close>

text \<open>
  Another client deletes the namespace right after the first call, and creates one of the same
  name by hand.
\<close>

definition take_over :: "mem \<Rightarrow> mem" where
  "take_over s = s\<lparr> mem_objects := put_keyed key_of handmade_namespace (mem_objects s) \<rparr>"

definition overtaken :: "go_error option go_result \<times> mem busy" where
  "overtaken = Reconcile (busy_kube (mem_kube all_kinds)) (busy_workspace_client mem_wc) (busy_reconciler mem_rec)
     True True ''team'' (undisturbed [\<lambda>s. s, take_over] team_cluster)"

theorem interrupted_reconcile_witness:
  "bz_log (snd overtaken) \<noteq> []
    \<and> list_all (\<lambda>(u, u'). guarded_write (mem_view all_kinds) team u u') (bz_log (snd overtaken))"
proof -
  have "Reconcile (busy_kube (mem_kube all_kinds)) (busy_workspace_client mem_wc) (busy_reconciler mem_rec)
     True True ''team'' (undisturbed [\<lambda>s. s, take_over] team_cluster) = (fst overtaken, snd overtaken)"
    by (simp add: overtaken_def)
  from interrupted_reconcile [OF mem_interrupted.interrupted_store_axioms _ _ this, of team]
  show ?thesis by (auto simp: list_all_iff)
qed

text \<open>
  The check of the namespace and the writes of the children are not one transaction. In that run
  the reconciliation returns without an error and reports Ready, although the namespace now belongs
  to somebody else, and the members of the Workspace hold their roles in it. The next
  reconciliation reports the conflict and changes no object (\<open>foreign_namespace_untouched\<close>), so the
  RoleBinding stays.
\<close>

lemma overtaken_returns: "fst overtaken = Returns None"
  by code_simp

lemma overtaken_ready:
  "case mem_get_ws ''team'' (bz_state (snd overtaken)) of Inl e \<Rightarrow> False
   | Inr w \<Rightarrow> namespace_key w = namespace_key team \<and> w_uid w = w_uid team
      \<and> map cond_status (st_conditions (w_status w)) = [ConditionTrue]"
  by code_simp

lemma overtaken_namespace:
  "case mem_view all_kinds (bz_state (snd overtaken)) (namespace_key team) of None \<Rightarrow> False
   | Some x \<Rightarrow> foreign_namespace team x"
  by code_simp

lemma overtaken_roles:
  "binding_grants (mem_view all_kinds (bz_state (snd overtaken)) (role_binding_key team MemberRoleAdmin))
     MemberRoleAdmin ''alice''"
  by code_simp

lemma roles_in_foreign_namespace:
  assumes "Reconcile (mem_kube all_kinds) mem_wc mem_rec True True ''team'' (bz_state (snd overtaken)) = (out, s')"
  shows "\<exists>x. mem_view all_kinds s' (namespace_key team) = Some x \<and> foreign_namespace team x"
    and "binding_grants (mem_view all_kinds s' (role_binding_key team MemberRoleAdmin)) MemberRoleAdmin ''alice''"
proof -
  obtain w where w: "mem_get_ws ''team'' (bz_state (snd overtaken)) = Inr w" "namespace_key w = namespace_key team"
    "w_uid w = w_uid team"
    using overtaken_ready by (auto split: sum.splits)
  obtain x where x: "mem_view all_kinds (bz_state (snd overtaken)) (namespace_key team) = Some x" "foreign_namespace team x"
    using overtaken_namespace by (auto split: option.splits)
  have "mem_view all_kinds s' = mem_view all_kinds (bz_state (snd overtaken))"
    using mem_workspace_store.reconcile_foreign [OF _ _ assms, of w x] w x by (simp add: foreign_namespace_def)
  with x overtaken_roles show
    "\<exists>x. mem_view all_kinds s' (namespace_key team) = Some x \<and> foreign_namespace team x"
    "binding_grants (mem_view all_kinds s' (role_binding_key team MemberRoleAdmin)) MemberRoleAdmin ''alice''"
    by simp_all
qed

end
