(* ===== verification/Module_Interference.thy ===== *)
theory Module_Interference
  imports Interference Module_Stale Module_Frame
begin

text \<open>
  A reconciliation of a Module that other clients interrupt at every call: what it guarantees of
  its own writes, that the finalizer is stored before the Flux resource is written, and that the
  finalizer is taken off only after the Flux resource was seen to go.
\<close>

section \<open>The interrupted reconciler\<close>

definition busy_module_client :: "'s module_client \<Rightarrow> 's busy module_client" where
  "busy_module_client M =
     \<lparr> mc_get = (\<lambda>n b. mc_get M n (bz_state b)), mc_get_template = (\<lambda>n b. mc_get_template M n (bz_state b)),
       mc_list = (\<lambda>b. mc_list M (bz_state b)), mc_patch = (\<lambda>m m'. busy_call (mc_patch M m m')),
       mc_patch_status = (\<lambda>m m'. busy_call (mc_patch_status M m m')),
       mc_status_equal = mc_status_equal M \<rparr>"

lemma busy_module_client_simps [simp]:
  "mc_get (busy_module_client M) n b = mc_get M n (bz_state b)"
  "mc_get_template (busy_module_client M) n b = mc_get_template M n (bz_state b)"
  "mc_patch (busy_module_client M) m m' = busy_call (mc_patch M m m')"
  "mc_patch_status (busy_module_client M) m m' = busy_call (mc_patch_status M m m')"
  "mc_status_equal (busy_module_client M) = mc_status_equal M"
  by (simp_all add: busy_module_client_def)

lemma write_flux_busy [simp]: "write_flux (busy_kube K) = write_flux K"
  by (simp add: fun_eq_iff write_flux_def)

lemma fetch_busy [simp]:
  "fetchModuleTemplate (busy_kube K) (busy_module_client M) n b = fetchModuleTemplate K M n (bz_state b)"
  by (simp add: fetchModuleTemplate_def split: sum.split)

lemma resolve_busy [simp]:
  "resolveCleanupNamespace (busy_kube K) (busy_module_client M) m b = resolveCleanupNamespace K M m (bz_state b)"
  unfolding resolveCleanupNamespace_def fetch_busy ..

lemma flux_busy:
  assumes "desired_flux m mt = Some (kd, sp)"
  shows "reconcileResources_module (busy_kube K) m mt version =
      busy_call (reconcileResources_module K m mt version)"
  by (cases rule: reconcileResources_module_cases [of m mt "busy_kube K" version];
      cases rule: reconcileResources_module_cases [of m mt K version])
    (use assms in auto)

lemma no_flux_busy:
  "desired_flux m mt = None \<Longrightarrow> reconcileResources_module (busy_kube K) m mt version =
     (\<lambda>b. (Some (TemplateInvalidError (mt_name mt) ''neither helmRelease nor kustomization is defined''), b))"
  by (cases rule: reconcileResources_module_cases [of m mt "busy_kube K" version]) auto

lemma delete_flux_busy:
  "DeleteHelmRelease (busy_kube K) m ns = busy_call (DeleteHelmRelease K m ns)"
  "DeleteKustomization (busy_kube K) m ns = busy_call (DeleteKustomization K m ns)"
  by (auto simp: fun_eq_iff DeleteHelmRelease_def DeleteKustomization_def busy_call_def Let_def
      split: prod.split option.split)

lemma cleanup_busy:
  "cleanup_flux (busy_kube K) m ns =
     (if ns \<noteq> '''' then
        then_ok
          (if mst_helm_release_ref (m_status m) \<noteq> None then busy_call (DeleteHelmRelease K m ns)
           else (\<lambda>b. (None, b)))
          (if mst_kustomization_ref (m_status m) \<noteq> None then busy_call (DeleteKustomization K m ns)
           else (\<lambda>b. (None, b)))
      else (\<lambda>b. (None, b)))"
  by (simp add: cleanup_flux_def delete_flux_busy)

section \<open>What each call may do\<close>

text \<open>
  A write of a live Module leaves what it changes controlled by it; a clean-up leaves it deleted.
  Both concern Flux objects of the Module's name only.
\<close>

definition flux_write :: "('s \<Rightarrow> key \<Rightarrow> kobject option) \<Rightarrow> module \<Rightarrow> 's \<Rightarrow> 's \<Rightarrow> bool" where
  "flux_write view m s s' \<longleftrightarrow>
     (\<forall>k. view s' k \<noteq> view s k \<longrightarrow> k \<in> flux_keys (m_name m)
        \<and> (\<exists>x. view s' k = Some x \<and> controlled_by (module_owner m) (obj_meta x)))"

definition flux_removal :: "('s \<Rightarrow> key \<Rightarrow> kobject option) \<Rightarrow> module \<Rightarrow> 's \<Rightarrow> 's \<Rightarrow> bool" where
  "flux_removal view m s s' \<longleftrightarrow>
     (\<forall>k. view s' k \<noteq> view s k \<longrightarrow> k \<in> flux_keys (m_name m) \<and> gone_or_terminating (view s') k)"

lemma flux_write_same: "view s' = view s \<Longrightarrow> flux_write view m s s'"
  by (simp add: flux_write_def)

text \<open>
  After some call the Flux resource was as asked, if there was a template and it asks for one;
  after some call each Flux resource that the status refers to was absent or terminating in the namespace.
\<close>

definition flux_was_ready ::
  "'s kube \<Rightarrow> ('s \<Rightarrow> key \<Rightarrow> kobject option) \<Rightarrow> (obj_spec \<Rightarrow> obj_spec) \<Rightarrow> module \<Rightarrow> string
     \<Rightarrow> module_template option \<Rightarrow> ('s \<times> 's) list \<Rightarrow> bool" where
  "flux_was_ready K view dflt m version tmpl l \<longleftrightarrow>
     (case tmpl of None \<Rightarrow> True
      | Some mt \<Rightarrow> (case desired_flux m mt of None \<Rightarrow> True
          | Some (kd, sp) \<Rightarrow> \<exists>(u, u') \<in> set l. flux_ready K dflt m mt version sp (view u' (flux_key m mt kd))))"

definition refs_were_gone ::
  "('s \<Rightarrow> key \<Rightarrow> kobject option) \<Rightarrow> module \<Rightarrow> string \<Rightarrow> ('s \<times> 's) list \<Rightarrow> bool" where
  "refs_were_gone view m ns l \<longleftrightarrow>
     (mst_helm_release_ref (m_status m) \<noteq> None \<longrightarrow>
        (\<exists>(u, u') \<in> set l. gone_or_terminating (view u') (HelmReleaseKind, ns, m_name m)))
     \<and> (mst_kustomization_ref (m_status m) \<noteq> None \<longrightarrow>
        (\<exists>(u, u') \<in> set l. gone_or_terminating (view u') (KustomizationKind, ns, m_name m)))"

text \<open>
  Two more promises: a Module is stored under its name, and a patch of a Module is applied to the
  one that is stored, which it returns as it has become (and fails when there is none).
\<close>

locale interrupted_modules = merge_patch_store K view dflt M mod_view tmpl_view emit + interrupted_api K view dflt
  for K :: "'s kube"
    and view :: "'s \<Rightarrow> key \<Rightarrow> kobject option"
    and dflt :: "obj_spec \<Rightarrow> obj_spec"
    and M :: "'s module_client"
    and mod_view :: "'s \<Rightarrow> string \<Rightarrow> module option"
    and tmpl_view :: "'s \<Rightarrow> string \<Rightarrow> module_template option"
    and emit :: "event \<Rightarrow> 's \<Rightarrow> 's" +
  assumes mod_view_name: "mod_view s n = Some m \<Longrightarrow> m_name m = n"
    and patch_result:
      "mc_patch M m (m\<lparr> m_meta := (m_meta m)\<lparr> meta_finalizers := fs \<rparr> \<rparr>) s = (Inr m2, s') \<Longrightarrow>
         \<exists>x. mod_view s (m_name m) = Some x \<and> m2 = x\<lparr> m_meta := (m_meta x)\<lparr> meta_finalizers := fs \<rparr> \<rparr>"
begin

lemma flux_guarded:
  assumes "reconcileResources_module K m mt version s = (r, s')"
  shows "flux_write view m s s'"
proof (cases rule: reconcileResources_module_cases [of m mt K version])
  case none
  with assms show ?thesis by (simp add: flux_write_same)
next
  case (some kd sp)
  then have run: "k_create_or_update K (new_object kd (TargetNamespace m mt) (m_name m))
      (write_flux K m mt version sp) s = (r, s')"
    using assms by simp
  have "kd \<in> flux_kinds" using desired_flux_kind [OF some(1)] .
  with owned_write [OF run, of "module_owner m"] show ?thesis
    unfolding flux_write_def write_flux_def by fastforce
qed

lemma delete_flux_guarded:
  assumes "delete_ignoring_not_found K (kd, ns, m_name m) s = (r, s')" and "kd \<in> flux_kinds"
  shows "flux_removal view m s s' \<and> mod_view s' = mod_view s"
proof -
  obtain r0 where run: "k_delete K (kd, ns, m_name m) s = (r0, s')"
    using assms(1) by (auto simp: delete_ignoring_not_found_def split: prod.splits)
  have "flux_removal view m s s'"
    using delete_effect [OF run] assms(2) unfolding flux_removal_def by fastforce
  with mod_delete [OF run] show ?thesis by blast
qed

lemma cleanup_calls:
  "calls_satisfy (\<lambda>u u'. flux_removal view m u u' \<and> mod_view u' = mod_view u) (cleanup_flux (busy_kube K) m ns)"
proof -
  let ?G = "\<lambda>u u'. flux_removal view m u u' \<and> mod_view u' = mod_view u"
  have helm: "calls_satisfy ?G (busy_call (DeleteHelmRelease K m ns))"
    unfolding DeleteHelmRelease_eq by (rule calls_satisfy_call) (erule delete_flux_guarded, simp)
  have kust: "calls_satisfy ?G (busy_call (DeleteKustomization K m ns))"
    unfolding DeleteKustomization_eq by (rule calls_satisfy_call) (erule delete_flux_guarded, simp)
  show ?thesis
    unfolding cleanup_busy
    by (rule calls_satisfy_if [OF calls_satisfy_then [OF calls_satisfy_if [OF helm] calls_satisfy_if [OF kust]]])
qed

lemma cleanup_reaches:
  assumes "ns \<noteq> ''''"
  shows "calls_reach
     ((if mst_helm_release_ref (m_status m) \<noteq> None then {\<lambda>u. gone_or_terminating (view u) (HelmReleaseKind, ns, m_name m)} else {})
      \<union> (if mst_kustomization_ref (m_status m) \<noteq> None
         then {\<lambda>u. gone_or_terminating (view u) (KustomizationKind, ns, m_name m)} else {}))
     (cleanup_flux (busy_kube K) m ns)"
proof -
  have helm: "calls_reach {\<lambda>u. gone_or_terminating (view u) (HelmReleaseKind, ns, m_name m)} (busy_call (DeleteHelmRelease K m ns))"
    unfolding DeleteHelmRelease_eq by (rule calls_reach_call) (rule reconcile_step.step_goal [OF delete_step])
  have kust: "calls_reach {\<lambda>u. gone_or_terminating (view u) (KustomizationKind, ns, m_name m)} (busy_call (DeleteKustomization K m ns))"
    unfolding DeleteKustomization_eq by (rule calls_reach_call) (rule reconcile_step.step_goal [OF delete_step])
  have any: "calls_satisfy (\<lambda>_ _. True) (busy_call f)" for f :: "'s step" by (rule calls_satisfy_call) simp
  show ?thesis
    using assms calls_reach_then [OF calls_reach_if [OF helm] calls_reach_if [OF kust]
      calls_satisfy_if [OF any] calls_satisfy_if [OF any]]
    by (simp add: cleanup_busy)
qed

lemma cleanup_done:
  assumes "cleanup_flux (busy_kube K) m ns b = (None, b')" and "ns \<noteq> ''''"
  shows "refs_were_gone view m ns (own_calls b b')"
proof -
  have "\<exists>(u, u') \<in> set (own_calls b b'). P u'"
    if "P \<in> (if mst_helm_release_ref (m_status m) \<noteq> None then {\<lambda>u. gone_or_terminating (view u) (HelmReleaseKind, ns, m_name m)} else {})
      \<union> (if mst_kustomization_ref (m_status m) \<noteq> None
         then {\<lambda>u. gone_or_terminating (view u) (KustomizationKind, ns, m_name m)} else {})" for P
    using cleanup_reaches [OF assms(2)] assms(1) that unfolding calls_reach_def by blast
  then show ?thesis by (simp add: refs_were_gone_def)
qed

text \<open>The patch that takes the finalizer off, whatever is stored by then.\<close>

lemma release_patch:
  assumes m: "has_module_finalizer m"
    and patch: "mc_patch M m (m\<lparr> m_meta := k_remove_finalizer K (m_meta m) ModuleFinalizer \<rparr>) s = (Inr m2, s')"
    and y: "mod_view s' (m_name m) = Some y"
  shows "\<not> has_module_finalizer y"
proof -
  let ?fs = "meta_finalizers (k_remove_finalizer K (m_meta m) ModuleFinalizer)"
  have fs: "set ?fs = set (meta_finalizers (m_meta m)) - {ModuleFinalizer}" by (rule remove_finalizer(2))
  have p: "mc_patch M m (m\<lparr> m_meta := (m_meta m)\<lparr> meta_finalizers := ?fs \<rparr> \<rparr>) s = (Inr m2, s')"
    using patch remove_finalizer(1) [of "m_meta m" ModuleFinalizer] by simp
  have "?fs \<noteq> meta_finalizers (m_meta m)" using fs m unfolding has_module_finalizer_def by (metis Diff_iff insertI1)
  with patch_result [OF p] merge_patch [OF p] y fs show ?thesis
    by (auto simp: has_module_finalizer_def split: if_splits)
qed

lemma delete_interrupted:
  assumes run: "reconcileDelete (busy_kube K) (busy_module_client M) m b = (r, b')"
  obtains b1 where "calls_within (\<lambda>u u'. flux_removal view m u u' \<and> mod_view u' = mod_view u) b b1"
    and "calls_within (\<lambda>u u'. view u' = view u) b1 b'" and "length (own_calls b1 b') \<le> 1"
    and "own_calls b1 b' \<noteq> [] \<longrightarrow> resolveCleanupNamespace K M m (bz_state b) \<noteq> '''' \<longrightarrow>
      refs_were_gone view m (resolveCleanupNamespace K M m (bz_state b)) (own_calls b b1)"
    and "r = None \<and> has_module_finalizer m \<longrightarrow> (\<exists>(u, u') \<in> set (own_calls b1 b').
      \<forall>y. mod_view u' (m_name m) = Some y \<longrightarrow> \<not> has_module_finalizer y)"
proof (cases "has_module_finalizer m")
  case False
  with run have "b' = b" by (simp add: reconcileDelete_def contains_has)
  with False that [of b] show ?thesis by simp
next
  case True
  let ?ns = "resolveCleanupNamespace K M m (bz_state b)"
  let ?m' = "m\<lparr> m_meta := k_remove_finalizer K (m_meta m) ModuleFinalizer \<rparr>"
  obtain r1 b1 where clean: "cleanup_flux (busy_kube K) m ?ns b = (r1, b1)" by force
  then have first: "calls_within (\<lambda>u u'. flux_removal view m u u' \<and> mod_view u' = mod_view u) b b1"
    using cleanup_calls unfolding calls_satisfy_def by blast
  show ?thesis
  proof (cases r1)
    case (Some e)
    with run clean True have "r = Some e" "b' = b1" by (simp_all add: reconcileDelete_def contains_has)
    with first that show ?thesis by simp
  next
    case None
    obtain q b2 where patch: "busy_call (mc_patch M m ?m') b1 = (q, b2)" by force
    then obtain u u' where u: "mc_patch M m ?m' u = (q, u')" "extends b1 b2" "own_calls b1 b2 = [(u, u')]"
      by (rule busy_call_log)
    have final: "b' = b2" "r = None \<longrightarrow> (\<exists>m2. q = Inr m2)"
      using run clean None True patch by (auto simp: reconcileDelete_def contains_has split: sum.splits)
    show ?thesis
    proof (rule that [OF first])
      show "calls_within (\<lambda>u u'. view u' = view u) b1 b'" "length (own_calls b1 b') \<le> 1"
        using u mod_patch_objects [OF u(1)] by (simp_all add: final(1))
      show "own_calls b1 b' \<noteq> [] \<longrightarrow> ?ns \<noteq> '''' \<longrightarrow> refs_were_gone view m ?ns (own_calls b b1)"
        using cleanup_done clean None by blast
      show "r = None \<and> has_module_finalizer m \<longrightarrow> (\<exists>(u, u') \<in> set (own_calls b1 b').
          \<forall>y. mod_view u' (m_name m) = Some y \<longrightarrow> \<not> has_module_finalizer y)"
        using final(2) release_patch [OF True] u(1,3) by (auto simp: final(1))
    qed
  qed
qed

text \<open>Reporting changes no object.\<close>

lemma event_module_busy:
  assumes "rec_recorder R = Some emit" and "event_then (busy_reconciler R) ev res b = (out, b')"
  shows "out = Returns res \<and> calls_within (\<lambda>u u'. view u' = view u) b b'"
  using assms by (auto simp: event_busy mod_emit_objects elim!: busy_call_log)

lemma patch_status_busy:
  assumes "busy_call (mc_patch_status M m m') b = (r, b')"
  shows "calls_within (\<lambda>u u'. view u' = view u) b b'"
  using assms by (auto elim!: busy_call_log dest: mod_patch_status_objects)

lemma report_busy:
  assumes R: "rec_recorder R = Some emit"
    and run: "event_then (busy_reconciler R) ev res
      (setReadyConditionFalse_module (busy_kube K) (busy_module_client M) m reason message b) = (out, b')"
  shows "out = Returns res \<and> calls_within (\<lambda>u u'. view u' = view u) b b'"
proof -
  obtain r b1 where p: "busy_call (mc_patch_status M m
      (m\<lparr> m_status := ready_false_status_module (busy_kube K) m reason message \<rparr>)) b = (r, b1)" by force
  with run have "event_then (busy_reconciler R) ev res b1 = (out, b')"
    by (simp add: setReadyConditionFalse_module_def)
  from event_module_busy [OF R this] calls_within_trans [OF patch_status_busy [OF p]] show ?thesis by blast
qed

lemma handle_error_module_busy:
  assumes R: "rec_recorder R = Some emit"
    and run: "handleReconcileError_module (busy_kube K) (busy_module_client M) (busy_reconciler R) m err b = (out, b')"
  shows "out = Returns (if as_TemplateNotFoundError err \<noteq> None \<or> as_TemplateInvalidError err \<noteq> None
      then None else Some err) \<and> calls_within (\<lambda>u u'. view u' = view u) b b'"
  using run
  by (auto simp: handleReconcileError_module_def Let_def split: option.splits dest: report_busy [OF R])

lemma update_status_module_busy:
  assumes R: "rec_recorder R = Some emit"
    and run: "updateStatus_module (busy_kube K) (busy_module_client M) (busy_reconciler R) m mt b = (out, b')"
  shows "calls_within (\<lambda>u u'. view u' = view u) b b'"
proof (cases "mc_status_equal M (m_status m) (updated_status_module (busy_kube K) m mt b)")
  case True
  with run show ?thesis by (simp add: updateStatus_module_def Let_def)
next
  case False
  obtain r b1 where p: "busy_call (mc_patch_status M m
      (m\<lparr> m_status := updated_status_module (busy_kube K) m mt b \<rparr>)) b = (r, b1)" by force
  show ?thesis
  proof (cases r)
    case None
    with run False p have "event_then (busy_reconciler R)
        (reconciled_event ''Module resources reconciled for template %s'' (ms_template_ref (m_spec m))) None b1 = (out, b')"
      by (simp add: updateStatus_module_def Let_def)
    from event_module_busy [OF R this] calls_within_trans [OF patch_status_busy [OF p]] show ?thesis by blast
  next
    case (Some e)
    with run False p patch_status_busy [OF p] show ?thesis by (simp add: updateStatus_module_def Let_def)
  qed
qed

lemma sync_interrupted:
  assumes R: "rec_recorder R = Some emit"
    and run: "sync_module (busy_kube K) (busy_module_client M) (busy_reconciler R) m b = (out, b')"
  shows "calls_within (flux_write view m) b b' \<and> (out = Returns None \<longrightarrow>
    flux_was_ready K view dflt m (rec_version R) (tmpl_view (bz_state b) (ms_template_ref (m_spec m))) (own_calls b b'))"
proof (cases "fetchModuleTemplate K M (ms_template_ref (m_spec m)) (bz_state b)")
  case (Inl err)
  with run have "handleReconcileError_module (busy_kube K) (busy_module_client M) (busy_reconciler R) m err b = (out, b')"
    by (simp add: sync_module_def)
  note report = handle_error_module_busy [OF R this]
  have "tmpl_view (bz_state b) (ms_template_ref (m_spec m)) = None" if "out = Returns None"
    using Inl report that tmpl_get_external [of "ms_template_ref (m_spec m)" "bz_state b"]
      tmpl_get_missing [of "ms_template_ref (m_spec m)" "bz_state b"]
    by (auto simp: fetchModuleTemplate_def external_not_template_missing external_not_template_invalid
        split: sum.splits if_splits)
  with report show ?thesis
    by (auto simp: flux_was_ready_def elim: calls_within_mono intro: flux_write_same)
next
  case (Inr mt)
  then have mt: "tmpl_view (bz_state b) (ms_template_ref (m_spec m)) = Some mt"
    using tmpl_get_ok by (auto simp: fetchModuleTemplate_def split: sum.splits if_splits)
  obtain r b1 where res: "reconcileResources_module (busy_kube K) m mt (rec_version R) b = (r, b1)" by force
  have "calls_within (\<lambda>u u'. view u' = view u) b1 b'
    \<and> (out = Returns None \<longrightarrow> (case r of None \<Rightarrow> True | Some e \<Rightarrow> \<not> external e))"
  proof (cases r)
    case None
    with run Inr res update_status_module_busy [OF R, of m mt b1 out b'] show ?thesis by (simp add: sync_module_def)
  next
    case (Some e)
    with run Inr res handle_error_module_busy [OF R, of m e b1 out b'] show ?thesis
      by (auto simp: sync_module_def external_def)
  qed
  then have after: "calls_within (\<lambda>u u'. view u' = view u) b1 b'"
    "out = Returns None \<longrightarrow> (case r of None \<Rightarrow> True | Some e \<Rightarrow> \<not> external e)"
    by blast+
  show ?thesis
  proof (cases "desired_flux m mt")
    case None
    have "flux_was_ready K view dflt m (rec_version R) (tmpl_view (bz_state b) (ms_template_ref (m_spec m)))
        (own_calls b b')"
      by (simp add: flux_was_ready_def mt None)
    moreover have "b1 = b" using res by (simp add: no_flux_busy [OF None])
    ultimately show ?thesis using calls_within_mono [OF after(1), of "flux_write view m"] by (simp add: flux_write_same)
  next
    case (Some d)
    obtain kd sp where d: "desired_flux m mt = Some (kd, sp)" using Some by (cases d) simp
    from res [unfolded flux_busy [OF d]] obtain u u' where
      u: "reconcileResources_module K m mt (rec_version R) u = (r, u')" "extends b b1" "own_calls b b1 = [(u, u')]"
      by (rule busy_call_log)
    have one: "calls_within (flux_write view m) b b1" using u(2,3) flux_guarded [OF u(1)] by simp
    have "calls_within (flux_write view m) b1 b'" using after(1) by (rule calls_within_mono) (rule flux_write_same)
    with one have all: "calls_within (flux_write view m) b b'" by (rule calls_within_trans)
    have "flux_ready K dflt m mt (rec_version R) sp (view u' (flux_key m mt kd))" if "out = Returns None"
    proof -
      have "r = None" using after(2) that flux_external [OF d] u(1) by (cases r) auto
      with u(1) show ?thesis using reconcile_step.step_goal [OF flux_step [OF d]] by blast
    qed
    with all u(3) own_calls_append [OF u(2) conjunct1 [OF after(1)]] show ?thesis
      by (simp add: flux_was_ready_def mt d)
  qed
qed

lemma ensure_interrupted:
  assumes run: "ensure_finalizer (busy_kube K) (busy_module_client M) m b = (q, b1)"
  shows "calls_within (\<lambda>u u'. view u' = view u) b b1"
    and "q = Inr m1 \<Longrightarrow> m_name m1 = m_name m \<and> has_module_finalizer m1
      \<and> (m1 = m \<or> (\<exists>(u, u') \<in> set (own_calls b b1). mod_view u' (m_name m) = Some m1))"
proof -
  have "calls_within (\<lambda>u u'. view u' = view u) b b1 \<and> (q = Inr m1 \<longrightarrow> m_name m1 = m_name m \<and> has_module_finalizer m1
      \<and> (m1 = m \<or> (\<exists>(u, u') \<in> set (own_calls b b1). mod_view u' (m_name m) = Some m1)))"
  proof (cases "has_module_finalizer m")
    case True
    with run show ?thesis by (auto simp: ensure_finalizer_def contains_has)
  next
    case False
    let ?fs = "meta_finalizers (k_add_finalizer K (m_meta m) ModuleFinalizer)"
    have fs: "set ?fs = insert ModuleFinalizer (set (meta_finalizers (m_meta m)))" by (rule add_finalizer(2))
    then have ne: "?fs \<noteq> meta_finalizers (m_meta m)" using False unfolding has_module_finalizer_def by auto
    have "busy_call (mc_patch M m (m\<lparr> m_meta := (m_meta m)\<lparr> meta_finalizers := ?fs \<rparr> \<rparr>)) b = (q, b1)"
      using run False add_finalizer(1) [of "m_meta m" ModuleFinalizer] by (simp add: ensure_finalizer_def contains_has)
    then obtain u u' where
      u: "mc_patch M m (m\<lparr> m_meta := (m_meta m)\<lparr> meta_finalizers := ?fs \<rparr> \<rparr>) u = (q, u')" "extends b b1"
        "own_calls b b1 = [(u, u')]"
      by (rule busy_call_log)
    have "m_name m1 = m_name m \<and> has_module_finalizer m1 \<and> mod_view u' (m_name m) = Some m1" if q: "q = Inr m1"
    proof -
      obtain x where x: "mod_view u (m_name m) = Some x" and m1: "m1 = x\<lparr> m_meta := (m_meta x)\<lparr> meta_finalizers := ?fs \<rparr> \<rparr>"
        using patch_result [OF u(1) [unfolded q]] by blast
      have nonempty: "?fs \<noteq> []" using fs by force
      show ?thesis
        using merge_patch [OF u(1) [unfolded q] ne x] mod_view_name [OF x] nonempty fs
        by (simp add: m1 has_module_finalizer_def)
    qed
    with u mod_patch_objects [OF u(1)] show ?thesis by simp
  qed
  then show "calls_within (\<lambda>u u'. view u' = view u) b b1"
    and "q = Inr m1 \<Longrightarrow> m_name m1 = m_name m \<and> has_module_finalizer m1
      \<and> (m1 = m \<or> (\<exists>(u, u') \<in> set (own_calls b b1). mod_view u' (m_name m) = Some m1))"
    by blast+
qed

end

lemma mem_patch_module_result:
  assumes "mem_patch_module m (m\<lparr> m_meta := (m_meta m)\<lparr> meta_finalizers := fs \<rparr> \<rparr>) s = (Inr m2, s')"
  shows "\<exists>x. mem_mod s (m_name m) = Some x \<and> m2 = x\<lparr> m_meta := (m_meta x)\<lparr> meta_finalizers := fs \<rparr> \<rparr>"
  using assms by (auto simp: mem_patch_module_def Let_def split: option.splits)

interpretation mem_interrupted_modules:
  interrupted_modules "mem_kube L" "mem_view L" mem_default mem_mc mem_mod mem_tmpl mem_emit for L
  by (unfold_locales, unfold mc_simps) (auto intro: mem_mod_name mem_patch_module_result)

section \<open>Guarantees under interference\<close>

text \<open>
  Live Modules. Whatever other clients do before and after each call of a reconciliation of a
  live Module: up to the point where the Module is stored with its finalizer no call changes an
  object; after that every call changes Flux objects with the Module's name only, and leaves what
  it changes controlled by the Module as it was stored; and when the reconciliation returns
  without an error, the Flux resource was as the template asked right after one of the calls, if
  there was a template, as read after the finalizer, that asks for one.
\<close>

theorem interrupted_module_sync:
  assumes "interrupted_modules K view dflt M mod_view tmpl_view emit" and "rec_recorder R = Some emit"
    and "mc_get M name s = Inr m" and "deletion_timestamp (m_meta m) = None"
    and "Reconcile_module (busy_kube K) (busy_module_client M) (busy_reconciler R) name (undisturbed es s) = (out, b')"
  shows "\<exists>q b1. ensure_finalizer (busy_kube K) (busy_module_client M) m (undisturbed es s) = (q, b1)
    \<and> calls_within (\<lambda>u u'. view u' = view u) (undisturbed es s) b1
    \<and> (case q of Inl e \<Rightarrow> b' = b1 \<and> out = Returns (Some e)
       | Inr m1 \<Rightarrow> m_name m1 = name \<and> has_module_finalizer m1
           \<and> (m1 = m \<or> (\<exists>(u, u') \<in> set (bz_log b1). mod_view u' name = Some m1))
           \<and> calls_within (flux_write view m1) b1 b'
           \<and> (out = Returns None \<longrightarrow> flux_was_ready K view dflt m1 (rec_version R)
                (tmpl_view (bz_state b1) (ms_template_ref (m_spec m1))) (own_calls b1 b')))"
proof -
  have store: "module_store K view dflt M mod_view tmpl_view emit"
    using assms(1) by (simp add: interrupted_modules_def merge_patch_store_def)
  have name: "m_name m = name" using module_store.mod_get_ok [OF store assms(3)] by simp
  obtain q b1 where fin: "ensure_finalizer (busy_kube K) (busy_module_client M) m (undisturbed es s) = (q, b1)" by force
  have rest: "case q of Inl e \<Rightarrow> b' = b1 \<and> out = Returns (Some e)
      | Inr m1 \<Rightarrow> sync_module (busy_kube K) (busy_module_client M) (busy_reconciler R) m1 b1 = (out, b')"
    using assms(3-5) fin by (simp add: Reconcile_module_def split: sum.splits)
  show ?thesis
    using fin rest interrupted_modules.ensure_interrupted [OF assms(1) fin]
      interrupted_modules.sync_interrupted [OF assms(1,2)] name
    by (fastforce split: sum.splits)
qed

text \<open>Somebody removes the sample Module right after it got its finalizer.\<close>

definition removed_meanwhile :: "go_error option go_result \<times> mem busy" where
  "removed_meanwhile = Reconcile_module (busy_kube (mem_kube all_kinds)) (busy_module_client mem_mc)
     (busy_reconciler mem_rec) ''app'' (undisturbed [\<lambda>s. s, \<lambda>s. s\<lparr> mem_modules := [] \<rparr>] app_cluster)"

theorem interrupted_module_sync_witness:
  "case ensure_finalizer (busy_kube (mem_kube all_kinds)) (busy_module_client mem_mc) app
       (undisturbed [\<lambda>s. s, \<lambda>s. s\<lparr> mem_modules := [] \<rparr>] app_cluster) of
     (Inl e, b1) \<Rightarrow> b1 = snd removed_meanwhile
   | (Inr m1, b1) \<Rightarrow> m_name m1 = ''app'' \<and> has_module_finalizer m1"
proof -
  have "Reconcile_module (busy_kube (mem_kube all_kinds)) (busy_module_client mem_mc) (busy_reconciler mem_rec) ''app''
      (undisturbed [\<lambda>s. s, \<lambda>s. s\<lparr> mem_modules := [] \<rparr>] app_cluster) = (fst removed_meanwhile, snd removed_meanwhile)"
    by (simp add: removed_meanwhile_def)
  note main = interrupted_module_sync [OF mem_interrupted_modules.interrupted_modules_axioms _ _ _ this, of app]
  obtain q b1 where "ensure_finalizer (busy_kube (mem_kube all_kinds)) (busy_module_client mem_mc) app
      (undisturbed [\<lambda>s. s, \<lambda>s. s\<lparr> mem_modules := [] \<rparr>] app_cluster) = (q, b1)"
    by force
  then show ?thesis using main by (cases q) simp_all
qed

text \<open>
  Clean-up under interference. Whatever other clients do meanwhile, a reconciliation of a
  Module that is being deleted makes its calls in two parts. Those of the first leave the
  stored Modules alone, change Flux objects with the Module's name only, and leave what they
  change deleted. The second is at most one call, which changes no object and, if the
  reconciliation succeeds, leaves the Module without the finalizer; it is made only after each
  Flux resource the status refers to was absent or terminating right after some call of the first part.
\<close>

theorem interrupted_module_deletion:
  assumes "interrupted_modules K view dflt M mod_view tmpl_view emit"
    and "mc_get M name s = Inr m" and "deletion_timestamp (m_meta m) \<noteq> None"
    and "Reconcile_module (busy_kube K) (busy_module_client M) (busy_reconciler R) name (undisturbed es s) = (out, b')"
    and "at_most_one_ref (m_status m)"
  shows "\<exists>pre post. bz_log b' = pre @ post
    \<and> (\<forall>(u, u') \<in> set pre. flux_removal view m u u' \<and> mod_view u' = mod_view u)
    \<and> length post \<le> 1 \<and> (\<forall>(u, u') \<in> set post. view u' = view u)
    \<and> (out = Returns None \<and> has_module_finalizer m \<longrightarrow>
        (\<exists>(u, u') \<in> set post. \<forall>y. mod_view u' name = Some y \<longrightarrow> \<not> has_module_finalizer y))
    \<and> (post \<noteq> [] \<longrightarrow>
        (case mst_helm_release_ref (m_status m) of None \<Rightarrow> True
         | Some r \<Rightarrow> ar_namespace r = '''' \<or> (\<exists>(u, u') \<in> set pre. gone_or_terminating (view u') (HelmReleaseKind, ar_namespace r, name)))
        \<and> (case mst_kustomization_ref (m_status m) of None \<Rightarrow> True
         | Some r \<Rightarrow> ar_namespace r = '''' \<or> (\<exists>(u, u') \<in> set pre. gone_or_terminating (view u') (KustomizationKind, ar_namespace r, name))))"
proof -
  let ?b = "undisturbed es s"
  let ?ns = "resolveCleanupNamespace K M m s"
  have store: "module_store K view dflt M mod_view tmpl_view emit"
    using assms(1) by (simp add: interrupted_modules_def merge_patch_store_def)
  have name: "m_name m = name" using module_store.mod_get_ok [OF store assms(2)] by simp
  obtain r where run: "reconcileDelete (busy_kube K) (busy_module_client M) m ?b = (r, b')" and out: "out = Returns r"
    using assms(2-4) by (auto simp: Reconcile_module_def split: prod.splits)
  from interrupted_modules.delete_interrupted [OF assms(1) run] obtain b1 where
    b1: "calls_within (\<lambda>u u'. flux_removal view m u u' \<and> mod_view u' = mod_view u) ?b b1"
    and b2: "calls_within (\<lambda>u u'. view u' = view u) b1 b'" "length (own_calls b1 b') \<le> 1"
    and refs: "own_calls b1 b' \<noteq> [] \<longrightarrow> ?ns \<noteq> '''' \<longrightarrow> refs_were_gone view m ?ns (own_calls ?b b1)"
    and released: "r = None \<and> has_module_finalizer m \<longrightarrow> (\<exists>(u, u') \<in> set (own_calls b1 b').
      \<forall>y. mod_view u' (m_name m) = Some y \<longrightarrow> \<not> has_module_finalizer y)"
    by auto
  have "bz_log b' = own_calls ?b b1 @ own_calls b1 b'"
    using own_calls_append [OF conjunct1 [OF b1] conjunct1 [OF b2(1)]] by simp
  moreover have "own_calls b1 b' \<noteq> [] \<longrightarrow>
      (case mst_helm_release_ref (m_status m) of None \<Rightarrow> True
       | Some r \<Rightarrow> ar_namespace r = '''' \<or> (\<exists>(u, u') \<in> set (own_calls ?b b1). gone_or_terminating (view u') (HelmReleaseKind, ar_namespace r, name)))
      \<and> (case mst_kustomization_ref (m_status m) of None \<Rightarrow> True
       | Some r \<Rightarrow> ar_namespace r = '''' \<or> (\<exists>(u, u') \<in> set (own_calls ?b b1). gone_or_terminating (view u') (KustomizationKind, ar_namespace r, name)))"
    using refs assms(5) unfolding at_most_one_ref_def refs_were_gone_def resolveCleanupNamespace_def Let_def name
    by (auto split: option.splits if_splits)
  ultimately show ?thesis
    using b1 b2 released out name by (intro exI [of _ "own_calls ?b b1"] exI [of _ "own_calls b1 b'"]) simp
qed

text \<open>
  Somebody writes the HelmRelease of the deleted sample Module again, as soon as it has been
  deleted; the Module goes nevertheless.
\<close>

definition written_again :: "mem \<Rightarrow> mem" where
  "written_again s = s\<lparr> mem_objects := mem_objects deleting_cluster \<rparr>"

definition deleted_in_company :: "go_error option go_result \<times> mem busy" where
  "deleted_in_company = Reconcile_module (busy_kube (mem_kube all_kinds)) (busy_module_client mem_mc)
     (busy_reconciler mem_rec) ''app'' (undisturbed [\<lambda>s. s, written_again] deleting_cluster)"

lemma deleted_in_company_result:
  "fst deleted_in_company = Returns None \<and> mem_mod (bz_state (snd deleted_in_company)) ''app'' = None"
proof -
  have "fst deleted_in_company = Returns None" by code_simp
  moreover have "mem_mod (bz_state (snd deleted_in_company)) ''app'' = None"
    unfolding Option.is_none_def [symmetric] by code_simp
  ultimately show ?thesis ..
qed

theorem interrupted_module_deletion_witness:
  "list_ex (\<lambda>(u, u'). gone_or_terminating (mem_view all_kinds u') (HelmReleaseKind, ''apps'', ''app'')) (bz_log (snd deleted_in_company))"
proof -
  have "Reconcile_module (busy_kube (mem_kube all_kinds)) (busy_module_client mem_mc) (busy_reconciler mem_rec) ''app''
      (undisturbed [\<lambda>s. s, written_again] deleting_cluster) = (Returns None, snd deleted_in_company)"
    using deleted_in_company_result by (simp add: deleted_in_company_def prod_eq_iff)
  moreover have "deletion_timestamp (m_meta app_deleted) \<noteq> None" "at_most_one_ref (m_status app_deleted)"
    "has_module_finalizer app_deleted"
    "mst_helm_release_ref (m_status app_deleted) = Some \<lparr> ar_name = ''app'', ar_namespace = ''apps'' \<rparr>"
    by (simp_all add: app_deleted_def app_fin_def has_module_finalizer_def at_most_one_ref_def empty_module_status_def)
  ultimately show ?thesis
    using interrupted_module_deletion [OF mem_interrupted_modules.interrupted_modules_axioms [of all_kinds],
        of "''app''" deleting_cluster app_deleted mem_rec "[\<lambda>s. s, written_again]"]
    by (fastforce simp: list_ex_iff)
qed

section \<open>Whose Flux resource is deleted\<close>

text \<open>
  The clean-up deletes by kind, namespace and name and does not look at the owner: a HelmRelease
  that another program has put in the place of the Module's, and controls, is deleted with the
  Module. The write refuses such an object (\<open>SetControllerReference\<close>).
\<close>

definition other_release :: kobject where
  "other_release = (new_object HelmReleaseKind ''apps'' ''app'')\<lparr> obj_meta := (object_meta_named ''apps'' ''app'')\<lparr>
     owner_references := [\<lparr> ref_kind = ''Bundle'', ref_name = ''b'', ref_uid = ''u'', ref_controller = True \<rparr>],
     creation_timestamp := Some 3 \<rparr> \<rparr>"

definition replaced_cluster :: mem where
  "replaced_cluster = deleting_cluster\<lparr> mem_objects := [other_release] \<rparr>"

lemma other_release_refused:
  "controlled_by_other (module_owner app_deleted) (obj_meta other_release)
   \<and> fst (reconcileResources_module (mem_kube all_kinds) app_deleted chart ''v1'' replaced_cluster) \<noteq> None"
proof -
  have "Option.is_none (fst (reconcileResources_module (mem_kube all_kinds) app_deleted chart ''v1'' replaced_cluster))
      = False"
    by code_simp
  then show ?thesis by (auto simp: controlled_by_other_def other_release_def Option.is_none_def)
qed

lemma other_release_deleted:
  assumes "Reconcile_module (mem_kube all_kinds) mem_mc mem_rec ''app'' replaced_cluster = (out, s')"
  shows "mem_view all_kinds replaced_cluster (HelmReleaseKind, ''apps'', ''app'') = Some other_release"
    and "out = Returns None" and "gone_or_terminating (mem_view all_kinds s') (HelmReleaseKind, ''apps'', ''app'')"
proof -
  show "mem_view all_kinds replaced_cluster (HelmReleaseKind, ''apps'', ''app'') = Some other_release"
    by (simp add: replaced_cluster_def mem_view_def keyed_def other_release_def key_of_def new_object_def
        object_meta_named_def)
  have "fst (app_run replaced_cluster) = Returns None" by code_simp
  then show "out = Returns None" using assms by (simp add: app_run_def)
  have "Option.is_none (mem_view all_kinds (snd (app_run replaced_cluster)) (HelmReleaseKind, ''apps'', ''app''))"
    by code_simp
  then show "gone_or_terminating (mem_view all_kinds s') (HelmReleaseKind, ''apps'', ''app'')"
    using assms by (simp add: app_run_def Option.is_none_def gone_or_terminating_def)
qed

end
