(* ===== verification/Operator_Interference.thy ===== *)
theory Operator_Interference
  imports Workspace_Interference Module_Interference Operator_Runs
begin

text \<open>
  Reconciliations that run at the same time. What the two theories on interference guarantee of
  the calls of one reconciler is what the other needs of its company: the calls of a pass over a
  Module, and those over a Workspace with another namespace, keep away from the objects of
  a Workspace, so that what it achieves stands when it returns.
\<close>

lemma module_calls_keep_away:
  "(\<And>s. flux_write view m s (e s) \<or> flux_removal view m s (e s)) \<Longrightarrow> keeps_away view (workspace_keys w) e"
  unfolding keeps_away_def flux_write_def flux_removal_def using controllers_disjoint by blast

lemma workspace_calls_keep_away:
  assumes "\<And>s. guarded_write view w' s (e s)" and "w_namespace w' \<noteq> w_namespace w"
  shows "keeps_away view (workspace_keys w) e"
  using assms(1) workspace_keys_disjoint [OF assms(2)] unfolding keeps_away_def guarded_write_def by blast

text \<open>
  Concurrency. Let others act before and after each call of a reconciliation of a Workspace,
  each action a write by a pass over some Module, alive or deleted, or by a pass over a Workspace
  with another namespace, or one that keeps the objects of this Workspace as they are. When the
  reconciliation returns without an error, then the namespace and all children are in their
  desired state together, or the namespace was foreign from the start.
\<close>

theorem concurrent_reconcile:
  assumes "interrupted_store K view dflt W ws_view emit" and "rec_recorder R = Some emit"
    and "wc_get W name s = Inr w"
    and "Reconcile (busy_kube K) (busy_workspace_client W) (busy_reconciler R) istio1 istio2 name
      (undisturbed es s) = (Returns None, b')"
    and "\<forall>e \<in> set es. (\<exists>m. \<forall>u. flux_write view m u (e u) \<or> flux_removal view m u (e u))
      \<or> (\<exists>w'. w_namespace w' \<noteq> w_namespace w \<and> (\<forall>u. guarded_write view w' u (e u)))
      \<or> keeps_away view (workspace_keys w) e"
  shows "workspace_ready K dflt w (rec_version R) istio1 (view (bz_state b'))
    \<or> (\<exists>x. view s (namespace_key w) = Some x \<and> foreign_namespace w x)"
proof (rule interrupted_store.reconcile_in_company [OF assms(1-4)], rule ballI)
  fix e
  assume "e \<in> set es"
  with assms(5) show "keeps_away view (workspace_keys w) e"
    using module_calls_keep_away workspace_calls_keep_away by metis
qed

text \<open>The sample Workspace, while the Flux resource of the sample Module is written after the first call.\<close>

definition module_writes :: "mem \<Rightarrow> mem" where
  "module_writes s = snd (reconcileResources_module (mem_kube all_kinds) app chart ''v1'' s)"

definition in_company :: "go_error option go_result \<times> mem busy" where
  "in_company = Reconcile (busy_kube (mem_kube all_kinds)) (busy_workspace_client mem_wc) (busy_reconciler mem_rec)
     True True ''team'' (undisturbed ([\<lambda>s. s, module_writes]) team_cluster)"

theorem concurrent_reconcile_witness:
  "workspace_ready (mem_kube all_kinds) mem_default team ''v1'' True (mem_view all_kinds (bz_state (snd in_company)))"
proof -
  have "fst in_company = Returns None" by code_simp
  then have run: "Reconcile (busy_kube (mem_kube all_kinds)) (busy_workspace_client mem_wc) (busy_reconciler mem_rec)
      True True ''team'' (undisturbed ([\<lambda>s. s, module_writes]) team_cluster) = (Returns None, snd in_company)"
    by (simp add: in_company_def prod_eq_iff)
  have writes: "flux_write (mem_view all_kinds) app u (module_writes u)" for u
    using mem_interrupted_modules.flux_guarded [of all_kinds app chart "''v1''" u] by (simp add: module_writes_def prod_eq_iff)
  have free: "mem_view all_kinds team_cluster (namespace_key team) = None" by simp
  have "keeps_away (mem_view all_kinds) (workspace_keys team) (\<lambda>s. s)" by (simp add: keeps_away_def)
  with writes have "\<forall>e \<in> set [\<lambda>s. s, module_writes].
      (\<exists>m. \<forall>u. flux_write (mem_view all_kinds) m u (e u) \<or> flux_removal (mem_view all_kinds) m u (e u))
      \<or> (\<exists>w'. w_namespace w' \<noteq> w_namespace team \<and> (\<forall>u. guarded_write (mem_view all_kinds) w' u (e u)))
      \<or> keeps_away (mem_view all_kinds) (workspace_keys team) e"
    by (simp only: list.set ball_simps) blast
  from concurrent_reconcile [OF mem_interrupted.interrupted_store_axioms _ _ run this] free
  show ?thesis by simp
qed

end
