(* ===== verification/Spec2Isabelle.thy ===== *)
theory Spec2Isabelle
  imports Workspace_Webhook Workspace_Outcomes Workspace_Settling Module_Properties Manager_Main
    DeepCopy_Properties Api_Registration Operator_Properties Operator_Permissions Label_Bounds
    Workspace_Drift Module_Sweep Deployment Status_Properties Module_Stale Module_Orphans Operator_Interference
begin

text \<open>
  A verification library for the otterscale-operator, a Kubernetes operator in Go with two
  controllers. This theory is the root: it imports the others and holds the properties that
  span components.

  The program. A \<open>Workspace\<close> (tenant API group) stands for a namespace with members, quotas and
  network isolation. Its reconciler (\<open>internal/controller/tenant\<close>) calls the domain functions of
  \<open>internal/core/workspace\<close> in order, Namespace, RoleBindings, ResourceQuota, LimitRange, network
  isolation, and reports in the status; which isolation back end is used depends on a flag that
  the Istio detector keeps up to date. An admission webhook
  (\<open>internal/webhook/tenant/v1alpha1\<close>) mirrors the members as labels and lets only admins of a
  Workspace change it. A \<open>Module\<close> (addons API group) instantiates a \<open>ModuleTemplate\<close> as a Flux
  HelmRelease or Kustomization; its reconciler (\<open>internal/controller/addons\<close>, domain functions in
  \<open>internal/core/module\<close>) keeps a finalizer so that the Flux resource is deleted first.
  \<open>cmd/main.go\<close> wires everything to a controller-runtime manager.

  The model. Each Go function that does something is a function of the same name (a suffix tells
  the two controllers apart where they share one). A function that talks to the cluster is a
  \<open>step\<close>, from the state of the outside world to an error value and the next state. The
  third-party client (controller-runtime, apimachinery, the Flux and Istio types) is a
  parameter: the records \<open>kube\<close>, \<open>workspace_client\<close> and \<open>module_client\<close> hold the operations
  the code calls, and the locales \<open>kube_api\<close>, \<open>condition_api\<close>, \<open>finalizer_api\<close>,
  \<open>workspace_store\<close> and \<open>module_store\<close> state what their documentation promises (with
  \<open>operator_clients\<close> and \<open>operator_system\<close> for both controllers on one API server). The promises
  are those of one call; a write that fails may have been applied. Most theorems are about
  reconciliations that no other writer interrupts: a run of the operator is a sequence of steps,
  each a pass of a controller, a refresh of the Istio flag, requests of users through the webhook,
  or writes of other programs. The theories on interference let others write before and after
  every call. \<open>Mem_Cluster\<close> is an API server in memory that keeps the promises
  (the locales are interpreted on it) and can be scripted to fail; the witnesses run there.

  The theories.
  \<^item> \<open>Go_Prelude\<close>: error values with \<open>errors.As\<close>, panics, nil maps, sequencing with early return.
  \<^item> \<open>Reconcile_Step\<close>: the contract of a reconcile function (footprint, goal) and how contracts
    compose; every reconcile function below is shown to keep it.
  \<^item> \<open>Kube_Types\<close>, \<open>Kube_Api\<close>, \<open>Labels\<close>: objects, the client parameter and its laws, label sets.
  \<^item> \<open>Workspace_Types\<close>: the Workspace types and the rules of the CRD; \<open>Workspace_Samples\<close>.
  \<^item> \<open>Workspace_Authorization\<close>, \<open>Workspace_Webhook\<close>: who may modify a Workspace; defaulter and
    validator; sequences of requests and what they cannot do.
  \<^item> \<open>Workspace_Helpers\<close>, \<open>Workspace_Namespace\<close>, \<open>Workspace_Children\<close>, \<open>Network_Isolation\<close>: the
    domain functions, each with the desired state it establishes; the policies' meaning.
  \<^item> \<open>Istio_Detector\<close>: the flag as a state machine over the answers of the API server.
  \<^item> \<open>Reconciler\<close>: the recorder, which may be nil, and the Ready condition, for both controllers.
  \<^item> \<open>Workspace_Controller\<close>, \<open>Workspace_Store\<close>, \<open>Workspace_Convergence\<close>, \<open>Workspace_Stability\<close>:
    the reconciler, the laws of the Workspace client, success without faults, and what no pass
    can disturb. \<open>Workspace_Settling\<close>: the loop that the watches of the owned objects close, and
    that it ends. \<open>Workspace_Properties\<close> and \<open>Workspace_Outcomes\<close>: refinement of the table of desired children, liveness, frame,
    non-interference, no take-over of namespaces, idempotence, errors, honest status, exact
    grants, exclusive back ends.
  \<^item> \<open>Module_Types\<close>, \<open>Module_Core\<close>, \<open>Module_Controller\<close>, \<open>Module_Store\<close>, \<open>Module_Frame\<close>,
    \<open>Module_Guarantees\<close>, \<open>Module_Convergence\<close>, \<open>Module_Properties\<close>: the same for Modules:
    refinement, what a run may touch, finalizer protocol, retries, success without faults,
    mirrored readiness, and the shortfalls found.
  \<^item> \<open>Watch_Events\<close>: the event handlers of controller-runtime, as a contract. \<open>Workspace_Drift\<close>,
    \<open>Module_Sweep\<close>: what the watches achieve: changed or deleted objects are restored, a changed
    template reaches all its Modules, a deleted Module is let go.
  \<^item> \<open>Command_Line\<close>: what the program uses of the package \<open>flag\<close>. \<open>Manager_Main\<close>: the flags,
    server options, wiring, and the order of the start-up. \<open>Deployment\<close>: the role, the webhook
    rules and the container of the manifests, and that they fit the program.
    \<open>Api_Registration\<close>: the group versions, the scheme builders and the \<open>init\<close> functions.
  \<^item> \<open>Operator_Runs\<close>, \<open>Operator_Sweep\<close>, \<open>Operator_Properties\<close>: both controllers, the detector, the
    webhook and other writers as one step relation; invariants of its runs, and the sweep over
    all Workspaces that a change of the Istio CRDs sets off.
  \<^item> \<open>Operator_Permissions\<close>: the RBAC markers as rules, and that under them only events are lost.
    \<open>Label_Bounds\<close>: which of the labels it writes the API server accepts.
  \<^item> \<open>Go_Heap\<close>, \<open>DeepCopy_Types\<close>, \<open>Workspace_DeepCopy\<close>, \<open>Module_DeepCopy\<close>, \<open>DeepCopy_Objects\<close>,
    \<open>Mem_Imports\<close>, \<open>DeepCopy_Properties\<close>: the generated deep copies
    (\<open>api/*/v1alpha1/zz_generated.deepcopy.go\<close>) over an explicit heap of cells, with pointers and
    slices as addresses. The contract \<open>deep_copyable\<close> (same value, fresh memory, no cell twice) is proved once for
    pointers, slices and structs and holds of every type; the methods of imported types are a
    parameter. A nil slice and an empty one have the same value.
  \<^item> \<open>Heap_Frame\<close>, \<open>Object_Memory\<close>, \<open>Status_Memory\<close>, \<open>Module_Status_Memory\<close>, \<open>Mem_Conditions\<close>,
    \<open>Status_Properties\<close>: the two functions of each controller that patch the status once more, over
    the heap, statement for statement; that they refine those of \<open>Workspace_Controller\<close> and
    \<open>Module_Controller\<close>, and that no object in the cache of the client is ever written to. What
    both controllers need of an object in memory is stated once, in the locales of \<open>Object_Memory\<close>.
  \<^item> \<open>Interference\<close>, \<open>Workspace_Interference\<close>, \<open>Module_Interference\<close>, \<open>Operator_Interference\<close>: the same
    reconcilers against a client that other writers interrupt at every call, with a log of the own
    calls: what each call still respects, what has been achieved at return, the order of finalizer
    and Flux resource, and the race that loses a namespace. A rely/guarantee contract
    (\<open>rely_step\<close>) shows that passes over Modules and over other Workspaces, call by call, are
    company in which a pass over a Workspace achieves what it achieves alone.
  \<^item> \<open>Module_Orphans\<close>: the Flux resource that is left behind when a Module changes what it asks for.
  \<^item> \<open>Module_Stale\<close>: the finalizer patches of a Module that was read from a cache that is behind.

  No fuel is used: every loop of the program is a structural recursion over a list; the loop of
  the watches is a partial function shown to end.

  Not modelled: logging and contexts, the caches and queues of controller-runtime (a
  reconciliation is a function from state to state; outside the theories on interference two are
  interleaved as wholes, and only the Istio flag can change in the middle of one), the helpers of the end-to-end tests, and of the
  manifests all but roles, webhook rules and the manager's container (the CRDs are generated from
  the markers, which are modelled; the rest is services, certificates and monitoring). Outside the theories over the heap, values are immutable: a patch gets the old and
  the new object, which \<open>Status_Properties\<close> justifies for the two statuses, and the
  independence of a deep copy for the finalizer. Label maps are partial
  functions, so iteration order plays no role. Spec types of other projects are JSON documents
  that the operator copies.
\<close>

section \<open>The two controllers share no object\<close>

text \<open>
  The Module controller never disturbs a Workspace: a reconciliation of a Module, however it
  ends and whatever the Module is called, keeps every Workspace in its desired state.
\<close>

theorem modules_keep_workspaces:
  assumes "module_store K view dflt M mod_view tmpl_view emit" and "rec_recorder R = Some emit"
    and "mc_get M name s = Inr m" and "Reconcile_module K M R name s = (out, s')"
    and "workspace_ready K dflt w version istio (view s)"
  shows "workspace_ready K dflt w version istio (view s')"
proof -
  have K: "kube_api K view dflt" using assms(1) by (simp add: module_store_def)
  have "view s' k = view s k" if "k \<in> workspace_keys w" for k
    using module_store.reconcile_module_foot [OF assms(1) _ assms(4)] assms(2) that controllers_disjoint by blast
  then show ?thesis
    using reconcile_step.goal_local [OF kube_api.resources_step [OF K]] assms(5) by blast
qed

theorem modules_keep_workspaces_witness:
  "\<exists>s out s'. Reconcile_module (mem_kube all_kinds) mem_mc mem_rec ''app'' s = (out, s')
     \<and> workspace_ready (mem_kube all_kinds) mem_default team ''v1'' True (mem_view all_kinds s')"
proof -
  obtain s1 where
    ready: "workspace_ready (mem_kube all_kinds) mem_default team ''v1'' True (mem_view all_kinds s1)"
    using team_reconciled [of True] by blast
  let ?s = "s1\<lparr> mem_modules := [app] \<rparr>"
  have get: "mem_get_module ''app'' ?s = Inr app" by (simp add: mem_get_module_def mem_mod_def keyed_def)
  obtain out s' where run:
    "Reconcile_module (mem_kube all_kinds) mem_mc mem_rec ''app'' ?s = (out, s')" by force
  have "workspace_ready (mem_kube all_kinds) mem_default team ''v1'' True (mem_view all_kinds s')"
    by (rule modules_keep_workspaces [OF mem_module_store.module_store_axioms _ _ run, of app])
      (use get ready in simp_all)
  with run show ?thesis by blast
qed

text \<open>
  Nor does the Workspace controller disturb a Module: a reconciliation of a Workspace,
  however it ends, keeps every Flux resource as its Module and template ask for it.
\<close>

theorem workspaces_keep_modules:
  assumes "workspace_store K view dflt W ws_view emit" and "rec_recorder R = Some emit"
    and "wc_get W name s = Inr w" and "Reconcile K W R istio1 istio2 name s = (out, s')"
    and "desired_flux m mt = Some (kd, sp)"
    and "flux_ready K dflt m mt version sp (view s (flux_key m mt kd))"
  shows "flux_ready K dflt m mt version sp (view s' (flux_key m mt kd))"
proof -
  have "kd = HelmReleaseKind \<or> kd = KustomizationKind"
    using assms(5) by (auto simp: desired_flux_def split: option.splits)
  then have "flux_key m mt kd \<in> flux_keys (m_name m)" by (auto simp: flux_keys_def flux_key_def)
  then have "flux_key m mt kd \<notin> workspace_keys w" using controllers_disjoint by blast
  with workspace_store.reconcile_frame [OF assms(1,2,4,3)] assms(6) show ?thesis by simp
qed

theorem workspaces_keep_modules_witness:
  "\<exists>s out s'. Reconcile (mem_kube all_kinds) mem_wc mem_rec True True ''other'' s = (out, s')
     \<and> flux_ready (mem_kube all_kinds) mem_default app chart ''v1'' app_spec
         (mem_view all_kinds s' (HelmReleaseKind, ''apps'', ''app''))"
proof -
  let ?s = "app_done\<lparr> mem_workspaces := [other_team] \<rparr>"
  obtain out s' where run:
    "Reconcile (mem_kube all_kinds) mem_wc mem_rec True True ''other'' ?s = (out, s')" by force
  from workspaces_keep_modules [OF mem_workspace_store.workspace_store_axioms _ _ run app_flux,
      of other_team "''v1''"] app_ready run
  show ?thesis by (auto simp: flux_key_def)
qed

section \<open>From the request to the role\<close>

text \<open>
  C28: One notion of admin. For a Workspace that requests can have brought into an empty store,
  once its children have been reconciled, the users that the RoleBinding of the role admin
  grants that role in the namespace are exactly those, beside privileged groups and the operator
  itself, that the webhook lets modify the Workspace.
\<close>

theorem admin_binding_iff_may_modify:
  assumes "requests operatorSA Map.empty rs S" and "S n = Some w"
    and "kube_api K view dflt"
    and "\<And>subs ref. groups_set subs ref \<Longrightarrow> dflt (RoleBindingSpec subs ref) = RoleBindingSpec subs ref"
    and "reconcileResources K w version istio s = (None, s')"
    and "\<not> isPrivileged u" and "user_name u \<noteq> operatorSA"
  shows "binding_grants (view s' (role_binding_key w MemberRoleAdmin)) MemberRoleAdmin (user_name u) \<longleftrightarrow>
    AuthorizeModification u w operatorSA = None"
proof -
  have "good_store S" using requests_good [OF assms(1)] by (simp add: good_store_def)
  with assms(2) have "valid_workspace_spec (w_spec w)" by (auto simp: good_store_def good_workspace_def)
  then have used: "role_in_use (w_members w) MemberRoleAdmin"
    by (force simp: role_in_use_iff image_iff dest!: valid_spec_admin)
  have "conforms K dflt w version (desired_role_binding w MemberRoleAdmin)
      (view s' (role_binding_key w MemberRoleAdmin))"
    using reconcile_step.step_goal [OF kube_api.resources_step [OF assms(3)] assms(5)]
    by (simp add: workspace_ready_split orderedRoles_def)
  from desired_role_binding_grants [OF this assms(4), of "user_name u"] used assms(6,7)
  show ?thesis by (auto simp: AuthorizeModification_def isWorkspaceAdmin_iff)
qed

definition stored_team_resources :: "go_error option \<times> mem" where
  "stored_team_resources =
     reconcileResources (mem_kube all_kinds) stored_team ''v1'' True team_cluster"

theorem admin_binding_iff_may_modify_witness:
  "\<not> binding_grants (mem_view all_kinds (snd stored_team_resources)
       (role_binding_key stored_team MemberRoleAdmin)) MemberRoleAdmin ''bob''"
proof -
  have "fst stored_team_resources = None" by code_simp
  then have run: "reconcileResources (mem_kube all_kinds) stored_team ''v1'' True team_cluster =
      (None, snd stored_team_resources)"
    by (simp add: stored_team_resources_def prod_eq_iff)
  have "\<not> isPrivileged bob_user"
    by (simp add: isPrivileged_def bob_user_def privilegedGroups_def slices_contains_def)
  with admin_binding_iff_may_modify [OF create_team_requests _ mem_api.kube_api_axioms _ run,
      of "''team''" bob_user "''system:serviceaccount:o:m''"] bob_not_allowed
  show ?thesis by (simp add: may_modify_def bob_user_def)
qed

end
